theory Spec2Isabelle
  imports Complex_Main "HOL-Library.Word" "HOL-Library.AList"
begin

section \<open>Strings and the runtime library\<close>

text \<open>
  A JavaScript string is a sequence of UTF-16 code units. Literals of the source are
  written with \<open>lit\<close>, which embeds an ASCII literal.
\<close>

type_synonym jsstring = "16 word list"

definition lit :: "string \<Rightarrow> jsstring" where
  "lit s = map (\<lambda>c. of_nat (of_char c)) s"

text \<open>
  \<open>String.prototype.trim\<close> removes the code units of WhiteSpace and LineTerminator
  (ECMA-262) from both ends: TAB, LF, VT, FF, CR, SP, NBSP, U+1680, U+2000..U+200A,
  U+2028, U+2029, U+202F, U+205F, U+3000 and U+FEFF.
\<close>

definition isWhiteSpace :: "16 word \<Rightarrow> bool" where
  "isWhiteSpace c =
     (unat c \<in> {9, 10, 11, 12, 13, 32, 160, 5760, 8232, 8233, 8239, 8287, 12288, 65279}
      \<or> (8192 \<le> unat c \<and> unat c \<le> 8202))"

definition trim :: "jsstring \<Rightarrow> jsstring" where
  "trim s = rev (dropWhile isWhiteSpace (rev (dropWhile isWhiteSpace s)))"

text \<open>
  The values \<open>JSON.parse\<close> can return. The only numbers the program stores are the
  integer millisecond readings of \<open>Date.now()\<close>, so a number carries an integer.
  An object is its list of properties in order.
\<close>

datatype json =
    JNull
  | JBool bool
  | JNum int
  | JStr jsstring
  | JArr "json list"
  | JObj "(jsstring \<times> json) list"

text \<open>
  A JavaScript number: NaN, an infinity, or a finite double, which is a rational
  number (the two zeros are not told apart: the code never divides by one).
\<close>

datatype jsnum = NaN | Infinite | Finite rat

text \<open>
  \<open>JSON.parse\<close>, \<open>JSON.stringify\<close>, \<open>String.prototype.localeCompare\<close>, the
  conversion \<open>Number(s)\<close> of a string and the arithmetic of doubles belong to the
  runtime, not to the repository: the model takes them as parameters.
  \<open>JSON_parse\<close> returns \<open>None\<close> where the runtime throws a SyntaxError.
  \<open>localeCompare a b\<close> is \<open>a.localeCompare(b)\<close>: negative, zero or positive
  by the collation of the user's locale. \<open>StringToNumber s\<close> is \<open>Number(s)\<close> for a
  string \<open>s\<close>, with everything the language reads there: white space around the
  literal, a sign, a fraction, an exponent, a radix prefix, \<open>Infinity\<close>.
  \<open>double_minus_one x\<close> is the double \<open>x - 1\<close> for a finite double \<open>x\<close>.
\<close>

record runtime =
  JSON_parse :: "jsstring \<Rightarrow> json option"
  JSON_stringify :: "json \<Rightarrow> jsstring"
  localeCompare :: "jsstring \<Rightarrow> jsstring \<Rightarrow> int"
  StringToNumber :: "jsstring \<Rightarrow> jsnum"
  double_minus_one :: "rat \<Rightarrow> rat"

text \<open>\<open>localStorage\<close>: \<open>getItem\<close> returns null (here \<open>None\<close>) for an absent key.\<close>

type_synonym storage = "jsstring \<rightharpoonup> jsstring"

definition getItem :: "storage \<Rightarrow> jsstring \<Rightarrow> jsstring option" where
  "getItem ls k = ls k"

definition setItem :: "jsstring \<Rightarrow> jsstring \<Rightarrow> storage \<Rightarrow> storage" where
  "setItem k v ls = ls(k \<mapsto> v)"

text \<open>Truthiness, \<open>Array.isArray\<close> and \<open>typeof v === 'object'\<close> on parsed values.\<close>

fun truthy :: "json \<Rightarrow> bool" where
  "truthy JNull = False"
| "truthy (JBool b) = b"
| "truthy (JNum n) = (n \<noteq> 0)"
| "truthy (JStr s) = (s \<noteq> [])"
| "truthy (JArr xs) = True"
| "truthy (JObj kvs) = True"

fun isArray :: "json \<Rightarrow> bool" where
  "isArray (JArr xs) = True"
| "isArray v = False"

fun typeof_object :: "json \<Rightarrow> bool" where
  "typeof_object JNull = True"
| "typeof_object (JArr xs) = True"
| "typeof_object (JObj kvs) = True"
| "typeof_object v = False"

text \<open>
  Reading a property. \<open>Inl TypeError\<close>: the access throws, which it does on null.
  \<open>Inr None\<close>: the result is \<open>undefined\<close>. The property names the program reads
  (completed, subject, priority, role, content, choices, message) are not properties of strings, numbers,
  booleans or arrays, so reading them there gives \<open>undefined\<close>.
\<close>

datatype error = TypeError

fun get_prop :: "json \<Rightarrow> jsstring \<Rightarrow> error + json option" where
  "get_prop JNull k = Inl TypeError"
| "get_prop (JObj kvs) k = Inr (map_of kvs k)"
| "get_prop v k = Inr None"

fun truthy_opt :: "json option \<Rightarrow> bool" where
  "truthy_opt None = False"
| "truthy_opt (Some v) = truthy v"

section \<open>Persistence layer\<close>

definition KEY_tasks :: jsstring where "KEY_tasks = lit ''taskManagerTasks''"
definition KEY_subjects :: jsstring where "KEY_subjects = lit ''taskManagerSubjects''"
definition KEY_subjectColors :: jsstring where "KEY_subjectColors = lit ''taskManagerSubjectColors''"
definition KEY_theme :: jsstring where "KEY_theme = lit ''taskManagerTheme''"
definition KEY_apiKey :: jsstring where "KEY_apiKey = lit ''chat_api_key''"
definition KEY_model :: jsstring where "KEY_model = lit ''chat_model''"
definition KEY_history :: jsstring where "KEY_history = lit ''chat_history''"

text \<open>
  \<open>safelyParseJson(text, fallback)\<close>: \<open>try { return JSON.parse(text) } catch { return fallback }\<close>.
  The text is what \<open>getItem\<close> returned. For null, \<open>JSON.parse\<close> converts its
  argument to the string \<open>null\<close> and returns the value null: no exception, no fallback.
\<close>

definition safelyParseJson :: "runtime \<Rightarrow> jsstring option \<Rightarrow> json \<Rightarrow> json" where
  "safelyParseJson rt text fallback =
     (case text of
        None \<Rightarrow> JNull
      | Some s \<Rightarrow> (case JSON_parse rt s of None \<Rightarrow> fallback | Some v \<Rightarrow> v))"

text \<open>The \<open>Storage\<close> object of the task board.\<close>

definition Storage_loadTasks :: "runtime \<Rightarrow> storage \<Rightarrow> json" where
  "Storage_loadTasks rt ls = safelyParseJson rt (getItem ls KEY_tasks) (JArr [])"

definition Storage_saveTasks :: "runtime \<Rightarrow> json \<Rightarrow> storage \<Rightarrow> storage" where
  "Storage_saveTasks rt tasks ls = setItem KEY_tasks (JSON_stringify rt tasks) ls"

definition Storage_loadSubjects :: "runtime \<Rightarrow> storage \<Rightarrow> json" where
  "Storage_loadSubjects rt ls =
     (let s = safelyParseJson rt (getItem ls KEY_subjects) (JArr [])
      in if isArray s then s else JArr [])"

definition Storage_saveSubjects :: "runtime \<Rightarrow> json \<Rightarrow> storage \<Rightarrow> storage" where
  "Storage_saveSubjects rt subjects ls = setItem KEY_subjects (JSON_stringify rt subjects) ls"

definition Storage_loadSubjectColors :: "runtime \<Rightarrow> storage \<Rightarrow> json" where
  "Storage_loadSubjectColors rt ls =
     (let m = safelyParseJson rt (getItem ls KEY_subjectColors) (JObj [])
      in if truthy m \<and> typeof_object m then m else JObj [])"

definition Storage_saveSubjectColors :: "runtime \<Rightarrow> json \<Rightarrow> storage \<Rightarrow> storage" where
  "Storage_saveSubjectColors rt m ls = setItem KEY_subjectColors (JSON_stringify rt m) ls"

text \<open>
  The calendar's \<open>loadTasks\<close>: the array check, then \<open>list.filter(t => !t.completed)\<close>.
  The callback reads a property of every element, which throws on a null element.
\<close>

fun filter_not_completed :: "json list \<Rightarrow> error + json list" where
  "filter_not_completed [] = Inr []"
| "filter_not_completed (t # ts) =
     (case get_prop t (lit ''completed'') of
        Inl e \<Rightarrow> Inl e
      | Inr c \<Rightarrow>
          (case filter_not_completed ts of
             Inl e \<Rightarrow> Inl e
           | Inr r \<Rightarrow> Inr (if truthy_opt c then r else t # r)))"

definition calendar_loadTasks :: "runtime \<Rightarrow> storage \<Rightarrow> error + json list" where
  "calendar_loadTasks rt ls =
     (let tasks = safelyParseJson rt (getItem ls KEY_tasks) (JArr []);
          list = (case tasks of JArr xs \<Rightarrow> xs | _ \<Rightarrow> [])
      in filter_not_completed list)"

definition calendar_loadSubjectColors :: "runtime \<Rightarrow> storage \<Rightarrow> json" where
  "calendar_loadSubjectColors rt ls =
     (let colors = safelyParseJson rt (getItem ls KEY_subjectColors) (JObj [])
      in if truthy colors \<and> typeof_object colors then colors else JObj [])"

section \<open>Chat client\<close>

text \<open>
  The state the send handler reads and writes: \<open>Chat.messages\<close>, the local storage,
  the text of the input box, and the requests handed to \<open>fetch\<close> so far.
\<close>

record request =
  req_url :: jsstring
  req_authorization :: jsstring
  req_body :: jsstring

record chat_state =
  messages :: "json list"
  localStorage :: storage
  inputValue :: jsstring
  requests :: "request list"

text \<open>
  What one run of the handler takes from outside: the two readings of \<open>Date.now()\<close>,
  how the awaited \<open>fetch\<close> settles, and the message text of an exception raised by the
  engine itself (a TypeError or SyntaxError), which is engine specific.
\<close>

datatype fetch_result = NetworkFailure jsstring | Response nat jsstring

record chat_env =
  now_user :: int
  now_reply :: int
  settled :: fetch_result
  engine_message :: jsstring

definition Chat_load :: "runtime \<Rightarrow> chat_state \<Rightarrow> chat_state" where
  "Chat_load rt st =
     st\<lparr>messages :=
          (case safelyParseJson rt (getItem (localStorage st) KEY_history) (JArr []) of
             JArr xs \<Rightarrow> xs
           | _ \<Rightarrow> [])\<rparr>"

definition Chat_save :: "runtime \<Rightarrow> chat_state \<Rightarrow> chat_state" where
  "Chat_save rt st =
     st\<lparr>localStorage :=
          setItem KEY_history (JSON_stringify rt (JArr (messages st))) (localStorage st)\<rparr>"

definition Chat_append :: "runtime \<Rightarrow> jsstring \<Rightarrow> json \<Rightarrow> int \<Rightarrow> chat_state \<Rightarrow> chat_state" where
  "Chat_append rt role content now st =
     Chat_save rt
       (st\<lparr>messages := messages st @
              [JObj [(lit ''role'', JStr role), (lit ''content'', content), (lit ''ts'', JNum now)]]\<rparr>)"

text \<open>\<open>String(n)\<close> and \<open>n.toString()\<close> for an integer: its decimal digits.\<close>

definition digit :: "nat \<Rightarrow> 16 word" where
  "digit d = of_nat (48 + d)"

fun digits :: "nat \<Rightarrow> jsstring" where
  "digits n = (if n < 10 then [digit n] else digits (n div 10) @ [digit (n mod 10)])"

definition String_int :: "int \<Rightarrow> jsstring" where
  "String_int i = (if i < 0 then lit ''-'' @ digits (nat (- i)) else digits (nat i))"

text \<open>
  The decimal digits and the number a string of them writes; \<open>digits_value\<close> is the
  inverse of \<open>String_int\<close> on the natural numbers.
\<close>

definition isDigit :: "16 word \<Rightarrow> bool" where
  "isDigit c \<longleftrightarrow> 48 \<le> unat c \<and> unat c \<le> 57"

definition digits_value :: "jsstring \<Rightarrow> nat" where
  "digits_value s = foldl (\<lambda>a c. 10 * a + (unat c - 48)) 0 s"

text \<open>
  \<open>sendToOpenAI\<close>. The request body lists \<open>{role: m.role, content: m.content}\<close> for
  every stored message; a property that is \<open>undefined\<close> is left out by
  \<open>JSON.stringify\<close>, and reading a property of a null message throws before
  \<open>fetch\<close> is called.
\<close>

definition role_content :: "json \<Rightarrow> error + json" where
  "role_content m =
     (case get_prop m (lit ''role'') of
        Inl e \<Rightarrow> Inl e
      | Inr r \<Rightarrow>
          (case get_prop m (lit ''content'') of
             Inl e \<Rightarrow> Inl e
           | Inr c \<Rightarrow>
               Inr (JObj ((case r of None \<Rightarrow> [] | Some v \<Rightarrow> [(lit ''role'', v)]) @
                          (case c of None \<Rightarrow> [] | Some v \<Rightarrow> [(lit ''content'', v)])))))"

fun map_role_content :: "json list \<Rightarrow> error + json list" where
  "map_role_content [] = Inr []"
| "map_role_content (m # ms) =
     (case role_content m of
        Inl e \<Rightarrow> Inl e
      | Inr x \<Rightarrow> (case map_role_content ms of Inl e \<Rightarrow> Inl e | Inr xs \<Rightarrow> Inr (x # xs)))"

text \<open>\<open>v[0]\<close> for a truthy \<open>v\<close>, and the optional chain \<open>v?.k\<close>.\<close>

fun index0 :: "json \<Rightarrow> json option" where
  "index0 (JArr xs) = (case xs of [] \<Rightarrow> None | x # _ \<Rightarrow> Some x)"
| "index0 (JObj kvs) = map_of kvs (lit ''0'')"
| "index0 (JStr s) = (case s of [] \<Rightarrow> None | c # _ \<Rightarrow> Some (JStr [c]))"
| "index0 v = None"

fun opt_chain :: "json option \<Rightarrow> jsstring \<Rightarrow> json option" where
  "opt_chain None k = None"
| "opt_chain (Some v) k = (case get_prop v k of Inl e \<Rightarrow> None | Inr r \<Rightarrow> r)"

text \<open>
  \<open>const choice = data.choices && data.choices[0];
  const content = choice?.message?.content || "(No response)";\<close>
\<close>

definition reply_content :: "json \<Rightarrow> error + json" where
  "reply_content data =
     (case get_prop data (lit ''choices'') of
        Inl e \<Rightarrow> Inl e
      | Inr choices \<Rightarrow>
          (let choice = (case choices of
                           None \<Rightarrow> None
                         | Some c \<Rightarrow> if truthy c then index0 c else Some c);
               content = opt_chain (opt_chain choice (lit ''message'')) (lit ''content'')
           in Inr (case content of
                     None \<Rightarrow> JStr (lit ''(No response)'')
                   | Some c \<Rightarrow> if truthy c then c else JStr (lit ''(No response)''))))"

text \<open>
  The result is the requests issued (none or one) and how the call ends: \<open>Inl m\<close> when
  it throws an error with message \<open>m\<close>, \<open>Inr c\<close> when it returns \<open>c\<close>.
\<close>

definition sendToOpenAI ::
  "runtime \<Rightarrow> chat_env \<Rightarrow> jsstring \<Rightarrow> jsstring \<Rightarrow> json list \<Rightarrow> request list \<times> (jsstring + json)" where
  "sendToOpenAI rt env apiKey model msgs =
     (case map_role_content msgs of
        Inl e \<Rightarrow> ([], Inl (engine_message env))
      | Inr ms \<Rightarrow>
          ([\<lparr>req_url = lit ''https://api.openai.com/v1/chat/completions'',
             req_authorization = lit ''Bearer '' @ apiKey,
             req_body = JSON_stringify rt
               (JObj [(lit ''model'', JStr model), (lit ''messages'', JArr ms)])\<rparr>],
           (case settled env of
              NetworkFailure m \<Rightarrow> Inl m
            | Response status body \<Rightarrow>
                if \<not> (200 \<le> status \<and> status \<le> 299)
                then Inl (lit ''API error '' @ digits status @ lit '': '' @ body)
                else (case JSON_parse rt body of
                        None \<Rightarrow> Inl (engine_message env)
                      | Some data \<Rightarrow>
                          (case reply_content data of
                             Inl e \<Rightarrow> Inl (engine_message env)
                           | Inr c \<Rightarrow> Inr c)))))"

text \<open>
  \<open>handleSend\<close>, from the click on Send to the moment the handler is done. The
  rendering of the message list is a function of \<open>Chat.messages\<close> and is not part of
  the state.
\<close>

definition handleSend :: "runtime \<Rightarrow> chat_env \<Rightarrow> chat_state \<Rightarrow> chat_state" where
  "handleSend rt env st =
     (let text = trim (inputValue st) in
      if text = [] then st
      else
        let st1 = Chat_append rt (lit ''user'') (JStr text) (now_user env) (st\<lparr>inputValue := []\<rparr>);
            apiKey = getItem (localStorage st1) KEY_apiKey;
            model = (case getItem (localStorage st1) KEY_model of
                       None \<Rightarrow> lit ''gpt-4o-mini''
                     | Some m \<Rightarrow> if m = [] then lit ''gpt-4o-mini'' else m)
        in case apiKey of
             None \<Rightarrow>
               Chat_append rt (lit ''assistant'')
                 (JStr (lit ''Please set your API key in the API dialog.'')) (now_reply env) st1
           | Some key \<Rightarrow>
               if key = [] then
                 Chat_append rt (lit ''assistant'')
                   (JStr (lit ''Please set your API key in the API dialog.'')) (now_reply env) st1
               else
                 (case sendToOpenAI rt env key model (messages st1) of
                    (reqs, outcome) \<Rightarrow>
                      let st2 = st1\<lparr>requests := requests st1 @ reqs\<rparr> in
                      (case outcome of
                         Inr reply \<Rightarrow> Chat_append rt (lit ''assistant'') reply (now_reply env) st2
                       | Inl m \<Rightarrow>
                           Chat_append rt (lit ''assistant'') (JStr (lit ''Error: '' @ m))
                             (now_reply env) st2)))"

section \<open>Task board\<close>

subsection \<open>Subject colours\<close>

text \<open>\<open>n.toString(16)\<close> for an integer and \<open>s.padStart(2, '0')\<close>.\<close>

definition hexdigit :: "nat \<Rightarrow> 16 word" where
  "hexdigit d = (if d < 10 then of_nat (48 + d) else of_nat (87 + d))"

fun hexdigits :: "nat \<Rightarrow> jsstring" where
  "hexdigits n = (if n < 16 then [hexdigit n] else hexdigits (n div 16) @ [hexdigit (n mod 16)])"

definition toString16 :: "int \<Rightarrow> jsstring" where
  "toString16 i = (if i < 0 then lit ''-'' @ hexdigits (nat (- i)) else hexdigits (nat i))"

definition padStart2 :: "jsstring \<Rightarrow> jsstring" where
  "padStart2 s = replicate (2 - length s) 48 @ s"

text \<open>
  \<open>generateColorFor\<close>. The hash \<open>h = (h << 5) - h + seed.charCodeAt(i); h |= 0\<close> is
  arithmetic modulo \<open>2^32\<close> read as a signed 32-bit integer. \<open>hslToHex\<close> computes in
  binary floating point; the model computes in exact rationals, with \<open>%\<close> as the
  remainder of the division truncated towards zero and \<open>Math.round x\<close> as
  \<open>\<lfloor>x + 1/2\<rfloor>\<close>. For the arguments \<open>generateColorFor\<close> passes (saturation 65, lightness
  60, an integer hue in 0..359) every value handed to \<open>Math.round\<close> is a multiple of
  1/100 that is no multiple of 1/2, so it is at least 1/100 away from a rounding tie, far
  more than the rounding error of the few floating-point operations before it: the
  integers, and with them the digits, are the same.
\<close>

definition js_rem :: "rat \<Rightarrow> rat \<Rightarrow> rat" where
  "js_rem a b = a - b * of_int (if 0 \<le> a / b then \<lfloor>a / b\<rfloor> else \<lceil>a / b\<rceil>)"

definition Math_round :: "rat \<Rightarrow> int" where
  "Math_round x = \<lfloor>x + 1 / 2\<rfloor>"

definition toHex :: "rat \<Rightarrow> rat \<Rightarrow> jsstring" where
  "toHex m v = padStart2 (toString16 (Math_round ((v + m) * 255)))"

definition hslToHex :: "rat \<Rightarrow> rat \<Rightarrow> rat \<Rightarrow> jsstring" where
  "hslToHex H S0 L0 =
     (let S = S0 / 100;
          L = L0 / 100;
          C = (1 - \<bar>2 * L - 1\<bar>) * S;
          X = C * (1 - \<bar>js_rem (H / 60) 2 - 1\<bar>);
          m = L - C / 2;
          rgb = (if 0 \<le> H \<and> H < 60 then (C, X, 0)
                 else if 60 \<le> H \<and> H < 120 then (X, C, 0)
                 else if 120 \<le> H \<and> H < 180 then (0, C, X)
                 else if 180 \<le> H \<and> H < 240 then (0, X, C)
                 else if 240 \<le> H \<and> H < 300 then (X, 0, C)
                 else (C, 0, X))
      in case rgb of (r, g, b) \<Rightarrow> lit ''#'' @ toHex m r @ toHex m g @ toHex m b)"

definition seed_hash :: "jsstring \<Rightarrow> 32 word" where
  "seed_hash seed = foldl (\<lambda>h c. push_bit 5 h - h + ucast c) 0 seed"

definition generateColorFor :: "jsstring \<Rightarrow> jsstring" where
  "generateColorFor seed =
     (let hue = \<bar>sint (seed_hash seed)\<bar> mod 360 in hslToHex (of_int hue) 65 60)"

subsection \<open>Loading the board\<close>

text \<open>
  The load of tasks and subjects in \<open>App.init\<close>:

  \<^verbatim>\<open>this.tasks = Storage.loadTasks();\<close>
  \<^verbatim>\<open>if (!Array.isArray(this.tasks)) this.tasks = [];\<close>
  \<^verbatim>\<open>this.subjects = Storage.loadSubjects();\<close>
  \<^verbatim>\<open>if (!this.subjects.length && this.tasks.length) {\<close>
  \<^verbatim>\<open>  const set = new Set(this.tasks.map(t => t.subject).filter(Boolean));\<close>
  \<^verbatim>\<open>  this.subjects = Array.from(set);\<close>
  \<^verbatim>\<open>  Storage.saveSubjects(this.subjects);\<close>
  \<^verbatim>\<open>}\<close>
  \<^verbatim>\<open>let mutated = false;\<close>
  \<^verbatim>\<open>this.tasks = this.tasks.map(t => {\<close>
  \<^verbatim>\<open>  if (!t.priority) { mutated = true; return { ...t, priority: 'medium' }; }\<close>
  \<^verbatim>\<open>  return t;\<close>
  \<^verbatim>\<open>});\<close>
  \<^verbatim>\<open>if (mutated) Storage.saveTasks(this.tasks);\<close>

  Both callbacks read a property of every element of the stored array, which throws
  a TypeError on a null element.
\<close>

text \<open>
  \<open>this.tasks.map(t => t.subject).filter(Boolean)\<close>: the truthy subjects, in order;
  a missing subject is \<open>undefined\<close> and is filtered out.
\<close>

fun task_subjects :: "json list \<Rightarrow> error + json list" where
  "task_subjects [] = Inr []"
| "task_subjects (t # ts) =
     (case get_prop t (lit ''subject'') of
        Inl e \<Rightarrow> Inl e
      | Inr s \<Rightarrow>
          (case task_subjects ts of
             Inl e \<Rightarrow> Inl e
           | Inr r \<Rightarrow> Inr (case s of None \<Rightarrow> r | Some v \<Rightarrow> if truthy v then v # r else r)))"

text \<open>
  \<open>Array.from(new Set(xs))\<close>: the first occurrence of every value, in order. Strings,
  numbers and booleans are the same value when they are equal; two arrays or two
  objects that \<open>JSON.parse\<close> made are never the same value.
\<close>

fun same_value :: "json \<Rightarrow> json \<Rightarrow> bool" where
  "same_value (JArr xs) w = False"
| "same_value (JObj kvs) w = False"
| "same_value v w = (v = w)"

definition Set_values :: "json list \<Rightarrow> json list" where
  "Set_values xs = foldl (\<lambda>acc v. if list_ex (same_value v) acc then acc else acc @ [v]) [] xs"

text \<open>
  The own enumerable properties that the spread \<open>{...t}\<close> copies: those of an object,
  the indexed elements of an array, the indexed code units of a string, and none of
  a number or a boolean. \<open>{...t, priority: 'medium'}\<close> then sets the priority, in
  place where the property exists and at the end otherwise.
\<close>

fun own_props :: "json \<Rightarrow> (jsstring \<times> json) list" where
  "own_props (JObj kvs) = kvs"
| "own_props (JArr xs) = zip (map (\<lambda>i. String_int (int i)) [0..<length xs]) xs"
| "own_props (JStr s) = zip (map (\<lambda>i. String_int (int i)) [0..<length s]) (map (\<lambda>c. JStr [c]) s)"
| "own_props v = []"

definition with_medium :: "json \<Rightarrow> json" where
  "with_medium t = JObj (AList.update (lit ''priority'') (JStr (lit ''medium'')) (own_props t))"

text \<open>The second \<open>map\<close>: the new list, and whether \<open>mutated\<close> was set.\<close>

fun default_priorities :: "json list \<Rightarrow> error + (json list \<times> bool)" where
  "default_priorities [] = Inr ([], False)"
| "default_priorities (t # ts) =
     (case get_prop t (lit ''priority'') of
        Inl e \<Rightarrow> Inl e
      | Inr p \<Rightarrow>
          (case default_priorities ts of
             Inl e \<Rightarrow> Inl e
           | Inr (r, mutated) \<Rightarrow>
               Inr (if truthy_opt p then (t # r, mutated) else (with_medium t # r, True))))"

record board_load =
  loaded_tasks :: "json list"
  loaded_subjects :: "json list"
  loaded_storage :: storage

definition elements :: "json \<Rightarrow> json list" where
  "elements v = (case v of JArr xs \<Rightarrow> xs | _ \<Rightarrow> [])"

definition App_init_load :: "runtime \<Rightarrow> storage \<Rightarrow> error + board_load" where
  "App_init_load rt ls =
     (let tasks0 = (let tasks = Storage_loadTasks rt ls in if isArray tasks then elements tasks else []);
          subjects0 = elements (Storage_loadSubjects rt ls)
      in case (if subjects0 = [] \<and> tasks0 \<noteq> []
               then (case task_subjects tasks0 of
                       Inl e \<Rightarrow> Inl e
                     | Inr ss \<Rightarrow> Inr (Set_values ss, Storage_saveSubjects rt (JArr (Set_values ss)) ls))
               else Inr (subjects0, ls)) of
           Inl e \<Rightarrow> Inl e
         | Inr (subjects1, ls1) \<Rightarrow>
             (case default_priorities tasks0 of
                Inl e \<Rightarrow> Inl e
              | Inr (tasks1, mutated) \<Rightarrow>
                  Inr \<lparr>loaded_tasks = tasks1, loaded_subjects = subjects1,
                       loaded_storage = (if mutated then Storage_saveTasks rt (JArr tasks1) ls1 else ls1)\<rparr>))"

text \<open>The task list of the board after the load, or the error the load throws.\<close>

definition App_init_tasks :: "runtime \<Rightarrow> storage \<Rightarrow> error + json list" where
  "App_init_tasks rt ls =
     (case App_init_load rt ls of Inl e \<Rightarrow> Inl e | Inr s \<Rightarrow> Inr (loaded_tasks s))"

subsection \<open>Tasks and the state of the board\<close>

text \<open>
  A Task, with the fields \<open>onSubmit\<close> gives it. \<open>dueDate\<close> and \<open>priority\<close> are
  optional: the code reads them with a guard (\<open>!t.dueDate\<close>, \<open>t.priority || 'medium'\<close>),
  and \<open>None\<close> is a task without the property.
\<close>

record task =
  task_id :: jsstring
  name :: jsstring
  subject :: jsstring
  dueDate :: "jsstring option"
  priority :: "jsstring option"
  completed :: bool
  createdAt :: jsstring

definition task_json :: "task \<Rightarrow> json" where
  "task_json t =
     JObj ([(lit ''id'', JStr (task_id t)), (lit ''name'', JStr (name t)),
            (lit ''subject'', JStr (subject t))] @
           (case dueDate t of None \<Rightarrow> [] | Some d \<Rightarrow> [(lit ''dueDate'', JStr d)]) @
           (case priority t of None \<Rightarrow> [] | Some p \<Rightarrow> [(lit ''priority'', JStr p)]) @
           [(lit ''completed'', JBool (completed t)), (lit ''createdAt'', JStr (createdAt t))])"

text \<open>
  \<open>App\<close>: the task list, the subject list, the colour map (an object: its properties
  in insertion order) and the local storage. Notifications and the rendered page are not
  part of the state.
\<close>

record app_state =
  tasks :: "task list"
  subjects :: "jsstring list"
  subjectColors :: "(jsstring \<times> jsstring) list"
  app_storage :: storage

definition save_tasks :: "runtime \<Rightarrow> app_state \<Rightarrow> app_state" where
  "save_tasks rt st =
     st\<lparr>app_storage := Storage_saveTasks rt (JArr (map task_json (tasks st))) (app_storage st)\<rparr>"

definition save_subjects :: "runtime \<Rightarrow> app_state \<Rightarrow> app_state" where
  "save_subjects rt st =
     st\<lparr>app_storage := Storage_saveSubjects rt (JArr (map JStr (subjects st))) (app_storage st)\<rparr>"

definition save_subjectColors :: "runtime \<Rightarrow> app_state \<Rightarrow> app_state" where
  "save_subjectColors rt st =
     st\<lparr>app_storage :=
          Storage_saveSubjectColors rt (JObj (map (\<lambda>(k, v). (k, JStr v)) (subjectColors st)))
            (app_storage st)\<rparr>"

text \<open>
  \<open>Array.prototype.sort\<close> with a comparator is a stable sort. For a consistent
  comparator the result is determined, the stable sorted arrangement, and insertion
  computes it; a comparator result of NaN counts as 0.
\<close>

fun insert_sorted :: "('a \<Rightarrow> 'a \<Rightarrow> int) \<Rightarrow> 'a \<Rightarrow> 'a list \<Rightarrow> 'a list" where
  "insert_sorted cmp x [] = [x]"
| "insert_sorted cmp x (y # ys) =
     (if cmp x y \<le> 0 then x # y # ys else y # insert_sorted cmp x ys)"

definition Array_sort :: "('a \<Rightarrow> 'a \<Rightarrow> int) \<Rightarrow> 'a list \<Rightarrow> 'a list" where
  "Array_sort cmp xs = foldr (insert_sorted cmp) xs []"

subsection \<open>Operations of the board\<close>

text \<open>
  The task form as \<open>onSubmit\<close> reads it; \<open>form_priority\<close> is \<open>None\<close> when the page
  has no priority element. \<open>now\<close> is the reading of \<open>Date.now()\<close> and \<open>created\<close> the
  text of \<open>new Date().toISOString()\<close>.
\<close>

record task_form =
  form_name :: jsstring
  form_subject :: jsstring
  form_dueDate :: jsstring
  form_priority :: "jsstring option"

definition onSubmit :: "runtime \<Rightarrow> int \<Rightarrow> jsstring \<Rightarrow> task_form \<Rightarrow> app_state \<Rightarrow> app_state" where
  "onSubmit rt now created form st =
     (let nm = trim (form_name form);
          subj = trim (form_subject form);
          due = form_dueDate form;
          prio = (case form_priority form of
                    None \<Rightarrow> lit ''medium''
                  | Some p \<Rightarrow> if p \<noteq> [] then p else lit ''medium'')
      in if nm = [] \<or> subj = [] \<or> due = [] \<or> prio = [] then st
         else save_tasks rt
                (st\<lparr>tasks := tasks st @
                       [\<lparr>task_id = String_int now, name = nm, subject = subj,
                         dueDate = Some due, priority = Some prio, completed = False,
                         createdAt = created\<rparr>]\<rparr>))"

text \<open>\<open>onAddSubject\<close>; \<open>input\<close> is what \<open>prompt\<close> returned, \<open>None\<close> for null.\<close>

definition onAddSubject :: "runtime \<Rightarrow> jsstring option \<Rightarrow> app_state \<Rightarrow> app_state" where
  "onAddSubject rt input st =
     (case input of
        None \<Rightarrow> st
      | Some i \<Rightarrow>
          if i = [] then st
          else
            let nm = trim i in
            if nm = [] then st
            else if nm \<in> set (subjects st) then st
            else
              let st1 = save_subjects rt
                          (st\<lparr>subjects := Array_sort (localeCompare rt) (subjects st @ [nm])\<rparr>)
              in save_subjectColors rt
                   (st1\<lparr>subjectColors :=
                          AList.update nm (generateColorFor nm) (subjectColors st1)\<rparr>))"

text \<open>\<open>deleteSubject\<close>; \<open>confirmed\<close> is what \<open>confirm\<close> returned.\<close>

definition deleteSubject :: "runtime \<Rightarrow> jsstring \<Rightarrow> bool \<Rightarrow> app_state \<Rightarrow> app_state" where
  "deleteSubject rt subj confirmed st =
     (if \<not> confirmed then st
      else
        let st1 = save_tasks rt (save_subjects rt
                    (st\<lparr>subjects := filter (\<lambda>s. s \<noteq> subj) (subjects st),
                        tasks := filter (\<lambda>t. subject t \<noteq> subj) (tasks st)\<rparr>))
        in case map_of (subjectColors st1) subj of
             None \<Rightarrow> st1
           | Some c \<Rightarrow>
               if c = [] then st1
               else save_subjectColors rt
                      (st1\<lparr>subjectColors := AList.delete subj (subjectColors st1)\<rparr>))"

text \<open>
  \<open>completeTask\<close> marks the first task with the id, \<open>deleteTask\<close> removes every task
  with it; both save only when something changed.
\<close>

fun mark_first :: "jsstring \<Rightarrow> task list \<Rightarrow> task list option" where
  "mark_first i [] = None"
| "mark_first i (t # ts) =
     (if task_id t = i then Some (t\<lparr>completed := True\<rparr> # ts)
      else map_option ((#) t) (mark_first i ts))"

definition completeTask :: "runtime \<Rightarrow> jsstring \<Rightarrow> app_state \<Rightarrow> app_state" where
  "completeTask rt i st =
     (case mark_first i (tasks st) of
        None \<Rightarrow> st
      | Some ts \<Rightarrow> save_tasks rt (st\<lparr>tasks := ts\<rparr>))"

definition deleteTask :: "runtime \<Rightarrow> jsstring \<Rightarrow> app_state \<Rightarrow> app_state" where
  "deleteTask rt i st =
     (let st1 = st\<lparr>tasks := filter (\<lambda>t. task_id t \<noteq> i) (tasks st)\<rparr>
      in if length (tasks st1) < length (tasks st) then save_tasks rt st1 else st1)"

text \<open>A user action on the board, with what the browser supplies to it.\<close>

datatype board_op =
    Submit int jsstring task_form
  | CompleteTask jsstring
  | DeleteTask jsstring
  | AddSubject "jsstring option"
  | DeleteSubject jsstring bool

fun board_step :: "runtime \<Rightarrow> app_state \<Rightarrow> board_op \<Rightarrow> app_state" where
  "board_step rt st (Submit now created form) = onSubmit rt now created form st"
| "board_step rt st (CompleteTask i) = completeTask rt i st"
| "board_step rt st (DeleteTask i) = deleteTask rt i st"
| "board_step rt st (AddSubject input) = onAddSubject rt input st"
| "board_step rt st (DeleteSubject subj confirmed) = deleteSubject rt subj confirmed st"

definition board_run :: "runtime \<Rightarrow> app_state \<Rightarrow> board_op list \<Rightarrow> app_state" where
  "board_run rt st ops = foldl (board_step rt) st ops"

text \<open>
  \<open>UI.renderSubjects\<close>: one card per subject, with the subject's tasks that are not
  completed, in the order of the task list.
\<close>

record card =
  card_subject :: jsstring
  card_color :: jsstring
  card_tasks :: "task list"

definition renderSubjects :: "jsstring list \<Rightarrow> task list \<Rightarrow> (jsstring \<times> jsstring) list \<Rightarrow> card list" where
  "renderSubjects subjs ts colors =
     map (\<lambda>s. \<lparr>card_subject = s,
                card_color = (case map_of colors s of None \<Rightarrow> [] | Some c \<Rightarrow> c),
                card_tasks = filter (\<lambda>t. subject t = s \<and> \<not> completed t) ts\<rparr>) subjs"

section \<open>Dates\<close>

text \<open>
  The \<open>Date\<close> of the runtime, read in local time with no zone: a time value counts
  milliseconds from local midnight of 1 January 1970, and every day has 86400000 of them
  (no daylight-saving shift). Day numbers, years, months and dates follow the definitions
  of ECMA-262 (Day, DayFromYear, YearFromTime, MonthFromTime, DateFromTime, WeekDay,
  MakeDay, TimeClip).
\<close>

definition msPerDay :: int where
  "msPerDay = 86400000"

definition DaysInYear :: "int \<Rightarrow> int" where
  "DaysInYear y =
     (if y mod 4 \<noteq> 0 then 365 else if y mod 100 \<noteq> 0 then 366
      else if y mod 400 \<noteq> 0 then 365 else 366)"

definition DayFromYear :: "int \<Rightarrow> int" where
  "DayFromYear y =
     365 * (y - 1970) + (y - 1969) div 4 - (y - 1901) div 100 + (y - 1601) div 400"

text \<open>
  The year of a day number is the largest \<open>y\<close> with \<open>DayFromYear y \<le> n\<close>. It is found
  by counting up from a year that is not after it.
\<close>

function year_search :: "int \<Rightarrow> int \<Rightarrow> int" where
  "year_search y n = (if DayFromYear (y + 1) \<le> n then year_search (y + 1) n else y)"
  by pat_completeness auto
termination
  by (relation "measure (\<lambda>(y, n). nat (n - DayFromYear y))")
     (auto simp add: DayFromYear_def)

definition YearFromDay :: "int \<Rightarrow> int" where
  "YearFromDay n = year_search (1970 + (if 0 \<le> n then n div 366 else n div 365)) n"

definition DayWithinYear :: "int \<Rightarrow> int" where
  "DayWithinYear n = n - DayFromYear (YearFromDay n)"

definition leap_day :: "int \<Rightarrow> int" where
  "leap_day y = (if DaysInYear y = 366 then 1 else 0)"

text \<open>The number of days of the year before month \<open>m\<close> (0 is January), \<open>L\<close> the leap day.\<close>

definition days_before_month :: "int \<Rightarrow> int \<Rightarrow> int" where
  "days_before_month L m =
     (if m = 0 then 0 else if m = 1 then 31 else if m = 2 then 59 + L
      else if m = 3 then 90 + L else if m = 4 then 120 + L else if m = 5 then 151 + L
      else if m = 6 then 181 + L else if m = 7 then 212 + L else if m = 8 then 243 + L
      else if m = 9 then 273 + L else if m = 10 then 304 + L else if m = 11 then 334 + L
      else 365 + L)"

definition MonthFromDay :: "int \<Rightarrow> int" where
  "MonthFromDay n =
     (let d = DayWithinYear n; L = leap_day (YearFromDay n)
      in if d < 31 then 0 else if d < 59 + L then 1 else if d < 90 + L then 2
         else if d < 120 + L then 3 else if d < 151 + L then 4 else if d < 181 + L then 5
         else if d < 212 + L then 6 else if d < 243 + L then 7 else if d < 273 + L then 8
         else if d < 304 + L then 9 else if d < 334 + L then 10 else 11)"

definition DateFromDay :: "int \<Rightarrow> int" where
  "DateFromDay n =
     DayWithinYear n - days_before_month (leap_day (YearFromDay n)) (MonthFromDay n) + 1"

definition WeekDay :: "int \<Rightarrow> int" where
  "WeekDay n = (n + 4) mod 7"

definition MakeDay :: "int \<Rightarrow> int \<Rightarrow> int \<Rightarrow> int" where
  "MakeDay year month dt =
     (let ym = year + month div 12; mn = month mod 12
      in DayFromYear ym + days_before_month (leap_day ym) mn + dt - 1)"

text \<open>A Date object: an Invalid Date (time value NaN) or a time value.\<close>

datatype date = InvalidDate | TimeValue int

definition TimeClip :: "int \<Rightarrow> date" where
  "TimeClip t = (if \<bar>t\<bar> \<le> 8640000000000000 then TimeValue t else InvalidDate)"

text \<open>
  \<open>new Date(year, monthIndex, day)\<close>: local midnight of the day. The arguments are
  the numbers truncated to integers; an argument that is NaN or infinite (\<open>None\<close>)
  gives an Invalid Date; a year from 0 to 99 stands for 1900 + year.
\<close>

definition new_Date :: "int option \<Rightarrow> int option \<Rightarrow> int option \<Rightarrow> date" where
  "new_Date y m d =
     (case (y, m, d) of
        (Some yv, Some mv, Some dv) \<Rightarrow>
          TimeClip (MakeDay (if 0 \<le> yv \<and> yv \<le> 99 then 1900 + yv else yv) mv dv * msPerDay)
      | _ \<Rightarrow> InvalidDate)"

text \<open>The getters return NaN (\<open>None\<close>) on an Invalid Date.\<close>

definition Day :: "int \<Rightarrow> int" where
  "Day t = t div msPerDay"

fun getFullYear :: "date \<Rightarrow> int option" where
  "getFullYear InvalidDate = None"
| "getFullYear (TimeValue t) = Some (YearFromDay (Day t))"

fun getMonth :: "date \<Rightarrow> int option" where
  "getMonth InvalidDate = None"
| "getMonth (TimeValue t) = Some (MonthFromDay (Day t))"

fun getDate :: "date \<Rightarrow> int option" where
  "getDate InvalidDate = None"
| "getDate (TimeValue t) = Some (DateFromDay (Day t))"

fun getDay :: "date \<Rightarrow> int option" where
  "getDay InvalidDate = None"
| "getDay (TimeValue t) = Some (WeekDay (Day t))"

text \<open>\<open>d.setHours(0,0,0,0)\<close> and \<open>d.setDate(k)\<close>.\<close>

fun setHours0 :: "date \<Rightarrow> date" where
  "setHours0 InvalidDate = InvalidDate"
| "setHours0 (TimeValue t) = TimeClip (Day t * msPerDay)"

fun setDate :: "date \<Rightarrow> int \<Rightarrow> date" where
  "setDate InvalidDate k = InvalidDate"
| "setDate (TimeValue t) k =
     TimeClip (MakeDay (YearFromDay (Day t)) (MonthFromDay (Day t)) k * msPerDay + t mod msPerDay)"

text \<open>\<open>a < b\<close> on Date objects compares the time values; with NaN it is false.\<close>

fun date_less :: "date \<Rightarrow> date \<Rightarrow> bool" where
  "date_less (TimeValue a) (TimeValue b) = (a < b)"
| "date_less a b = False"

text \<open>
  The texts of a date. \<open>toDateString\<close> is \<open>Mon Jan 01 2024\<close>, with the year padded
  to four digits. \<open>formatLongDate\<close> is
  \<open>toLocaleDateString("en-US", {weekday: "short", year: "numeric", month: "short", day: "numeric"})\<close>,
  which for the years from 1 on reads \<open>Mon, Jan 1, 2024\<close>.
\<close>

definition weekday_names :: "jsstring list" where
  "weekday_names = [lit ''Sun'', lit ''Mon'', lit ''Tue'', lit ''Wed'', lit ''Thu'', lit ''Fri'', lit ''Sat'']"

definition month_names :: "jsstring list" where
  "month_names = [lit ''Jan'', lit ''Feb'', lit ''Mar'', lit ''Apr'', lit ''May'', lit ''Jun'',
                  lit ''Jul'', lit ''Aug'', lit ''Sep'', lit ''Oct'', lit ''Nov'', lit ''Dec'']"

definition padStart :: "nat \<Rightarrow> jsstring \<Rightarrow> jsstring" where
  "padStart k s = replicate (k - length s) 48 @ s"

fun toDateString :: "date \<Rightarrow> jsstring" where
  "toDateString InvalidDate = lit ''Invalid Date''"
| "toDateString (TimeValue t) =
     (let n = Day t; y = YearFromDay n
      in weekday_names ! nat (WeekDay n) @ lit '' '' @ month_names ! nat (MonthFromDay n) @ lit '' '' @
         padStart 2 (String_int (DateFromDay n)) @ lit '' '' @
         (if y < 0 then lit ''-'' else []) @ padStart 4 (String_int \<bar>y\<bar>))"

fun formatLongDate :: "date \<Rightarrow> jsstring" where
  "formatLongDate InvalidDate = lit ''Invalid Date''"
| "formatLongDate (TimeValue t) =
     (let n = Day t
      in weekday_names ! nat (WeekDay n) @ lit '', '' @ month_names ! nat (MonthFromDay n) @ lit '' '' @
         String_int (DateFromDay n) @ lit '', '' @ String_int (YearFromDay n))"

text \<open>\<open>formatLocalISO\<close>; on an Invalid Date every getter is NaN.\<close>

fun formatLocalISO :: "date \<Rightarrow> jsstring" where
  "formatLocalISO InvalidDate = lit ''NaN-NaN-NaN''"
| "formatLocalISO (TimeValue t) =
     (let n = Day t
      in String_int (YearFromDay n) @ lit ''-'' @ padStart 2 (String_int (MonthFromDay n + 1)) @
         lit ''-'' @ padStart 2 (String_int (DateFromDay n)))"

text \<open>\<open>s.split('-')\<close> and \<open>parseLocalYMD\<close>; \<open>None\<close> is a task without a due date.\<close>

fun split_on :: "16 word \<Rightarrow> jsstring \<Rightarrow> jsstring list" where
  "split_on c [] = [[]]"
| "split_on c (x # xs) =
     (if x = c then [] # split_on c xs
      else (case split_on c xs of [] \<Rightarrow> [[x]] | p # ps \<Rightarrow> (x # p) # ps))"

text \<open>
  \<open>Number(parts[i])\<close>: a missing part is \<open>undefined\<close>, whose number is NaN.
  \<open>or_1 v\<close> is \<open>v || 1\<close>: NaN and zero are falsy. \<open>minus_1\<close> is the subtraction
  \<open>(m || 1) - 1\<close>, and \<open>date_arg\<close> the truncation \<open>new Date\<close> applies to an argument.
\<close>

definition Number_at :: "runtime \<Rightarrow> jsstring list \<Rightarrow> nat \<Rightarrow> jsnum" where
  "Number_at rt parts i = (if i < length parts then StringToNumber rt (parts ! i) else NaN)"

definition or_1 :: "jsnum \<Rightarrow> jsnum" where
  "or_1 v = (case v of NaN \<Rightarrow> Finite 1 | Infinite \<Rightarrow> Infinite
             | Finite r \<Rightarrow> if r = 0 then Finite 1 else Finite r)"

definition minus_1 :: "runtime \<Rightarrow> jsnum \<Rightarrow> jsnum" where
  "minus_1 rt v = (case v of NaN \<Rightarrow> NaN | Infinite \<Rightarrow> Infinite
                   | Finite r \<Rightarrow> Finite (double_minus_one rt r))"

definition date_arg :: "jsnum \<Rightarrow> int option" where
  "date_arg v = (case v of NaN \<Rightarrow> None | Infinite \<Rightarrow> None
                 | Finite r \<Rightarrow> Some (if 0 \<le> r then \<lfloor>r\<rfloor> else \<lceil>r\<rceil>))"

definition parseLocalYMD :: "runtime \<Rightarrow> jsstring option \<Rightarrow> date" where
  "parseLocalYMD rt ymd =
     (case ymd of
        None \<Rightarrow> InvalidDate
      | Some s \<Rightarrow>
          if s = [] then InvalidDate
          else
            let parts = split_on 45 s;
                y = Number_at rt parts 0;
                m = Number_at rt parts 1;
                d = Number_at rt parts 2
            in new_Date (date_arg y) (date_arg (minus_1 rt (or_1 m))) (date_arg (or_1 d)))"

text \<open>
  The part of \<open>UI.taskHtml\<close> that depends on dates: the class and the text of the
  due-date badge. \<open>now\<close> is the time value of \<open>new Date()\<close>.
\<close>

definition taskHtml :: "runtime \<Rightarrow> int \<Rightarrow> task \<Rightarrow> jsstring \<times> jsstring" where
  "taskHtml rt now t =
     (let due = parseLocalYMD rt (dueDate t);
          today = setHours0 (TimeValue now);
          tomorrow = (case getDate today of None \<Rightarrow> InvalidDate | Some k \<Rightarrow> setDate today (k + 1));
          txt = formatLongDate due
      in if date_less due today then (lit ''overdue'', lit ''Overdue - '' @ txt)
         else if toDateString due = toDateString today then (lit ''due-soon'', lit ''Due Today - '' @ txt)
         else if toDateString due = toDateString tomorrow then (lit ''due-soon'', lit ''Due Tomorrow - '' @ txt)
         else ([], txt))"

section \<open>Calendar\<close>

definition getDaysInMonth :: "int \<Rightarrow> int \<Rightarrow> int option" where
  "getDaysInMonth year monthIndex = getDate (new_Date (Some year) (Some (monthIndex + 1)) (Some 0))"

definition getWeekdayIndex :: "int \<Rightarrow> int \<Rightarrow> int \<Rightarrow> int option" where
  "getWeekdayIndex year monthIndex day = getDay (new_Date (Some year) (Some monthIndex) (Some day))"

text \<open>The filter of the calendar's \<open>loadTasks\<close>, on Tasks.\<close>

definition loadTasks_filter :: "task list \<Rightarrow> task list" where
  "loadTasks_filter ts = filter (\<lambda>t. \<not> completed t) ts"

text \<open>
  \<open>groupTasksByDate\<close>: the Map from a due date to the tasks with it, as the list of
  its entries in insertion order. A task with no due date, or an empty one, is skipped.
\<close>

definition group_step :: "(jsstring \<times> task list) list \<Rightarrow> task \<Rightarrow> (jsstring \<times> task list) list" where
  "group_step m t =
     (case dueDate t of
        None \<Rightarrow> m
      | Some k \<Rightarrow>
          if k = [] then m
          else (case map_of m k of
                  None \<Rightarrow> m @ [(k, [t])]
                | Some ts \<Rightarrow> AList.update k (ts @ [t]) m))"

definition groupTasksByDate :: "task list \<Rightarrow> (jsstring \<times> task list) list" where
  "groupTasksByDate ts = foldl group_step [] ts"

text \<open>\<open>tasksByDate.get(iso) || []\<close>\<close>

definition get_or_empty :: "(jsstring \<times> task list) list \<Rightarrow> jsstring \<Rightarrow> task list" where
  "get_or_empty m k = (case map_of m k of None \<Rightarrow> [] | Some ts \<Rightarrow> ts)"

text \<open>
  The comparator of both sorts: \<open>pri[a.priority||'medium'] - pri[b.priority||'medium']\<close>
  with \<open>pri = { high: 0, medium: 1, low: 2 }\<close>. Under any other key the object has no
  number, the difference is NaN, and the sort takes NaN as 0.
\<close>

definition pri :: "jsstring \<Rightarrow> int option" where
  "pri k = (if k = lit ''high'' then Some 0 else if k = lit ''medium'' then Some 1
            else if k = lit ''low'' then Some 2 else None)"

definition priority_or_medium :: "task \<Rightarrow> jsstring" where
  "priority_or_medium t =
     (case priority t of None \<Rightarrow> lit ''medium'' | Some p \<Rightarrow> if p = [] then lit ''medium'' else p)"

definition compare_priority :: "task \<Rightarrow> task \<Rightarrow> int" where
  "compare_priority a b =
     (case (pri (priority_or_medium a), pri (priority_or_medium b)) of
        (Some x, Some y) \<Rightarrow> x - y
      | _ \<Rightarrow> 0)"

text \<open>
  \<open>renderMonth\<close>: the weekday headers, the number of leading blank cells and the day
  cells. A day cell has its number, its date text, whether it is today, its chips in
  order, and the list \<open>openDayModal\<close> shows when the cell is clicked: a sorted copy of
  the cell's list, which the cell's own sort has already put in order. \<open>todayStr\<close> is
  \<open>formatLocalISO(new Date())\<close>. The colour of a chip is read from the colour map by
  the task's subject and changes neither the chips of a cell nor their order.
\<close>

record day_cell =
  cell_day :: int
  cell_iso :: jsstring
  cell_today :: bool
  cell_chips :: "task list"
  cell_modal :: "task list"

record month_grid =
  grid_weekdays :: "jsstring list"
  grid_blanks :: nat
  grid_days :: "day_cell list"

definition render_day ::
  "jsstring \<Rightarrow> int \<Rightarrow> int \<Rightarrow> (jsstring \<times> task list) list \<Rightarrow> int \<Rightarrow> day_cell" where
  "render_day todayStr year monthIndex tasksByDate day =
     (let iso = formatLocalISO (new_Date (Some year) (Some monthIndex) (Some day));
          items = Array_sort compare_priority (get_or_empty tasksByDate iso)
      in \<lparr>cell_day = day, cell_iso = iso, cell_today = (iso = todayStr),
          cell_chips = items, cell_modal = Array_sort compare_priority items\<rparr>)"

definition renderMonth :: "jsstring \<Rightarrow> int \<Rightarrow> int \<Rightarrow> task list \<Rightarrow> month_grid" where
  "renderMonth todayStr year monthIndex ts =
     (let daysInMonth = getDaysInMonth year monthIndex;
          firstWeekday = getWeekdayIndex year monthIndex 1;
          tasksByDate = groupTasksByDate ts
      in \<lparr>grid_weekdays = weekday_names,
          grid_blanks = (case firstWeekday of None \<Rightarrow> 0 | Some w \<Rightarrow> nat w),
          grid_days = map (render_day todayStr year monthIndex tasksByDate)
                        (case daysInMonth of None \<Rightarrow> [] | Some k \<Rightarrow> [1..k])\<rparr>)"

text \<open>\<open>refresh\<close>: load the tasks that are not completed and render the month.\<close>

definition refresh :: "int \<Rightarrow> int \<Rightarrow> int \<Rightarrow> task list \<Rightarrow> month_grid" where
  "refresh now year monthIndex stored =
     renderMonth (formatLocalISO (TimeValue now)) year monthIndex (loadTasks_filter stored)"

section \<open>Reading the claims about the board\<close>

text \<open>
  What the sort needs of a comparator: any two strings are comparable, and the order is
  transitive. The collation behind \<open>localeCompare\<close> is such an order.
\<close>

definition consistent_comparator :: "('a \<Rightarrow> 'a \<Rightarrow> int) \<Rightarrow> bool" where
  "consistent_comparator cmp \<longleftrightarrow>
     (\<forall>a b. cmp a b \<le> 0 \<or> cmp b a \<le> 0) \<and>
     (\<forall>a b c. cmp a b \<le> 0 \<longrightarrow> cmp b c \<le> 0 \<longrightarrow> cmp a c \<le> 0)"

text \<open>The stored subject list is the list in memory.\<close>

definition subjects_stored :: "runtime \<Rightarrow> app_state \<Rightarrow> bool" where
  "subjects_stored rt st \<longleftrightarrow>
     getItem (app_storage st) KEY_subjects = Some (JSON_stringify rt (JArr (map JStr (subjects st))))"

text \<open>
  A well-formed colour: \<open>#\<close> and six hexadecimal digits (lower case, as
  \<open>toString(16)\<close> writes them).
\<close>

definition isHexDigit :: "16 word \<Rightarrow> bool" where
  "isHexDigit c \<longleftrightarrow> (48 \<le> unat c \<and> unat c \<le> 57) \<or> (97 \<le> unat c \<and> unat c \<le> 102)"

definition hex_color :: "jsstring \<Rightarrow> bool" where
  "hex_color s = (case s of [] \<Rightarrow> False | c # ds \<Rightarrow> c = 35 \<and> length ds = 6 \<and> list_all isHexDigit ds)"

text \<open>The readings of \<open>Date.now()\<close> taken by the Add-task actions of a sequence.\<close>

fun submit_times :: "board_op list \<Rightarrow> int list" where
  "submit_times [] = []"
| "submit_times (Submit now created form # acts) = now # submit_times acts"
| "submit_times (a # acts) = submit_times acts"

definition essay_form :: task_form where
  "essay_form = \<lparr>form_name = lit ''Essay'', form_subject = lit ''English'',
                  form_dueDate = lit ''2024-01-01'', form_priority = Some (lit ''high'')\<rparr>"

text \<open>The priority rank of a task: high 0, medium or none 1, low 2.\<close>

definition rank :: "task \<Rightarrow> int" where
  "rank t = (case pri (priority_or_medium t) of None \<Rightarrow> 1 | Some r \<Rightarrow> r)"

text \<open>A task whose priority the comparator knows: high, medium, low or none.\<close>

definition known_priority :: "task \<Rightarrow> bool" where
  "known_priority t \<longleftrightarrow> pri (priority_or_medium t) \<noteq> None"

definition low_task :: task where
  "low_task = \<lparr>task_id = lit ''1'', name = lit ''Notes'', subject = lit ''Math'',
                dueDate = Some (lit ''2024-01-01''), priority = Some (lit ''low''),
                completed = False, createdAt = lit ''2023-12-01T08:00:00.000Z''\<rparr>"

definition high_task :: task where
  "high_task = \<lparr>task_id = lit ''2'', name = lit ''Exam'', subject = lit ''Math'',
                 dueDate = Some (lit ''2024-01-01''), priority = Some (lit ''high''),
                 completed = False, createdAt = lit ''2023-12-01T09:00:00.000Z''\<rparr>"

text \<open>The task of the scenario: an essay due on 1 January 2024.\<close>

definition essay_task :: task where
  "essay_task = \<lparr>task_id = lit ''1704189600000'', name = lit ''Essay'', subject = lit ''English'',
                  dueDate = Some (lit ''2024-01-01''), priority = Some (lit ''high''),
                  completed = False, createdAt = lit ''2024-01-02T10:00:00.000Z''\<rparr>"

text \<open>
  The month a grid shows. \<open>shown_year\<close> is the year \<open>new Date(year, ...)\<close> means and
  \<open>month_length\<close> the number of days of a month. \<open>iso_text y m d\<close> is the text that
  \<open>formatLocalISO\<close> writes for day \<open>d\<close> of month \<open>m\<close> (0 is January) of year \<open>y\<close>: the
  year as \<open>String\<close> writes it, without padding, so with fewer than four digits below
  the year 1000; month and day padded to two digits. \<open>ymd_text y m d\<close> is the text
  \<open>YYYY-MM-DD\<close> of the day \<open>d\<close> of the month number \<open>m\<close> (1 is January), with
  a four-digit year: what a date input stores in \<open>dueDate\<close>.
\<close>

definition shown_year :: "int \<Rightarrow> int" where
  "shown_year year = (if 0 \<le> year \<and> year \<le> 99 then 1900 + year else year)"

definition month_length :: "int \<Rightarrow> int \<Rightarrow> int" where
  "month_length y m = days_before_month (leap_day y) (m + 1) - days_before_month (leap_day y) m"

definition iso_text :: "int \<Rightarrow> int \<Rightarrow> int \<Rightarrow> jsstring" where
  "iso_text y m d =
     String_int y @ lit ''-'' @ padStart 2 (String_int (m + 1)) @ lit ''-'' @ padStart 2 (String_int d)"

definition ymd_text :: "int \<Rightarrow> int \<Rightarrow> int \<Rightarrow> jsstring" where
  "ymd_text y m d =
     padStart 4 (String_int y) @ lit ''-'' @ padStart 2 (String_int m) @ lit ''-'' @ padStart 2 (String_int d)"

text \<open>
  A calendar date is a year, a month number (1 is January) and a day of the month.
  \<open>calendar_date n\<close> is the date of the day number \<open>n\<close> (days since 1 January 1970),
  \<open>date_before\<close> the order of dates, and \<open>long_date y m d\<close> the text of a date with
  the names of its weekday and month, as in \<open>Mon, Jan 1, 2024\<close>.
\<close>

definition calendar_date :: "int \<Rightarrow> int \<times> int \<times> int" where
  "calendar_date n = (YearFromDay n, MonthFromDay n + 1, DateFromDay n)"

fun date_before :: "int \<times> int \<times> int \<Rightarrow> int \<times> int \<times> int \<Rightarrow> bool" where
  "date_before (y, m, d) (y', m', d') \<longleftrightarrow> y < y' \<or> (y = y' \<and> (m < m' \<or> (m = m' \<and> d < d')))"

definition long_date :: "int \<Rightarrow> int \<Rightarrow> int \<Rightarrow> jsstring" where
  "long_date y m d =
     weekday_names ! nat (WeekDay (MakeDay y (m - 1) d)) @ lit '', '' @
     month_names ! nat (m - 1) @ lit '' '' @ String_int d @ lit '', '' @ String_int y"

text \<open>
  What the badge needs of the runtime's numbers: \<open>Number\<close> reads a string of up to
  fifteen decimal digits as the number it writes (every such number is a double), and
  the double \<open>k - 1\<close> of a month number \<open>k\<close> is the integer before it. Every
  ECMAScript engine does both.
\<close>

definition reads_decimal :: "runtime \<Rightarrow> bool" where
  "reads_decimal rt \<longleftrightarrow>
     (\<forall>s. s \<noteq> [] \<and> list_all isDigit s \<and> length s \<le> 15 \<longrightarrow>
          StringToNumber rt s = Finite (of_nat (digits_value s)))
     \<and> (\<forall>k :: int. 1 \<le> k \<and> k \<le> 12 \<longrightarrow> double_minus_one rt (of_int k) = of_int (k - 1))"

text \<open>A task due on 15 January of the year 999, as a date input writes the date.\<close>

definition old_task :: task where
  "old_task = \<lparr>task_id = lit ''3'', name = lit ''Chronicle'', subject = lit ''History'',
                dueDate = Some (lit ''0999-01-15''), priority = Some (lit ''medium''),
                completed = False, createdAt = lit ''2024-01-02T10:00:00.000Z''\<rparr>"

definition empty_board :: app_state where
  "empty_board = \<lparr>tasks = [], subjects = [], subjectColors = [], app_storage = Map.empty\<rparr>"

section \<open>Reading the claims about the persistence layer\<close>

text \<open>
  The deserialized stored value of a key: \<open>None\<close> when the entry is absent or its
  text does not parse. The claims about loading are stated with it.
  \<open>has_priority t\<close>: the stored element \<open>t\<close> is not null and its \<open>priority\<close> is truthy.
\<close>

definition has_priority :: "json \<Rightarrow> bool" where
  "has_priority t = (case get_prop t (lit ''priority'') of Inr p \<Rightarrow> truthy_opt p | Inl e \<Rightarrow> False)"

definition stored_value :: "runtime \<Rightarrow> storage \<Rightarrow> jsstring \<Rightarrow> json option" where
  "stored_value rt ls k = (case getItem ls k of None \<Rightarrow> None | Some s \<Rightarrow> JSON_parse rt s)"

text \<open>
  Four well-formed collections for the closed examples, one of each stored kind, the
  task list that the load of the board makes of the stored text \<open>[1]\<close>, and the texts
  \<open>JSON.stringify\<close> writes for them. \<open>quoted s\<close> is \<open>s\<close> between double quotes
  (code unit 34).
\<close>

definition quoted :: "string \<Rightarrow> jsstring" where
  "quoted s = 34 # lit s @ [34]"

definition example_tasks :: json where
  "example_tasks = JArr [task_json essay_task]"

definition example_tasks_text :: jsstring where
  "example_tasks_text =
     lit ''[{'' @ quoted ''id'' @ lit '':'' @ quoted ''1704189600000'' @ lit '','' @
     quoted ''name'' @ lit '':'' @ quoted ''Essay'' @ lit '','' @
     quoted ''subject'' @ lit '':'' @ quoted ''English'' @ lit '','' @
     quoted ''dueDate'' @ lit '':'' @ quoted ''2024-01-01'' @ lit '','' @
     quoted ''priority'' @ lit '':'' @ quoted ''high'' @ lit '','' @
     quoted ''completed'' @ lit '':false,'' @
     quoted ''createdAt'' @ lit '':'' @ quoted ''2024-01-02T10:00:00.000Z'' @ lit ''}]''"

definition example_subjects :: json where
  "example_subjects = JArr [JStr (lit ''English''), JStr (lit ''Math'')]"

definition example_subjects_text :: jsstring where
  "example_subjects_text = lit ''['' @ quoted ''English'' @ lit '','' @ quoted ''Math'' @ lit '']''"

definition example_colors :: json where
  "example_colors = JObj [(lit ''English'', JStr (lit ''#667eea''))]"

definition example_colors_text :: jsstring where
  "example_colors_text = lit ''{'' @ quoted ''English'' @ lit '':'' @ quoted ''#667eea'' @ lit ''}''"

definition example_history :: json where
  "example_history =
     JArr [JObj [(lit ''role'', JStr (lit ''user'')), (lit ''content'', JStr (lit ''hi'')),
                 (lit ''ts'', JNum 1704189600000)]]"

definition example_defaulted :: json where
  "example_defaulted = JArr [JObj [(lit ''priority'', JStr (lit ''medium''))]]"

definition example_defaulted_text :: jsstring where
  "example_defaulted_text = lit ''[{'' @ quoted ''priority'' @ lit '':'' @ quoted ''medium'' @ lit ''}]''"

definition example_history_text :: jsstring where
  "example_history_text =
     lit ''[{'' @ quoted ''role'' @ lit '':'' @ quoted ''user'' @ lit '','' @
     quoted ''content'' @ lit '':'' @ quoted ''hi'' @ lit '','' @
     quoted ''ts'' @ lit '':1704189600000}]''"

text \<open>
  A stand-in runtime for the closed examples: its \<open>JSON_parse\<close> reads the ten texts
  below as the real \<open>JSON.parse\<close> does and rejects every other text, its
  \<open>JSON_stringify\<close> writes the matching values as the real one does (and the text
  \<open>null\<close> for every other value), its
  \<open>localeCompare\<close> orders strings by code units, its \<open>StringToNumber\<close> reads a string
  of decimal digits as its value (the empty string as 0) and every other string as
  NaN, and its \<open>double_minus_one\<close> is the exact difference. It only instantiates
  examples; every general theorem holds for all runtimes.
\<close>

definition example_parse :: "jsstring \<Rightarrow> json option" where
  "example_parse s =
     (if s = lit ''[]'' then Some (JArr [])
      else if s = lit ''{}'' then Some (JObj [])
      else if s = lit ''[null]'' then Some (JArr [JNull])
      else if s = lit ''[1]'' then Some (JArr [JNum 1])
      else if s = lit ''null'' then Some JNull
      else if s = example_tasks_text then Some example_tasks
      else if s = example_subjects_text then Some example_subjects
      else if s = example_colors_text then Some example_colors
      else if s = example_history_text then Some example_history
      else if s = example_defaulted_text then Some example_defaulted
      else None)"

definition example_stringify :: "json \<Rightarrow> jsstring" where
  "example_stringify v =
     (if v = JArr [] then lit ''[]''
      else if v = JObj [] then lit ''{}''
      else if v = JArr [JNull] then lit ''[null]''
      else if v = JArr [JNum 1] then lit ''[1]''
      else if v = example_tasks then example_tasks_text
      else if v = example_subjects then example_subjects_text
      else if v = example_colors then example_colors_text
      else if v = example_history then example_history_text
      else if v = example_defaulted then example_defaulted_text
      else lit ''null'')"

definition example_number :: "jsstring \<Rightarrow> jsnum" where
  "example_number s = (if list_all isDigit s then Finite (of_nat (digits_value s)) else NaN)"

fun codeunit_compare :: "jsstring \<Rightarrow> jsstring \<Rightarrow> int" where
  "codeunit_compare [] [] = 0"
| "codeunit_compare [] (y # ys) = - 1"
| "codeunit_compare (x # xs) [] = 1"
| "codeunit_compare (x # xs) (y # ys) =
     (if x < y then - 1 else if y < x then 1 else codeunit_compare xs ys)"

definition example_runtime :: runtime where
  "example_runtime =
     \<lparr>JSON_parse = example_parse, JSON_stringify = example_stringify,
      localeCompare = codeunit_compare, StringToNumber = example_number,
      double_minus_one = (\<lambda>x. x - 1)\<rparr>"

definition example_storage :: storage where
  "example_storage = [KEY_tasks \<mapsto> lit ''[1]'', KEY_subjects \<mapsto> lit ''{}'']"

definition null_task_storage :: storage where
  "null_task_storage = [KEY_tasks \<mapsto> lit ''[null]'']"

declare digits.simps [simp del]
declare year_search.simps [simp del]
declare hexdigits.simps [simp del]

section \<open>Properties of the chat client\<close>

lemma trim_blank: "list_all isWhiteSpace s \<Longrightarrow> trim s = []"
proof -
  assume "list_all isWhiteSpace s"
  then have "dropWhile isWhiteSpace s = []"
    by (simp add: list_all_iff)
  then show ?thesis
    unfolding trim_def by (simp only: rev.simps dropWhile.simps)
qed

text \<open>
  Claim C10. When the text of the input box is empty or made of white space only, the send
  handler returns the state it was given: the messages in memory, every key of the local
  storage (the persisted history among them), the input box and the list of requests
  issued are all unchanged.
\<close>

theorem handleSend_blank_noop:
  "list_all isWhiteSpace (inputValue st) \<Longrightarrow> handleSend rt env st = st"
  by (simp add: handleSend_def trim_blank)

theorem handleSend_blank_noop_witness:
  "\<forall>rt env ms ls rs.
     list_all isWhiteSpace (lit '' '' @ [9, 10]) \<and>
     handleSend rt env \<lparr>messages = ms, localStorage = ls, inputValue = lit '' '' @ [9, 10], requests = rs\<rparr>
       = \<lparr>messages = ms, localStorage = ls, inputValue = lit '' '' @ [9, 10], requests = rs\<rparr>"
proof (intro allI conjI)
  show ws: "list_all isWhiteSpace (lit '' '' @ [9, 10])"
    by (simp add: lit_def isWhiteSpace_def)
  fix rt env ms ls rs
  show "handleSend rt env \<lparr>messages = ms, localStorage = ls, inputValue = lit '' '' @ [9, 10], requests = rs\<rparr>
       = \<lparr>messages = ms, localStorage = ls, inputValue = lit '' '' @ [9, 10], requests = rs\<rparr>"
    using ws by (intro handleSend_blank_noop) simp
qed

lemma KEY_history_neq_apiKey: "KEY_history \<noteq> KEY_apiKey"
  by (simp add: KEY_history_def KEY_apiKey_def lit_def)

lemma KEY_history_neq_model: "KEY_history \<noteq> KEY_model"
  by (simp add: KEY_history_def KEY_model_def lit_def)

lemma Chat_append_fields:
  "messages (Chat_append rt role content now st) =
     messages st @ [JObj [(lit ''role'', JStr role), (lit ''content'', content), (lit ''ts'', JNum now)]]"
  "localStorage (Chat_append rt role content now st) =
     (localStorage st)(KEY_history \<mapsto> JSON_stringify rt (JArr (messages (Chat_append rt role content now st))))"
  "inputValue (Chat_append rt role content now st) = inputValue st"
  "requests (Chat_append rt role content now st) = requests st"
  by (simp_all add: Chat_append_def Chat_save_def setItem_def)

lemma Chat_append_apiKey:
  "getItem (localStorage (Chat_append rt role content now st)) KEY_apiKey =
     getItem (localStorage st) KEY_apiKey"
  using KEY_history_neq_apiKey by (simp add: Chat_append_fields getItem_def)

lemma handleSend_no_key:
  assumes nonblank: "trim (inputValue st) \<noteq> []"
    and key: "getItem (localStorage st) KEY_apiKey = None \<or> getItem (localStorage st) KEY_apiKey = Some []"
  shows "handleSend rt env st =
     Chat_append rt (lit ''assistant'') (JStr (lit ''Please set your API key in the API dialog.''))
       (now_reply env)
       (Chat_append rt (lit ''user'') (JStr (trim (inputValue st))) (now_user env)
          (st\<lparr>inputValue := []\<rparr>))"
proof -
  let ?st1 = "Chat_append rt (lit ''user'') (JStr (trim (inputValue st))) (now_user env)
                (st\<lparr>inputValue := []\<rparr>)"
  have "getItem (localStorage ?st1) KEY_apiKey = getItem (localStorage st) KEY_apiKey"
    by (simp add: Chat_append_apiKey)
  with key have "getItem (localStorage ?st1) KEY_apiKey = None
      \<or> getItem (localStorage ?st1) KEY_apiKey = Some []"
    by simp
  then show ?thesis
    using nonblank by (auto simp add: handleSend_def Let_def)
qed

text \<open>
  Claim C9. A send whose input has text left after trimming, with no API key configured
  (the key is absent from the storage or is the empty string), appends the user message
  and then one assistant message with the configuration prompt, in this order and nothing
  else; the history is persisted with both; the list of requests issued is unchanged;
  the input box is cleared.
\<close>

theorem handleSend_without_api_key:
  assumes "trim (inputValue st) \<noteq> []"
    and "getItem (localStorage st) KEY_apiKey = None \<or> getItem (localStorage st) KEY_apiKey = Some []"
  shows "messages (handleSend rt env st) =
           messages st @
           [JObj [(lit ''role'', JStr (lit ''user'')),
                  (lit ''content'', JStr (trim (inputValue st))),
                  (lit ''ts'', JNum (now_user env))],
            JObj [(lit ''role'', JStr (lit ''assistant'')),
                  (lit ''content'', JStr (lit ''Please set your API key in the API dialog.'')),
                  (lit ''ts'', JNum (now_reply env))]]
         \<and> requests (handleSend rt env st) = requests st
         \<and> localStorage (handleSend rt env st) =
             (localStorage st)(KEY_history \<mapsto>
                JSON_stringify rt (JArr (messages (handleSend rt env st))))
         \<and> inputValue (handleSend rt env st) = []"
  by (simp add: handleSend_no_key [OF assms] Chat_append_fields)

theorem handleSend_without_api_key_witness:
  "\<forall>rt env.
     trim (lit '' hi '') = lit ''hi'' \<and>
     getItem Map.empty KEY_apiKey = None \<and>
     messages (handleSend rt env
        \<lparr>messages = [], localStorage = Map.empty, inputValue = lit '' hi '', requests = []\<rparr>) =
       [JObj [(lit ''role'', JStr (lit ''user'')),
              (lit ''content'', JStr (lit ''hi'')),
              (lit ''ts'', JNum (now_user env))],
        JObj [(lit ''role'', JStr (lit ''assistant'')),
              (lit ''content'', JStr (lit ''Please set your API key in the API dialog.'')),
              (lit ''ts'', JNum (now_reply env))]] \<and>
     requests (handleSend rt env
        \<lparr>messages = [], localStorage = Map.empty, inputValue = lit '' hi '', requests = []\<rparr>) = []"
proof (intro allI)
  fix rt :: runtime and env :: chat_env
  let ?st = "\<lparr>messages = [], localStorage = Map.empty, inputValue = lit '' hi '', requests = []\<rparr>"
  have t: "trim (lit '' hi '') = lit ''hi''"
    by (simp add: trim_def lit_def isWhiteSpace_def)
  have nonblank: "trim (inputValue ?st) \<noteq> []"
    by (simp add: t) (simp add: lit_def)
  have nokey: "getItem (localStorage ?st) KEY_apiKey = None
      \<or> getItem (localStorage ?st) KEY_apiKey = Some []"
    by (simp add: getItem_def)
  show "trim (lit '' hi '') = lit ''hi'' \<and>
     getItem Map.empty KEY_apiKey = None \<and>
     messages (handleSend rt env ?st) =
       [JObj [(lit ''role'', JStr (lit ''user'')),
              (lit ''content'', JStr (lit ''hi'')),
              (lit ''ts'', JNum (now_user env))],
        JObj [(lit ''role'', JStr (lit ''assistant'')),
              (lit ''content'', JStr (lit ''Please set your API key in the API dialog.'')),
              (lit ''ts'', JNum (now_reply env))]] \<and>
     requests (handleSend rt env ?st) = []"
    using handleSend_without_api_key [OF nonblank nokey, of rt env] t
    by (simp add: getItem_def)
qed

section \<open>Properties of the persistence layer\<close>

lemma safelyParseJson_stored:
  "safelyParseJson rt (getItem ls k) fallback =
     (case getItem ls k of
        None \<Rightarrow> JNull
      | Some s \<Rightarrow> (case stored_value rt ls k of None \<Rightarrow> fallback | Some v \<Rightarrow> v))"
  by (simp add: safelyParseJson_def stored_value_def split: option.splits)

lemma stored_value_absent: "getItem ls k = None \<Longrightarrow> stored_value rt ls k = None"
  by (simp add: stored_value_def)

lemma load_array_cases:
  "(let s = safelyParseJson rt (getItem ls k) (JArr []) in if isArray s then s else JArr []) =
     (case stored_value rt ls k of Some (JArr xs) \<Rightarrow> JArr xs | _ \<Rightarrow> JArr [])"
  by (auto simp add: safelyParseJson_def stored_value_def Let_def split: option.splits json.splits)

lemma load_object_cases:
  assumes "\<not> (\<exists>xs. stored_value rt ls k = Some (JArr xs))"
  shows "(let m = safelyParseJson rt (getItem ls k) (JObj [])
          in if truthy m \<and> typeof_object m then m else JObj []) =
     (case stored_value rt ls k of Some (JObj kvs) \<Rightarrow> JObj kvs | _ \<Rightarrow> JObj [])"
  using assms
  by (auto simp add: safelyParseJson_def stored_value_def Let_def split: option.splits json.splits)

lemma get_prop_not_null: "t \<noteq> JNull \<Longrightarrow> \<exists>c. get_prop t k = Inr c"
  by (cases t) simp_all

lemma filter_not_completed_no_null:
  "JNull \<notin> set ts \<Longrightarrow>
   filter_not_completed ts =
     Inr (filter (\<lambda>t. case get_prop t (lit ''completed'') of
                          Inr c \<Rightarrow> \<not> truthy_opt c | Inl e \<Rightarrow> False) ts)"
proof (induction ts)
  case Nil
  then show ?case by simp
next
  case (Cons t ts)
  then have "t \<noteq> JNull" by auto
  then obtain c where c: "get_prop t (lit ''completed'') = Inr c"
    using get_prop_not_null by blast
  from Cons show ?case by (simp add: c)
qed

lemma calendar_loadTasks_cases:
  assumes "\<forall>xs. stored_value rt ls KEY_tasks = Some (JArr xs) \<longrightarrow> JNull \<notin> set xs"
  shows "calendar_loadTasks rt ls =
     Inr (case stored_value rt ls KEY_tasks of
            Some (JArr xs) \<Rightarrow>
              filter (\<lambda>t. case get_prop t (lit ''completed'') of
                             Inr c \<Rightarrow> \<not> truthy_opt c | Inl e \<Rightarrow> False) xs
          | _ \<Rightarrow> [])"
  using assms
  by (auto simp add: calendar_loadTasks_def safelyParseJson_def stored_value_def Let_def
        filter_not_completed_no_null split: option.splits json.splits)

lemma loaded_task_elements:
  "(let tasks = Storage_loadTasks rt ls in if isArray tasks then elements tasks else []) =
     (case stored_value rt ls KEY_tasks of Some (JArr xs) \<Rightarrow> xs | _ \<Rightarrow> [])"
  by (auto simp add: Storage_loadTasks_def safelyParseJson_def stored_value_def elements_def Let_def
        split: option.splits json.splits)

lemma task_subjects_no_null: "JNull \<notin> set ts \<Longrightarrow> \<exists>ss. task_subjects ts = Inr ss"
proof (induction ts)
  case Nil
  then show ?case by simp
next
  case (Cons t ts)
  then have "t \<noteq> JNull" by auto
  then obtain s where s: "get_prop t (lit ''subject'') = Inr s"
    using get_prop_not_null by blast
  from Cons obtain ss where "task_subjects ts = Inr ss" by auto
  then show ?case by (simp add: s)
qed

lemma default_priorities_no_null:
  "JNull \<notin> set ts \<Longrightarrow>
   \<exists>mutated. default_priorities ts =
     Inr (map (\<lambda>t. if has_priority t then t else with_medium t) ts, mutated)"
proof (induction ts)
  case Nil
  then show ?case by auto
next
  case (Cons t ts)
  then have "t \<noteq> JNull" by auto
  then obtain p where p: "get_prop t (lit ''priority'') = Inr p"
    using get_prop_not_null by blast
  from Cons obtain mutated where
    "default_priorities ts = Inr (map (\<lambda>t. if has_priority t then t else with_medium t) ts, mutated)"
    by auto
  then show ?case by (auto simp add: p has_priority_def)
qed

lemma has_priority_not_null: "list_all has_priority ts \<Longrightarrow> JNull \<notin> set ts"
  by (induction ts) (auto simp add: has_priority_def)

lemma default_priorities_unchanged:
  "list_all has_priority ts \<Longrightarrow> default_priorities ts = Inr (ts, False)"
  by (induction ts) (auto simp add: has_priority_def split: sum.splits)

lemma App_init_tasks_of_elements:
  assumes "JNull \<notin> set ts"
    and "(let tasks = Storage_loadTasks rt ls in if isArray tasks then elements tasks else []) = ts"
    and "\<exists>mutated. default_priorities ts = Inr (r, mutated)"
  shows "App_init_tasks rt ls = Inr r"
proof -
  obtain mutated where m: "default_priorities ts = Inr (r, mutated)"
    using assms(3) by blast
  obtain ss where ss: "task_subjects ts = Inr ss"
    using task_subjects_no_null [OF assms(1)] by blast
  show ?thesis
    unfolding App_init_tasks_def App_init_load_def assms(2)
    by (simp add: ss m Let_def)
qed

lemma App_init_tasks_cases:
  assumes "\<forall>xs. stored_value rt ls KEY_tasks = Some (JArr xs) \<longrightarrow> JNull \<notin> set xs"
  shows "App_init_tasks rt ls =
     Inr (case stored_value rt ls KEY_tasks of
            Some (JArr xs) \<Rightarrow> map (\<lambda>t. if has_priority t then t else with_medium t) xs
          | _ \<Rightarrow> [])"
proof -
  define ts where "ts = (case stored_value rt ls KEY_tasks of Some (JArr xs) \<Rightarrow> xs | _ \<Rightarrow> [])"
  have el: "(let tasks = Storage_loadTasks rt ls in if isArray tasks then elements tasks else []) = ts"
    unfolding ts_def by (rule loaded_task_elements)
  have nn: "JNull \<notin> set ts"
    using assms by (auto simp add: ts_def split: option.splits json.splits)
  have "App_init_tasks rt ls = Inr (map (\<lambda>t. if has_priority t then t else with_medium t) ts)"
    using nn el default_priorities_no_null [OF nn] by (rule App_init_tasks_of_elements)
  then show ?thesis
    by (simp add: ts_def split: option.splits json.splits)
qed

text \<open>
  Claim C1, as the code has it. No load throws on an absent entry or on a text that does
  not parse. The subject list and the chat history are the stored value when it is an
  array and the empty array in every other case (absent, unparsable, not an array). The
  colour map, on both pages, is the stored value when it is an object and the empty object
  when the entry is absent, unparsable, or a primitive value or null (nothing is said here
  of a stored array). The task list of the board (\<open>App.init\<close>) is the stored array
  with every element that has no truthy priority replaced by an object of its own
  properties and the priority \<open>medium\<close>, and the empty list when the entry is absent,
  unparsable or not an array. The calendar's task load returns the stored array's elements
  whose \<open>completed\<close> is not truthy, and the empty list when the entry is absent,
  unparsable or not an array. Nothing is said here of the two task loads on a stored array
  with a null element.
\<close>

theorem load_returns_value_or_fallback:
  "((\<forall>xs. stored_value rt ls KEY_tasks = Some (JArr xs) \<longrightarrow> JNull \<notin> set xs) \<longrightarrow>
        App_init_tasks rt ls =
          Inr (case stored_value rt ls KEY_tasks of
                 Some (JArr xs) \<Rightarrow> map (\<lambda>t. if has_priority t then t else with_medium t) xs
               | _ \<Rightarrow> []))
   \<and> Storage_loadSubjects rt ls =
     (case stored_value rt ls KEY_subjects of Some (JArr xs) \<Rightarrow> JArr xs | _ \<Rightarrow> JArr [])
   \<and> messages (Chat_load rt st) =
     (case stored_value rt (localStorage st) KEY_history of Some (JArr xs) \<Rightarrow> xs | _ \<Rightarrow> [])
   \<and> ((\<forall>xs. stored_value rt ls KEY_subjectColors \<noteq> Some (JArr xs)) \<longrightarrow>
        Storage_loadSubjectColors rt ls =
          (case stored_value rt ls KEY_subjectColors of Some (JObj kvs) \<Rightarrow> JObj kvs | _ \<Rightarrow> JObj [])
        \<and> calendar_loadSubjectColors rt ls =
          (case stored_value rt ls KEY_subjectColors of Some (JObj kvs) \<Rightarrow> JObj kvs | _ \<Rightarrow> JObj []))
   \<and> ((\<forall>xs. stored_value rt ls KEY_tasks = Some (JArr xs) \<longrightarrow> JNull \<notin> set xs) \<longrightarrow>
        calendar_loadTasks rt ls =
          Inr (case stored_value rt ls KEY_tasks of
                 Some (JArr xs) \<Rightarrow>
                   filter (\<lambda>t. case get_prop t (lit ''completed'') of
                                  Inr c \<Rightarrow> \<not> truthy_opt c | Inl e \<Rightarrow> False) xs
               | _ \<Rightarrow> []))"
proof (intro conjI impI)
  assume "\<forall>xs. stored_value rt ls KEY_tasks = Some (JArr xs) \<longrightarrow> JNull \<notin> set xs"
  then show "App_init_tasks rt ls =
          Inr (case stored_value rt ls KEY_tasks of
                 Some (JArr xs) \<Rightarrow> map (\<lambda>t. if has_priority t then t else with_medium t) xs
               | _ \<Rightarrow> [])"
    by (rule App_init_tasks_cases)
next
  show "Storage_loadSubjects rt ls =
     (case stored_value rt ls KEY_subjects of Some (JArr xs) \<Rightarrow> JArr xs | _ \<Rightarrow> JArr [])"
    unfolding Storage_loadSubjects_def by (rule load_array_cases)
  show "messages (Chat_load rt st) =
     (case stored_value rt (localStorage st) KEY_history of Some (JArr xs) \<Rightarrow> xs | _ \<Rightarrow> [])"
    by (auto simp add: Chat_load_def safelyParseJson_def stored_value_def
          split: option.splits json.splits)
next
  assume a: "\<forall>xs. stored_value rt ls KEY_subjectColors \<noteq> Some (JArr xs)"
  then have na: "\<not> (\<exists>xs. stored_value rt ls KEY_subjectColors = Some (JArr xs))"
    by simp
  show "Storage_loadSubjectColors rt ls =
     (case stored_value rt ls KEY_subjectColors of Some (JObj kvs) \<Rightarrow> JObj kvs | _ \<Rightarrow> JObj [])"
    unfolding Storage_loadSubjectColors_def by (rule load_object_cases [OF na])
  show "calendar_loadSubjectColors rt ls =
     (case stored_value rt ls KEY_subjectColors of Some (JObj kvs) \<Rightarrow> JObj kvs | _ \<Rightarrow> JObj [])"
    unfolding calendar_loadSubjectColors_def by (rule load_object_cases [OF na])
next
  assume "\<forall>xs. stored_value rt ls KEY_tasks = Some (JArr xs) \<longrightarrow> JNull \<notin> set xs"
  then show "calendar_loadTasks rt ls =
          Inr (case stored_value rt ls KEY_tasks of
                 Some (JArr xs) \<Rightarrow>
                   filter (\<lambda>t. case get_prop t (lit ''completed'') of
                                  Inr c \<Rightarrow> \<not> truthy_opt c | Inl e \<Rightarrow> False) xs
               | _ \<Rightarrow> [])"
    by (rule calendar_loadTasks_cases)
qed

lemma example_stored_values:
  "stored_value example_runtime example_storage KEY_tasks = Some (JArr [JNum 1])"
  "stored_value example_runtime example_storage KEY_subjects = Some (JObj [])"
  "stored_value example_runtime example_storage KEY_subjectColors = None"
  "stored_value example_runtime example_storage KEY_history = None"
  by (simp_all add: stored_value_def example_runtime_def example_storage_def example_parse_def
        getItem_def KEY_tasks_def KEY_subjects_def KEY_subjectColors_def KEY_history_def lit_def)

theorem load_returns_value_or_fallback_witness:
  "(\<forall>xs. stored_value example_runtime example_storage KEY_subjectColors \<noteq> Some (JArr xs))
   \<and> stored_value example_runtime example_storage KEY_tasks = Some (JArr [JNum 1])
   \<and> JNull \<notin> set [JNum 1]
   \<and> App_init_tasks example_runtime example_storage =
       Inr [JObj [(lit ''priority'', JStr (lit ''medium''))]]
   \<and> Storage_loadSubjects example_runtime example_storage = JArr []
   \<and> messages (Chat_load example_runtime
        \<lparr>messages = [JNull], localStorage = example_storage, inputValue = [], requests = []\<rparr>) = []
   \<and> Storage_loadSubjectColors example_runtime example_storage = JObj []
   \<and> calendar_loadSubjectColors example_runtime example_storage = JObj []
   \<and> calendar_loadTasks example_runtime example_storage = Inr [JNum 1]"
  using load_returns_value_or_fallback [of example_runtime example_storage
      "\<lparr>messages = [JNull], localStorage = example_storage, inputValue = [], requests = []\<rparr>"]
  by (simp add: example_stored_values has_priority_def with_medium_def)

text \<open>
  Both task loads throw a TypeError when the stored text is the JSON array \<open>[null]\<close>:
  the calendar's filter callback reads \<open>t.completed\<close> of the null element, and the
  board's first callback reads its \<open>t.subject\<close>.
\<close>

theorem task_loads_throw_on_null_element:
  "stored_value example_runtime null_task_storage KEY_tasks = Some (JArr [JNull])
   \<and> calendar_loadTasks example_runtime null_task_storage = Inl TypeError
   \<and> App_init_tasks example_runtime null_task_storage = Inl TypeError"
  by (simp add: calendar_loadTasks_def App_init_tasks_def App_init_load_def Storage_loadTasks_def
        Storage_loadSubjects_def elements_def stored_value_def
        safelyParseJson_def getItem_def null_task_storage_def KEY_tasks_def KEY_subjects_def
        example_runtime_def example_parse_def lit_def)

lemma json_roundtrip_elements:
  assumes "JSON_parse rt (JSON_stringify rt (JArr ts)) = Some (JArr ts)"
  shows "(let tasks = Storage_loadTasks rt (Storage_saveTasks rt (JArr ts) ls)
          in if isArray tasks then elements tasks else []) = ts"
  using assms
  by (simp add: Storage_loadTasks_def Storage_saveTasks_def safelyParseJson_def getItem_def
        setItem_def elements_def)

lemma App_init_tasks_roundtrip:
  assumes "JSON_parse rt (JSON_stringify rt (JArr ts)) = Some (JArr ts)"
    and "list_all has_priority ts"
  shows "App_init_tasks rt (Storage_saveTasks rt (JArr ts) ls) = Inr ts"
proof -
  have "\<exists>mutated. default_priorities ts = Inr (ts, mutated)"
    using default_priorities_unchanged [OF assms(2)] by blast
  with has_priority_not_null [OF assms(2)] json_roundtrip_elements [OF assms(1)]
  show ?thesis
    by (rule App_init_tasks_of_elements)
qed

text \<open>
  Claim C7. Round trip through the persistence layer, for a value that the runtime's JSON
  functions carry unchanged (\<open>JSON.parse(JSON.stringify(v))\<close> is \<open>v\<close>), whatever
  else the storage holds. A task array saved by \<open>Storage.saveTasks\<close> is loaded back
  equal by \<open>Storage.loadTasks\<close>, and by the load of the board (\<open>App.init\<close>) when
  every task has a priority. A subject array and a colour-map object saved by
  \<open>Storage\<close> are loaded back equal. The chat history saved by \<open>Chat.save\<close> is what
  \<open>Chat.load\<close> reads from the storage, whatever the state in memory was before.
\<close>

theorem save_then_load_roundtrip:
  "(JSON_parse rt (JSON_stringify rt (JArr ts)) = Some (JArr ts) \<longrightarrow>
      Storage_loadTasks rt (Storage_saveTasks rt (JArr ts) ls) = JArr ts
      \<and> (list_all has_priority ts \<longrightarrow>
           App_init_tasks rt (Storage_saveTasks rt (JArr ts) ls) = Inr ts))
   \<and> (JSON_parse rt (JSON_stringify rt (JArr ss)) = Some (JArr ss) \<longrightarrow>
      Storage_loadSubjects rt (Storage_saveSubjects rt (JArr ss) ls) = JArr ss)
   \<and> (JSON_parse rt (JSON_stringify rt (JObj kvs)) = Some (JObj kvs) \<longrightarrow>
      Storage_loadSubjectColors rt (Storage_saveSubjectColors rt (JObj kvs) ls) = JObj kvs)
   \<and> (JSON_parse rt (JSON_stringify rt (JArr (messages st))) = Some (JArr (messages st)) \<longrightarrow>
      messages (Chat_load rt (st'\<lparr>localStorage := localStorage (Chat_save rt st)\<rparr>)) = messages st)"
proof (intro conjI impI)
  assume p: "JSON_parse rt (JSON_stringify rt (JArr ts)) = Some (JArr ts)"
  then show "Storage_loadTasks rt (Storage_saveTasks rt (JArr ts) ls) = JArr ts"
    by (simp add: Storage_loadTasks_def Storage_saveTasks_def safelyParseJson_def
          getItem_def setItem_def)
  assume "list_all has_priority ts"
  with p show "App_init_tasks rt (Storage_saveTasks rt (JArr ts) ls) = Inr ts"
    by (rule App_init_tasks_roundtrip)
next
  assume "JSON_parse rt (JSON_stringify rt (JArr ss)) = Some (JArr ss)"
  then show "Storage_loadSubjects rt (Storage_saveSubjects rt (JArr ss) ls) = JArr ss"
    by (simp add: Storage_loadSubjects_def Storage_saveSubjects_def safelyParseJson_def
          getItem_def setItem_def)
next
  assume "JSON_parse rt (JSON_stringify rt (JObj kvs)) = Some (JObj kvs)"
  then show "Storage_loadSubjectColors rt (Storage_saveSubjectColors rt (JObj kvs) ls) = JObj kvs"
    by (simp add: Storage_loadSubjectColors_def Storage_saveSubjectColors_def safelyParseJson_def
          getItem_def setItem_def)
next
  assume "JSON_parse rt (JSON_stringify rt (JArr (messages st))) = Some (JArr (messages st))"
  then show "messages (Chat_load rt (st'\<lparr>localStorage := localStorage (Chat_save rt st)\<rparr>)) = messages st"
    by (simp add: Chat_load_def Chat_save_def safelyParseJson_def getItem_def setItem_def)
qed

lemma example_stringify_values:
  "example_stringify example_tasks = example_tasks_text"
  "example_stringify example_subjects = example_subjects_text"
  "example_stringify example_colors = example_colors_text"
  "example_stringify example_history = example_history_text"
  by (simp_all add: example_stringify_def example_tasks_def example_subjects_def example_colors_def
        example_history_def task_json_def essay_task_def lit_def)

lemma example_parse_texts:
  "example_parse example_tasks_text = Some example_tasks"
  "example_parse example_subjects_text = Some example_subjects"
  "example_parse example_colors_text = Some example_colors"
  "example_parse example_history_text = Some example_history"
  by (simp_all add: example_parse_def example_tasks_text_def example_subjects_text_def
        example_colors_text_def example_history_text_def quoted_def lit_def)

lemma example_roundtrips:
  "JSON_parse example_runtime (JSON_stringify example_runtime example_tasks) = Some example_tasks"
  "JSON_parse example_runtime (JSON_stringify example_runtime example_subjects) = Some example_subjects"
  "JSON_parse example_runtime (JSON_stringify example_runtime example_colors) = Some example_colors"
  "JSON_parse example_runtime (JSON_stringify example_runtime example_history) = Some example_history"
  by (simp_all add: example_runtime_def example_stringify_values example_parse_texts)

theorem save_then_load_roundtrip_witness:
  "JSON_parse example_runtime (JSON_stringify example_runtime (JArr [task_json essay_task]))
       = Some (JArr [task_json essay_task])
   \<and> list_all has_priority [task_json essay_task]
   \<and> Storage_loadTasks example_runtime
        (Storage_saveTasks example_runtime (JArr [task_json essay_task]) example_storage)
       = JArr [task_json essay_task]
   \<and> App_init_tasks example_runtime
        (Storage_saveTasks example_runtime (JArr [task_json essay_task]) example_storage)
       = Inr [task_json essay_task]
   \<and> JSON_parse example_runtime
        (JSON_stringify example_runtime (JArr [JStr (lit ''English''), JStr (lit ''Math'')]))
       = Some (JArr [JStr (lit ''English''), JStr (lit ''Math'')])
   \<and> Storage_loadSubjects example_runtime
        (Storage_saveSubjects example_runtime (JArr [JStr (lit ''English''), JStr (lit ''Math'')])
           example_storage)
       = JArr [JStr (lit ''English''), JStr (lit ''Math'')]
   \<and> JSON_parse example_runtime
        (JSON_stringify example_runtime (JObj [(lit ''English'', JStr (lit ''#667eea''))]))
       = Some (JObj [(lit ''English'', JStr (lit ''#667eea''))])
   \<and> Storage_loadSubjectColors example_runtime
        (Storage_saveSubjectColors example_runtime (JObj [(lit ''English'', JStr (lit ''#667eea''))])
           example_storage)
       = JObj [(lit ''English'', JStr (lit ''#667eea''))]
   \<and> messages (Chat_load example_runtime
        (\<lparr>messages = [], localStorage = Map.empty, inputValue = [], requests = []\<rparr>
           \<lparr>localStorage := localStorage (Chat_save example_runtime
              \<lparr>messages = [JObj [(lit ''role'', JStr (lit ''user'')), (lit ''content'', JStr (lit ''hi'')),
                                  (lit ''ts'', JNum 1704189600000)]],
               localStorage = example_storage, inputValue = [], requests = []\<rparr>)\<rparr>))
       = [JObj [(lit ''role'', JStr (lit ''user'')), (lit ''content'', JStr (lit ''hi'')),
                (lit ''ts'', JNum 1704189600000)]]"
proof -
  let ?msg = "JObj [(lit ''role'', JStr (lit ''user'')), (lit ''content'', JStr (lit ''hi'')),
                    (lit ''ts'', JNum 1704189600000)]"
  let ?st = "\<lparr>messages = [?msg], localStorage = example_storage, inputValue = [], requests = []\<rparr>"
  note r = example_roundtrips [unfolded example_tasks_def example_subjects_def example_colors_def
      example_history_def]
  have p: "list_all has_priority [task_json essay_task]"
    by (simp add: has_priority_def task_json_def essay_task_def lit_def)
  have m: "JSON_parse example_runtime (JSON_stringify example_runtime (JArr (messages ?st)))
      = Some (JArr (messages ?st))"
    using r(4) by simp
  show ?thesis
    using r p m
      save_then_load_roundtrip [of example_runtime "[task_json essay_task]" example_storage
        "[JStr (lit ''English''), JStr (lit ''Math'')]"
        "[(lit ''English'', JStr (lit ''#667eea''))]" ?st
        "\<lparr>messages = [], localStorage = Map.empty, inputValue = [], requests = []\<rparr>"]
    by simp
qed

section \<open>Properties of the subject list\<close>

lemma set_insert_sorted: "set (insert_sorted cmp x ys) = insert x (set ys)"
  by (induction ys) auto

lemma distinct_insert_sorted:
  "distinct (insert_sorted cmp x ys) \<longleftrightarrow> x \<notin> set ys \<and> distinct ys"
  by (induction ys) (auto simp add: set_insert_sorted)

lemma sorted_insert_sorted:
  assumes "consistent_comparator cmp"
    and "sorted_wrt (\<lambda>a b. cmp a b \<le> 0) ys"
  shows "sorted_wrt (\<lambda>a b. cmp a b \<le> 0) (insert_sorted cmp x ys)"
  using assms(2)
proof (induction ys)
  case Nil
  then show ?case by simp
next
  case (Cons y ys)
  have total: "\<And>a b. cmp a b \<le> 0 \<or> cmp b a \<le> 0"
    and trans: "\<And>a b c. cmp a b \<le> 0 \<Longrightarrow> cmp b c \<le> 0 \<Longrightarrow> cmp a c \<le> 0"
    using assms(1) unfolding consistent_comparator_def by blast+
  show ?case
  proof (cases "cmp x y \<le> 0")
    case True
    with Cons.prems show ?thesis
      by (auto intro: trans)
  next
    case False
    then have "cmp y x \<le> 0" using total [of x y] by simp
    with False Cons show ?thesis
      by (auto simp add: set_insert_sorted)
  qed
qed

lemma set_Array_sort: "set (Array_sort cmp xs) = set xs"
  unfolding Array_sort_def by (induction xs) (simp_all add: set_insert_sorted)

lemma distinct_Array_sort: "distinct (Array_sort cmp xs) = distinct xs"
  unfolding Array_sort_def
proof (induction xs)
  case Nil
  then show ?case by simp
next
  case (Cons x xs)
  have "set (foldr (insert_sorted cmp) xs []) = set xs"
    using set_Array_sort [of cmp xs] by (simp add: Array_sort_def)
  with Cons show ?case
    by (simp add: distinct_insert_sorted)
qed

lemma sorted_Array_sort:
  "consistent_comparator cmp \<Longrightarrow> sorted_wrt (\<lambda>a b. cmp a b \<le> 0) (Array_sort cmp xs)"
  unfolding Array_sort_def by (induction xs) (simp_all add: sorted_insert_sorted)

lemma KEY_distinct:
  "KEY_tasks \<noteq> KEY_subjects" "KEY_subjectColors \<noteq> KEY_subjects" "KEY_subjects \<noteq> KEY_tasks"
  "KEY_subjectColors \<noteq> KEY_tasks" "KEY_subjects \<noteq> KEY_subjectColors" "KEY_tasks \<noteq> KEY_subjectColors"
  by (simp_all add: KEY_tasks_def KEY_subjects_def KEY_subjectColors_def lit_def)

lemma save_tasks_fields:
  "tasks (save_tasks rt st) = tasks st"
  "subjects (save_tasks rt st) = subjects st"
  "subjectColors (save_tasks rt st) = subjectColors st"
  "getItem (app_storage (save_tasks rt st)) KEY_subjects = getItem (app_storage st) KEY_subjects"
  "getItem (app_storage (save_tasks rt st)) KEY_tasks =
     Some (JSON_stringify rt (JArr (map task_json (tasks st))))"
  using KEY_distinct
  by (simp_all add: save_tasks_def Storage_saveTasks_def setItem_def getItem_def)

lemma save_subjects_fields:
  "tasks (save_subjects rt st) = tasks st"
  "subjects (save_subjects rt st) = subjects st"
  "subjectColors (save_subjects rt st) = subjectColors st"
  "getItem (app_storage (save_subjects rt st)) KEY_subjects =
     Some (JSON_stringify rt (JArr (map JStr (subjects st))))"
  by (simp_all add: save_subjects_def Storage_saveSubjects_def setItem_def getItem_def)

lemma save_subjectColors_fields:
  "tasks (save_subjectColors rt st) = tasks st"
  "subjects (save_subjectColors rt st) = subjects st"
  "subjectColors (save_subjectColors rt st) = subjectColors st"
  "getItem (app_storage (save_subjectColors rt st)) KEY_subjects = getItem (app_storage st) KEY_subjects"
  using KEY_distinct
  by (simp_all add: save_subjectColors_def Storage_saveSubjectColors_def setItem_def getItem_def)

lemmas save_fields = save_tasks_fields save_subjects_fields save_subjectColors_fields

lemma onSubmit_subjects:
  "subjects (onSubmit rt now created form st) = subjects st"
  "getItem (app_storage (onSubmit rt now created form st)) KEY_subjects =
     getItem (app_storage st) KEY_subjects"
  by (simp_all add: onSubmit_def Let_def save_fields)

lemma completeTask_subjects:
  "subjects (completeTask rt i st) = subjects st"
  "getItem (app_storage (completeTask rt i st)) KEY_subjects = getItem (app_storage st) KEY_subjects"
  by (simp_all add: completeTask_def save_fields split: option.splits)

lemma deleteTask_subjects:
  "subjects (deleteTask rt i st) = subjects st"
  "getItem (app_storage (deleteTask rt i st)) KEY_subjects = getItem (app_storage st) KEY_subjects"
  by (simp_all add: deleteTask_def Let_def save_fields)

lemma onAddSubject_subjects:
  "subjects (onAddSubject rt input st) = subjects st \<and>
     getItem (app_storage (onAddSubject rt input st)) KEY_subjects =
       getItem (app_storage st) KEY_subjects
   \<or> (\<exists>i. input = Some i \<and> trim i \<notin> set (subjects st) \<and>
        subjects (onAddSubject rt input st) =
          Array_sort (localeCompare rt) (subjects st @ [trim i]) \<and>
        subjects_stored rt (onAddSubject rt input st))"
  by (cases input)
     (auto simp add: onAddSubject_def Let_def save_fields subjects_stored_def)

lemma deleteSubject_subjects:
  "deleteSubject rt subj False st = st"
  "subjects (deleteSubject rt subj True st) = filter (\<lambda>s. s \<noteq> subj) (subjects st)"
  "subjects_stored rt (deleteSubject rt subj True st)"
  by (simp_all add: deleteSubject_def Let_def save_fields subjects_stored_def
        split: option.splits)

lemma board_step_subjects:
  assumes cons: "consistent_comparator (localeCompare rt)"
    and srt: "sorted_wrt (\<lambda>a b. localeCompare rt a b \<le> 0) (subjects st)"
    and dst: "distinct (subjects st)"
  shows "sorted_wrt (\<lambda>a b. localeCompare rt a b \<le> 0) (subjects (board_step rt st act))
       \<and> distinct (subjects (board_step rt st act))
       \<and> (subjects_stored rt st \<longrightarrow> subjects_stored rt (board_step rt st act))"
proof (cases act)
  case (Submit now created form)
  with srt dst show ?thesis
    by (simp add: onSubmit_subjects subjects_stored_def)
next
  case (CompleteTask i)
  with srt dst show ?thesis
    by (simp add: completeTask_subjects subjects_stored_def)
next
  case (DeleteTask i)
  with srt dst show ?thesis
    by (simp add: deleteTask_subjects subjects_stored_def)
next
  case (AddSubject input)
  from onAddSubject_subjects [of rt input st] show ?thesis
  proof (elim disjE exE conjE)
    assume "subjects (onAddSubject rt input st) = subjects st"
      and "getItem (app_storage (onAddSubject rt input st)) KEY_subjects =
             getItem (app_storage st) KEY_subjects"
    with srt dst AddSubject show ?thesis
      by (simp add: subjects_stored_def)
  next
    fix i
    assume fresh: "trim i \<notin> set (subjects st)"
      and eq: "subjects (onAddSubject rt input st) =
                 Array_sort (localeCompare rt) (subjects st @ [trim i])"
      and stored: "subjects_stored rt (onAddSubject rt input st)"
    have "distinct (subjects st @ [trim i])"
      using dst fresh by simp
    then have "distinct (Array_sort (localeCompare rt) (subjects st @ [trim i]))"
      by (simp only: distinct_Array_sort)
    with eq stored AddSubject sorted_Array_sort [OF cons] show ?thesis
      by simp
  qed
next
  case (DeleteSubject subj confirmed)
  show ?thesis
  proof (cases confirmed)
    case True
    with DeleteSubject srt dst show ?thesis
      by (simp add: deleteSubject_subjects sorted_wrt_filter)
  next
    case False
    with DeleteSubject srt dst show ?thesis
      by (simp add: deleteSubject_subjects)
  qed
qed

lemma board_run_subjects:
  assumes cons: "consistent_comparator (localeCompare rt)"
  shows "sorted_wrt (\<lambda>a b. localeCompare rt a b \<le> 0) (subjects st) \<Longrightarrow>
         distinct (subjects st) \<Longrightarrow>
         sorted_wrt (\<lambda>a b. localeCompare rt a b \<le> 0) (subjects (board_run rt st acts))
         \<and> distinct (subjects (board_run rt st acts))
         \<and> (subjects_stored rt st \<longrightarrow> subjects_stored rt (board_run rt st acts))"
proof (induction acts arbitrary: st)
  case Nil
  then show ?case by (simp add: board_run_def)
next
  case (Cons a acts)
  have step: "sorted_wrt (\<lambda>a b. localeCompare rt a b \<le> 0) (subjects (board_step rt st a))
       \<and> distinct (subjects (board_step rt st a))
       \<and> (subjects_stored rt st \<longrightarrow> subjects_stored rt (board_step rt st a))"
    using board_step_subjects [OF cons Cons.prems] .
  have run: "board_run rt st (a # acts) = board_run rt (board_step rt st a) acts"
    by (simp add: board_run_def)
  from step Cons.IH [of "board_step rt st a"] show ?case
    unfolding run by blast
qed

lemma onAddSubject_duplicate:
  "trim i \<in> set (subjects st) \<Longrightarrow> onAddSubject rt (Some i) st = st"
  by (simp add: onAddSubject_def Let_def)

text \<open>
  Claim C5. Let the comparison of the runtime be a consistent order. From a subject list
  that is sorted by it and free of duplicates, every sequence of actions on the board
  (adding and deleting subjects, and adding, completing and deleting tasks as well) leaves
  the subject list sorted and free of duplicates; if the stored list was the list in
  memory before, it is so after. A name that is already in the list, compared as a string
  after trimming, is rejected: the state is unchanged.
\<close>

theorem subjects_sorted_distinct:
  assumes "consistent_comparator (localeCompare rt)"
    and "sorted_wrt (\<lambda>a b. localeCompare rt a b \<le> 0) (subjects st)"
    and "distinct (subjects st)"
  shows "sorted_wrt (\<lambda>a b. localeCompare rt a b \<le> 0) (subjects (board_run rt st acts))
       \<and> distinct (subjects (board_run rt st acts))
       \<and> (subjects_stored rt st \<longrightarrow> subjects_stored rt (board_run rt st acts))
       \<and> (\<forall>i. trim i \<in> set (subjects st) \<longrightarrow> onAddSubject rt (Some i) st = st)"
  using board_run_subjects [OF assms] onAddSubject_duplicate by blast

lemma codeunit_compare_total: "codeunit_compare a b \<le> 0 \<or> codeunit_compare b a \<le> 0"
  by (induction a b rule: codeunit_compare.induct) auto

lemma codeunit_compare_trans:
  "codeunit_compare a b \<le> 0 \<Longrightarrow> codeunit_compare b c \<le> 0 \<Longrightarrow> codeunit_compare a c \<le> 0"
proof (induction a arbitrary: b c)
  case Nil
  then show ?case by (cases c) simp_all
next
  case (Cons x xs)
  from Cons.prems obtain y ys where b: "b = y # ys"
    by (cases b) auto
  from Cons.prems b obtain z zs where c: "c = z # zs"
    by (cases c) auto
  from Cons.prems Cons.IH [of ys zs] show ?case
    unfolding b c by (auto split: if_splits)
qed

lemma codeunit_compare_consistent: "consistent_comparator codeunit_compare"
  unfolding consistent_comparator_def
  using codeunit_compare_total codeunit_compare_trans by blast

theorem subjects_sorted_distinct_witness:
  "consistent_comparator (localeCompare example_runtime)
   \<and> sorted_wrt (\<lambda>a b. localeCompare example_runtime a b \<le> 0) (subjects empty_board)
   \<and> distinct (subjects empty_board)
   \<and> subjects (board_run example_runtime empty_board
        [AddSubject (Some (lit ''b'')), AddSubject (Some (lit '' a '')),
         AddSubject (Some (lit ''a'')), AddSubject (Some (lit ''c'')),
         DeleteSubject (lit ''b'') True]) = [lit ''a'', lit ''c'']
   \<and> sorted_wrt (\<lambda>a b. localeCompare example_runtime a b \<le> 0) [lit ''a'', lit ''c'']
   \<and> distinct [lit ''a'', lit ''c'']"
proof -
  have cons: "consistent_comparator (localeCompare example_runtime)"
    using codeunit_compare_consistent by (simp add: example_runtime_def)
  have s0: "sorted_wrt (\<lambda>a b. localeCompare example_runtime a b \<le> 0) (subjects empty_board)"
    and d0: "distinct (subjects empty_board)"
    by (simp_all add: empty_board_def)
  have run: "subjects (board_run example_runtime empty_board
        [AddSubject (Some (lit ''b'')), AddSubject (Some (lit '' a '')),
         AddSubject (Some (lit ''a'')), AddSubject (Some (lit ''c'')),
         DeleteSubject (lit ''b'') True]) = [lit ''a'', lit ''c'']"
    by (simp add: board_run_def onAddSubject_def deleteSubject_def Let_def save_fields
          empty_board_def trim_def isWhiteSpace_def lit_def Array_sort_def example_runtime_def)
  show ?thesis
    using subjects_sorted_distinct [OF cons s0 d0, of
        "[AddSubject (Some (lit ''b'')), AddSubject (Some (lit '' a '')),
          AddSubject (Some (lit ''a'')), AddSubject (Some (lit ''c'')),
          DeleteSubject (lit ''b'') True]"] cons s0 d0
    unfolding run by simp
qed

section \<open>Properties of task identifiers\<close>

lemma unat_digit: "d < 10 \<Longrightarrow> unat (digit d) = 48 + d"
  unfolding digit_def by (simp add: unat_of_nat del: of_nat_add)

lemma digits_value_snoc: "digits_value (xs @ [c]) = 10 * digits_value xs + (unat c - 48)"
  by (simp add: digits_value_def)

lemma digits_value_digits: "digits_value (digits n) = n"
proof (induction n rule: digits.induct)
  case (1 n)
  show ?case
  proof (cases "n < 10")
    case True
    then show ?thesis
      by (simp add: digits.simps [of n] digits_value_def unat_digit)
  next
    case False
    then have "digits_value (digits (n div 10)) = n div 10"
      using "1.IH" by simp
    with False show ?thesis
      by (simp add: digits.simps [of n] digits_value_snoc unat_digit)
  qed
qed

lemma digits_all_digit: "list_all isDigit (digits n)"
proof (induction n rule: digits.induct)
  case (1 n)
  show ?case
  proof (cases "n < 10")
    case True
    then show ?thesis
      by (simp add: digits.simps [of n] isDigit_def unat_digit)
  next
    case False
    with "1.IH" show ?thesis
      by (simp add: digits.simps [of n] isDigit_def unat_digit)
  qed
qed

lemma digits_inj: "digits a = digits b \<Longrightarrow> a = b"
  using digits_value_digits by metis

lemma digits_not_Nil: "digits n \<noteq> []"
  by (subst digits.simps) simp

lemma digits_hd_not_minus: "hd (digits n) \<noteq> 45"
proof -
  have "isDigit (hd (digits n))"
    using digits_all_digit [of n] digits_not_Nil [of n]
    by (cases "digits n") simp_all
  then show ?thesis
    by (auto simp add: isDigit_def)
qed

lemma String_int_inj: "String_int a = String_int b \<Longrightarrow> a = b"
proof -
  assume eq: "String_int a = String_int b"
  have minus: "lit ''-'' = [45]"
    by (simp add: lit_def)
  consider "a < 0" "b < 0" | "a < 0" "\<not> b < 0" | "\<not> a < 0" "b < 0" | "\<not> a < 0" "\<not> b < 0"
    by blast
  then show "a = b"
  proof cases
    case 1
    with eq have "digits (nat (- a)) = digits (nat (- b))"
      by (simp add: String_int_def)
    then have "nat (- a) = nat (- b)" by (rule digits_inj)
    with 1 show ?thesis by simp
  next
    case 2
    with eq have "45 # digits (nat (- a)) = digits (nat b)"
      by (simp add: String_int_def minus)
    then have "hd (digits (nat b)) = 45"
      by (metis list.sel(1))
    with digits_hd_not_minus show ?thesis by blast
  next
    case 3
    with eq have "digits (nat a) = 45 # digits (nat (- b))"
      by (simp add: String_int_def minus)
    then have "hd (digits (nat a)) = 45"
      by (metis list.sel(1))
    with digits_hd_not_minus show ?thesis by blast
  next
    case 4
    with eq have "digits (nat a) = digits (nat b)"
      by (simp add: String_int_def)
    then have "nat a = nat b" by (rule digits_inj)
    with 4 show ?thesis by simp
  qed
qed

lemma onSubmit_tasks:
  "tasks (onSubmit rt now created form st) = tasks st
   \<or> (\<exists>t. tasks (onSubmit rt now created form st) = tasks st @ [t] \<and> task_id t = String_int now)"
  by (simp add: onSubmit_def Let_def save_fields)

lemma mark_first_ids: "mark_first i ts = Some ts' \<Longrightarrow> map task_id ts' = map task_id ts"
  by (induction ts arbitrary: ts') (auto split: if_splits)

lemma completeTask_ids: "map task_id (tasks (completeTask rt i st)) = map task_id (tasks st)"
  by (auto simp add: completeTask_def save_fields mark_first_ids split: option.splits)

lemma deleteTask_tasks: "tasks (deleteTask rt i st) = filter (\<lambda>t. task_id t \<noteq> i) (tasks st)"
  by (simp add: deleteTask_def Let_def save_fields)

lemma onAddSubject_tasks: "tasks (onAddSubject rt input st) = tasks st"
  by (cases input) (simp_all add: onAddSubject_def Let_def save_fields)

lemma deleteSubject_tasks:
  "tasks (deleteSubject rt subj confirmed st) =
     (if confirmed then filter (\<lambda>t. subject t \<noteq> subj) (tasks st) else tasks st)"
  by (simp add: deleteSubject_def Let_def save_fields split: option.splits)

lemma board_step_ids:
  "set (map task_id (tasks (board_step rt st a))) \<subseteq>
     set (map task_id (tasks st)) \<union> String_int ` set (submit_times [a])"
proof (cases a)
  case (Submit now created form)
  with onSubmit_tasks [of rt now created form st] show ?thesis
    by auto
next
  case (CompleteTask i)
  have "set (map task_id (tasks (completeTask rt i st))) = set (map task_id (tasks st))"
    by (simp only: completeTask_ids)
  with CompleteTask show ?thesis by simp
next
  case (DeleteTask i)
  then show ?thesis by (auto simp add: deleteTask_tasks)
next
  case (AddSubject input)
  then show ?thesis by (simp add: onAddSubject_tasks)
next
  case (DeleteSubject subj confirmed)
  then show ?thesis by (auto simp add: deleteSubject_tasks)
qed

lemma board_step_distinct:
  assumes "distinct (map task_id (tasks st))"
    and "\<forall>now \<in> set (submit_times [a]). String_int now \<notin> set (map task_id (tasks st))"
  shows "distinct (map task_id (tasks (board_step rt st a)))"
proof (cases a)
  case (Submit now created form)
  with assms onSubmit_tasks [of rt now created form st] show ?thesis
    by auto
next
  case (CompleteTask i)
  with assms(1) show ?thesis by (simp only: board_step.simps completeTask_ids)
next
  case (DeleteTask i)
  with assms(1) show ?thesis by (simp add: deleteTask_tasks distinct_map_filter)
next
  case (AddSubject input)
  with assms(1) show ?thesis by (simp add: onAddSubject_tasks)
next
  case (DeleteSubject subj confirmed)
  with assms(1) show ?thesis by (simp add: deleteSubject_tasks distinct_map_filter)
qed

lemma submit_times_Cons:
  "submit_times (a # acts) = submit_times [a] @ submit_times acts"
  by (cases a) simp_all

lemma board_run_distinct:
  "distinct (map task_id (tasks st)) \<Longrightarrow>
   distinct (submit_times acts) \<Longrightarrow>
   \<forall>now \<in> set (submit_times acts). String_int now \<notin> set (map task_id (tasks st)) \<Longrightarrow>
   distinct (map task_id (tasks (board_run rt st acts)))"
proof (induction acts arbitrary: st)
  case Nil
  then show ?case by (simp add: board_run_def)
next
  case (Cons a acts)
  let ?st = "board_step rt st a"
  have split: "submit_times (a # acts) = submit_times [a] @ submit_times acts"
    by (rule submit_times_Cons)
  have d1: "distinct (map task_id (tasks ?st))"
    using Cons.prems(1,3) by (intro board_step_distinct) (auto simp add: split)
  have d2: "distinct (submit_times acts)"
    using Cons.prems(2) by (simp add: split)
  have fresh: "\<forall>now \<in> set (submit_times acts). String_int now \<notin> set (map task_id (tasks ?st))"
  proof
    fix now
    assume now: "now \<in> set (submit_times acts)"
    show "String_int now \<notin> set (map task_id (tasks ?st))"
    proof
      assume "String_int now \<in> set (map task_id (tasks ?st))"
      with board_step_ids [of rt st a]
      have "String_int now \<in> set (map task_id (tasks st))
          \<or> String_int now \<in> String_int ` set (submit_times [a])"
        by blast
      then show False
      proof
        assume "String_int now \<in> set (map task_id (tasks st))"
        with Cons.prems(3) now show False by (simp add: split)
      next
        assume "String_int now \<in> String_int ` set (submit_times [a])"
        then obtain t where t: "t \<in> set (submit_times [a])" "String_int now = String_int t"
          by blast
        then have "now = t" using String_int_inj by blast
        with t now Cons.prems(2) show False by (auto simp add: split)
      qed
    qed
  qed
  have "board_run rt st (a # acts) = board_run rt ?st acts"
    by (simp add: board_run_def)
  with Cons.IH [OF d1 d2 fresh] show ?case by simp
qed

text \<open>
  Claim C2, as the code has it. The id of a task is the decimal text of the reading of
  \<open>Date.now()\<close> when it is added. Different readings give different ids. From a task
  list with pairwise distinct ids, a sequence of board actions whose Add-task readings
  differ from one another, and whose texts are not ids of the list already, leaves a task
  list with pairwise distinct ids.
\<close>

theorem task_ids_distinct_for_distinct_readings:
  assumes "distinct (map task_id (tasks st))"
    and "distinct (submit_times acts)"
    and "\<forall>now \<in> set (submit_times acts). String_int now \<notin> set (map task_id (tasks st))"
  shows "distinct (map task_id (tasks (board_run rt st acts)))
       \<and> (\<forall>now created form.
            tasks (onSubmit rt now created form st) = tasks st
            \<or> (\<exists>t. tasks (onSubmit rt now created form st) = tasks st @ [t]
                   \<and> task_id t = String_int now))
       \<and> (\<forall>a b. String_int a = String_int b \<longrightarrow> a = b)"
  using board_run_distinct [OF assms] onSubmit_tasks String_int_inj by blast

lemma two_submits:
  "map task_id (tasks (board_run example_runtime empty_board
      [Submit a created essay_form, Submit b created essay_form])) = [String_int a, String_int b]"
  by (simp add: board_run_def onSubmit_def Let_def save_fields essay_form_def empty_board_def
        trim_def isWhiteSpace_def lit_def)

theorem task_ids_distinct_for_distinct_readings_witness:
  "distinct (map task_id (tasks empty_board))
   \<and> distinct (submit_times
        [Submit 1700000000000 (lit ''2023-11-14T22:13:20.000Z'') essay_form,
         Submit 1700000000001 (lit ''2023-11-14T22:13:20.001Z'') essay_form])
   \<and> set (map task_id (tasks empty_board)) = {}
   \<and> distinct (map task_id (tasks (board_run example_runtime empty_board
        [Submit 1700000000000 (lit ''2023-11-14T22:13:20.000Z'') essay_form,
         Submit 1700000000001 (lit ''2023-11-14T22:13:20.001Z'') essay_form])))"
proof -
  let ?acts = "[Submit 1700000000000 (lit ''2023-11-14T22:13:20.000Z'') essay_form,
                Submit 1700000000001 (lit ''2023-11-14T22:13:20.001Z'') essay_form]"
  have h1: "distinct (map task_id (tasks empty_board))"
    and h0: "set (map task_id (tasks empty_board)) = {}"
    by (simp_all add: empty_board_def)
  have h2: "distinct (submit_times ?acts)"
    by simp
  have h3: "\<forall>now \<in> set (submit_times ?acts). String_int now \<notin> set (map task_id (tasks empty_board))"
    by (simp add: empty_board_def)
  show ?thesis
    using task_ids_distinct_for_distinct_readings [OF h1 h2 h3, of example_runtime] h1 h2 h0
    by blast
qed

text \<open>
  Two Add-task actions that read the same millisecond from the clock create two tasks
  with the same id.
\<close>

theorem same_reading_same_id:
  "map task_id (tasks (board_run example_runtime empty_board
      [Submit 1700000000000 (lit ''2023-11-14T22:13:20.000Z'') essay_form,
       Submit 1700000000000 (lit ''2023-11-14T22:13:20.000Z'') essay_form]))
     = [lit ''1700000000000'', lit ''1700000000000'']
   \<and> \<not> distinct (map task_id (tasks (board_run example_runtime empty_board
      [Submit 1700000000000 (lit ''2023-11-14T22:13:20.000Z'') essay_form,
       Submit 1700000000000 (lit ''2023-11-14T22:13:20.000Z'') essay_form])))"
proof -
  have "String_int 1700000000000 = lit ''1700000000000''"
    by (simp add: String_int_def digits.simps digit_def lit_def)
  then show ?thesis
    by (simp add: two_submits)
qed

section \<open>Properties of the subject colours\<close>

lemma isHexDigit_hexdigit: "d < 16 \<Longrightarrow> isHexDigit (hexdigit d)"
  unfolding hexdigit_def isHexDigit_def by (simp add: unat_of_nat del: of_nat_add)

lemma hexdigits_two:
  assumes "16 \<le> n" and "n < 256"
  shows "hexdigits n = [hexdigit (n div 16), hexdigit (n mod 16)]"
proof -
  from assms have "n div 16 < 16" by simp
  then have "hexdigits (n div 16) = [hexdigit (n div 16)]"
    by (simp add: hexdigits.simps [of "n div 16"])
  with assms show ?thesis
    by (simp add: hexdigits.simps [of n])
qed

lemma toHex_two_digits:
  assumes "0 \<le> v" and "v \<le> 13 / 25"
  shows "\<exists>a b. toHex (17 / 50) v = [a, b] \<and> isHexDigit a \<and> isHexDigit b"
proof -
  let ?n = "Math_round ((v + 17 / 50) * 255)"
  have lo: "87 \<le> ?n"
    unfolding Math_round_def using assms(1) by (simp add: le_floor_iff)
  have hi: "?n < 220"
    unfolding Math_round_def using assms(2) by (simp add: floor_less_iff)
  from lo hi have n: "16 \<le> nat ?n" "nat ?n < 256" by simp_all
  have "toString16 ?n = hexdigits (nat ?n)"
    using lo by (simp add: toString16_def)
  also have "\<dots> = [hexdigit (nat ?n div 16), hexdigit (nat ?n mod 16)]"
    using n by (rule hexdigits_two)
  finally have "toHex (17 / 50) v = [hexdigit (nat ?n div 16), hexdigit (nat ?n mod 16)]"
    by (simp add: toHex_def padStart2_def)
  moreover have "nat ?n div 16 < 16" using n by simp
  moreover have "nat ?n mod 16 < 16" by simp
  ultimately show ?thesis
    using isHexDigit_hexdigit by blast
qed

lemma js_rem_2_range:
  assumes "0 \<le> a"
  shows "0 \<le> js_rem a 2 \<and> js_rem a 2 < 2"
proof -
  from assms have eq: "js_rem a 2 = a - 2 * of_int \<lfloor>a / 2\<rfloor>"
    by (simp add: js_rem_def)
  show ?thesis unfolding eq by linarith
qed

lemma channels_hex_color:
  assumes "m = 17 / 50" "0 \<le> r" "r \<le> 13 / 25" "0 \<le> g" "g \<le> 13 / 25" "0 \<le> b" "b \<le> 13 / 25"
  shows "hex_color (lit ''#'' @ toHex m r @ toHex m g @ toHex m b)"
proof -
  from assms obtain r1 r2 g1 g2 b1 b2 where
      "toHex m r = [r1, r2]" "isHexDigit r1" "isHexDigit r2"
      "toHex m g = [g1, g2]" "isHexDigit g1" "isHexDigit g2"
      "toHex m b = [b1, b2]" "isHexDigit b1" "isHexDigit b2"
    using toHex_two_digits by metis
  then show ?thesis
    by (simp add: hex_color_def lit_def)
qed

lemma hslToHex_hex_color:
  assumes "0 \<le> H"
  shows "hex_color (hslToHex H 65 60)"
proof -
  from assms have "0 \<le> H / 60" by simp
  then have "0 \<le> js_rem (H / 60) 2 \<and> js_rem (H / 60) 2 < 2"
    by (rule js_rem_2_range)
  then have a: "\<bar>js_rem (H / 60) 2 - 1\<bar> \<le> 1"
    by (simp add: abs_le_iff)
  show ?thesis
    unfolding hslToHex_def Let_def
    using a by (auto intro!: channels_hex_color)
qed

text \<open>
  Claim C6. \<open>generateColorFor\<close> is a function of the seed alone (the source reads
  nothing else, so equal seeds give equal colours), and for every seed, the empty string
  included, its result is \<open>#\<close> followed by six hexadecimal digits. The empty seed
  gives \<open>#db5757\<close>.
\<close>

theorem generateColorFor_well_formed:
  "hex_color (generateColorFor seed) \<and> generateColorFor [] = lit ''#db5757''"
proof
  have "0 \<le> (of_int (\<bar>sint (seed_hash seed)\<bar> mod 360) :: rat)"
    by simp
  then show "hex_color (generateColorFor seed)"
    unfolding generateColorFor_def Let_def by (rule hslToHex_hex_color)
next
  have "hexdigits 219 = lit ''db''" "hexdigits 87 = lit ''57''"
    by (simp_all add: hexdigits.simps hexdigit_def lit_def)
  moreover have "\<lfloor>(1099 :: rat) / 5\<rfloor> = 219" "\<lfloor>(436 :: rat) / 5\<rfloor> = 87"
    by (simp_all add: floor_eq_iff)
  ultimately show "generateColorFor [] = lit ''#db5757''"
    by (simp add: generateColorFor_def seed_hash_def hslToHex_def Let_def js_rem_def toHex_def
          Math_round_def toString16_def padStart2_def lit_def)
qed

section \<open>Properties of the ordering by priority\<close>

lemma get_or_empty_group_step:
  assumes "k \<noteq> []"
  shows "get_or_empty (group_step m t) k =
     get_or_empty m k @ (if dueDate t = Some k then [t] else [])"
  using assms
  by (auto simp add: group_step_def get_or_empty_def update_conv' map_of_append
        split: option.splits)

lemma get_or_empty_foldl:
  assumes "k \<noteq> []"
  shows "get_or_empty (foldl group_step m ts) k =
     get_or_empty m k @ filter (\<lambda>t. dueDate t = Some k) ts"
proof (induction ts arbitrary: m)
  case Nil
  then show ?case by simp
next
  case (Cons t ts)
  then show ?case
    by (simp add: get_or_empty_group_step [OF assms])
qed

lemma get_or_empty_groupTasksByDate:
  "get_or_empty (groupTasksByDate ts) k =
     (if k = [] then [] else filter (\<lambda>t. dueDate t = Some k) ts)"
proof (cases "k = []")
  case True
  have "\<And>m. map_of m [] = None \<Longrightarrow> map_of (foldl group_step m ts) [] = None"
  proof (induction ts)
    case Nil
    then show ?case by simp
  next
    case (Cons t ts)
    have "map_of (group_step m t) [] = None"
      using Cons.prems
      by (auto simp add: group_step_def update_conv' map_of_append split: option.splits)
    then show ?case using Cons.IH by simp
  qed
  then show ?thesis
    using True by (simp add: groupTasksByDate_def get_or_empty_def)
next
  case False
  then show ?thesis
    using get_or_empty_foldl [OF False, of "[]" ts]
    by (simp add: groupTasksByDate_def get_or_empty_def)
qed

lemma compare_priority_rank:
  "known_priority a \<Longrightarrow> known_priority b \<Longrightarrow> compare_priority a b \<le> 0 \<longleftrightarrow> rank a \<le> rank b"
  by (auto simp add: known_priority_def compare_priority_def rank_def)

lemma insert_sorted_insort_key:
  "known_priority x \<Longrightarrow> \<forall>y \<in> set ys. known_priority y \<Longrightarrow>
   insert_sorted compare_priority x ys = insort_key rank x ys"
  by (induction ys) (simp_all add: compare_priority_rank)

lemma Array_sort_sort_key:
  "\<forall>t \<in> set xs. known_priority t \<Longrightarrow> Array_sort compare_priority xs = sort_key rank xs"
proof (induction xs)
  case Nil
  then show ?case by (simp add: Array_sort_def)
next
  case (Cons x xs)
  then have IH: "foldr (insert_sorted compare_priority) xs [] = sort_key rank xs"
    by (simp add: Array_sort_def)
  have "\<forall>y \<in> set (sort_key rank xs). known_priority y"
    using Cons.prems by simp
  with Cons.prems have "insert_sorted compare_priority x (sort_key rank xs) = insort_key rank x (sort_key rank xs)"
    by (intro insert_sorted_insort_key) simp_all
  with IH show ?case
    by (simp add: Array_sort_def sort_key_def)
qed

lemma formatLocalISO_not_Nil: "formatLocalISO d \<noteq> []"
  by (cases d) (simp_all add: lit_def Let_def)

lemma render_day_chips:
  "cell_chips (render_day todayStr year monthIndex (groupTasksByDate ts) day) =
     Array_sort compare_priority
       (filter (\<lambda>t. dueDate t = Some (cell_iso (render_day todayStr year monthIndex (groupTasksByDate ts) day))) ts)"
  by (simp add: render_day_def Let_def get_or_empty_groupTasksByDate formatLocalISO_not_Nil)

lemma render_day_modal:
  "cell_modal (render_day todayStr year monthIndex m day) =
     Array_sort compare_priority (cell_chips (render_day todayStr year monthIndex m day))"
  by (simp add: render_day_def Let_def)

lemma grid_days_cell:
  "c \<in> set (grid_days (renderMonth todayStr year monthIndex ts)) \<Longrightarrow>
   \<exists>day. c = render_day todayStr year monthIndex (groupTasksByDate ts) day"
  by (auto simp add: renderMonth_def Let_def)

lemma cell_chips_sort_key:
  assumes "\<forall>t \<in> set ts. known_priority t"
    and "c \<in> set (grid_days (renderMonth todayStr year monthIndex ts))"
  shows "cell_chips c = sort_key rank (filter (\<lambda>t. dueDate t = Some (cell_iso c)) ts)"
    and "cell_modal c = cell_chips c"
proof -
  obtain day where c: "c = render_day todayStr year monthIndex (groupTasksByDate ts) day"
    using grid_days_cell [OF assms(2)] by blast
  let ?bucket = "filter (\<lambda>t. dueDate t = Some (cell_iso c)) ts"
  have known: "\<forall>t \<in> set ?bucket. known_priority t"
    using assms(1) by simp
  have "cell_chips c = Array_sort compare_priority ?bucket"
    unfolding c by (rule render_day_chips)
  then show chips: "cell_chips c = sort_key rank ?bucket"
    using Array_sort_sort_key [OF known] by simp
  have "\<forall>t \<in> set (cell_chips c). known_priority t"
    unfolding chips using known by simp
  then have "Array_sort compare_priority (cell_chips c) = sort_key rank (cell_chips c)"
    by (rule Array_sort_sort_key)
  also have "\<dots> = cell_chips c"
    unfolding chips by (simp add: sort_key_id_if_sorted)
  finally show "cell_modal c = cell_chips c"
    unfolding c using render_day_modal c by simp
qed

text \<open>
  Claim C4, as the code has it. On the calendar, when every task has a priority the
  comparator knows (high, medium, low, or none, which ranks as medium), the chips of a day
  cell are in the order high, medium, low; tasks of equal rank keep the order of the task
  list; and the day modal lists them in the same order. On the task board the tasks of a
  subject are shown in the order of the task list, with no sort by priority.
\<close>

theorem calendar_sorted_by_priority_board_in_storage_order:
  assumes "\<forall>t \<in> set ts. known_priority t"
    and "c \<in> set (grid_days (renderMonth todayStr year monthIndex ts))"
  shows "sorted (map rank (cell_chips c))
       \<and> (\<forall>r. filter (\<lambda>t. rank t = r) (cell_chips c) =
                filter (\<lambda>t. rank t = r) (filter (\<lambda>t. dueDate t = Some (cell_iso c)) ts))
       \<and> cell_modal c = cell_chips c
       \<and> map card_tasks (renderSubjects subjs stored colors) =
           map (\<lambda>s. filter (\<lambda>t. subject t = s \<and> \<not> completed t) stored) subjs"
proof -
  note chips = cell_chips_sort_key [OF assms]
  have "sorted (map rank (cell_chips c))"
    unfolding chips(1) by simp
  moreover have "\<forall>r. filter (\<lambda>t. rank t = r) (cell_chips c) =
                filter (\<lambda>t. rank t = r) (filter (\<lambda>t. dueDate t = Some (cell_iso c)) ts)"
    unfolding chips(1) by (simp add: sort_key_stable)
  moreover have "map card_tasks (renderSubjects subjs stored colors) =
           map (\<lambda>s. filter (\<lambda>t. subject t = s \<and> \<not> completed t) stored) subjs"
    by (simp add: renderSubjects_def comp_def)
  ultimately show ?thesis
    using chips(2) by blast
qed

text \<open>
  On the board, a low-priority task stored before a high-priority task of the same
  subject and day is shown before it.
\<close>

theorem board_shows_low_before_high:
  "map card_tasks (renderSubjects [lit ''Math''] [low_task, high_task] []) = [[low_task, high_task]]
   \<and> priority low_task = Some (lit ''low'') \<and> priority high_task = Some (lit ''high'')
   \<and> dueDate low_task = dueDate high_task"
  by (simp add: renderSubjects_def low_task_def high_task_def)


lemma january_2024:
  "getDaysInMonth 2024 0 = Some 31"
  "formatLocalISO (new_Date (Some 2024) (Some 0) (Some 1)) = lit ''2024-01-01''"
  by code_simp+

lemma january_first_cell:
  "render_day todayStr 2024 0 (groupTasksByDate [low_task, high_task]) 1
     \<in> set (grid_days (renderMonth todayStr 2024 0 [low_task, high_task]))"
  by (simp add: renderMonth_def Let_def january_2024)

lemma january_first_chips:
  "cell_chips (render_day todayStr 2024 0 (groupTasksByDate [low_task, high_task]) 1)
     = [high_task, low_task]"
  by (simp add: render_day_chips)
     (simp add: render_day_def Let_def january_2024 low_task_def high_task_def Array_sort_def
        compare_priority_def priority_or_medium_def pri_def lit_def)

theorem calendar_sorted_by_priority_board_in_storage_order_witness:
  "list_all known_priority [low_task, high_task]
   \<and> render_day (lit ''2024-01-02'') 2024 0 (groupTasksByDate [low_task, high_task]) 1
       \<in> set (grid_days (renderMonth (lit ''2024-01-02'') 2024 0 [low_task, high_task]))
   \<and> cell_chips (render_day (lit ''2024-01-02'') 2024 0 (groupTasksByDate [low_task, high_task]) 1)
       = [high_task, low_task]
   \<and> cell_modal (render_day (lit ''2024-01-02'') 2024 0 (groupTasksByDate [low_task, high_task]) 1)
       = [high_task, low_task]
   \<and> sorted (map rank [high_task, low_task])"
proof -
  have known: "\<forall>t \<in> set [low_task, high_task]. known_priority t"
    by (simp add: known_priority_def priority_or_medium_def pri_def low_task_def high_task_def lit_def)
  show ?thesis
    using calendar_sorted_by_priority_board_in_storage_order
      [OF known january_first_cell, of "lit ''2024-01-02''"] known january_first_cell
    by (simp add: january_first_chips)
qed

section \<open>Properties of dates\<close>

lemma div_step:
  fixes a k :: int
  assumes "0 < k"
  shows "(a + 1) div k = a div k + (if (a + 1) mod k = 0 then 1 else 0)"
proof -
  define q r where "q = a div k" and "r = a mod k"
  have a: "a = k * q + r" and r: "0 \<le> r" "r < k"
    using assms by (simp_all add: q_def r_def)
  show ?thesis
  proof (cases "r + 1 = k")
    case True
    then have eq: "a + 1 = k * (q + 1) + 0"
      using a by (simp add: algebra_simps)
    have "(a + 1) div k = q + 1"
      using eq assms by (intro int_div_pos_eq [where r = 0]) simp_all
    moreover have "(a + 1) mod k = 0"
      using eq assms by (intro int_mod_pos_eq [where q = "q + 1"]) simp_all
    ultimately show ?thesis by (simp add: q_def)
  next
    case False
    then have r1: "0 \<le> r + 1" "r + 1 < k" using r by simp_all
    have eq: "a + 1 = k * q + (r + 1)"
      using a by simp
    have "(a + 1) div k = q"
      using eq r1 by (intro int_div_pos_eq [where r = "r + 1"]) simp_all
    moreover have "(a + 1) mod k = r + 1"
      using eq r1 by (intro int_mod_pos_eq [where q = q]) simp_all
    ultimately show ?thesis using r by (simp add: q_def)
  qed
qed

lemma mod_shift:
  fixes y c k :: int
  assumes "k dvd c"
  shows "(y - c) mod k = 0 \<longleftrightarrow> y mod k = 0"
  using assms by (simp add: mod_eq_0_iff_dvd dvd_diff_left_iff)

lemma DayFromYear_next: "DayFromYear (y + 1) = DayFromYear y + DaysInYear y"
proof -
  have s4: "(y + 1 - 1969) div 4 = (y - 1969) div 4 + (if y mod 4 = 0 then 1 else 0)"
    using div_step [of 4 "y - 1969"] mod_shift [of 4 1968 y] by (simp add: algebra_simps)
  have s100: "(y + 1 - 1901) div 100 = (y - 1901) div 100 + (if y mod 100 = 0 then 1 else 0)"
    using div_step [of 100 "y - 1901"] mod_shift [of 100 1900 y] by (simp add: algebra_simps)
  have s400: "(y + 1 - 1601) div 400 = (y - 1601) div 400 + (if y mod 400 = 0 then 1 else 0)"
    using div_step [of 400 "y - 1601"] mod_shift [of 400 1600 y] by (simp add: algebra_simps)
  have d4: "y mod 100 = 0 \<Longrightarrow> y mod 4 = 0"
  proof -
    assume "y mod 100 = 0"
    then have "100 dvd y" by (simp add: mod_eq_0_iff_dvd)
    moreover have "(4 :: int) dvd 100" by simp
    ultimately have "4 dvd y" by (metis dvd_trans)
    then show ?thesis by (simp add: mod_eq_0_iff_dvd)
  qed
  have d100: "y mod 400 = 0 \<Longrightarrow> y mod 100 = 0"
  proof -
    assume "y mod 400 = 0"
    then have "400 dvd y" by (simp add: mod_eq_0_iff_dvd)
    moreover have "(100 :: int) dvd 400" by simp
    ultimately have "100 dvd y" by (metis dvd_trans)
    then show ?thesis by (simp add: mod_eq_0_iff_dvd)
  qed
  show ?thesis
    unfolding DayFromYear_def DaysInYear_def s4 s100 s400
    using d4 d100 by auto
qed

lemma DaysInYear_cases: "DaysInYear y = 365 \<or> DaysInYear y = 366"
  by (simp add: DaysInYear_def)

lemma DayFromYear_less_next: "DayFromYear y < DayFromYear (y + 1)"
  using DaysInYear_cases [of y] by (auto simp add: DayFromYear_next)

lemma DayFromYear_mono: "y \<le> z \<Longrightarrow> DayFromYear y \<le> DayFromYear z"
proof (induction z rule: int_ge_induct)
  case base
  then show ?case by simp
next
  case (step i)
  with DayFromYear_less_next [of i] show ?case by simp
qed

lemma DayFromYear_strict_mono: "y < z \<Longrightarrow> DayFromYear y < DayFromYear z"
  using DayFromYear_mono [of "y + 1" z] DayFromYear_less_next [of y] by simp

lemma year_search_spec:
  "DayFromYear y \<le> n \<Longrightarrow>
   DayFromYear (year_search y n) \<le> n \<and> n < DayFromYear (year_search y n + 1)"
proof (induction y n rule: year_search.induct)
  case (1 y n)
  show ?case
  proof (cases "DayFromYear (y + 1) \<le> n")
    case True
    with "1.IH" show ?thesis
      by (simp add: year_search.simps [of y n])
  next
    case False
    with "1.prems" show ?thesis
      by (simp add: year_search.simps [of y n])
  qed
qed

lemma DayFromYear_1970: "DayFromYear 1970 = 0"
  by (simp add: DayFromYear_def)

lemma DayFromYear_upper: "0 \<le> k \<Longrightarrow> DayFromYear (1970 + k) \<le> 366 * k"
proof (induction k rule: int_ge_induct)
  case base
  then show ?case by (simp add: DayFromYear_1970)
next
  case (step i)
  have "DayFromYear (1970 + (i + 1)) = DayFromYear (1970 + i) + DaysInYear (1970 + i)"
    using DayFromYear_next [of "1970 + i"] by (simp add: add.assoc)
  with step DaysInYear_cases [of "1970 + i"] show ?case by auto
qed

lemma DayFromYear_lower: "k \<le> 0 \<Longrightarrow> DayFromYear (1970 + k) \<le> 365 * k"
proof (induction k rule: int_le_induct)
  case base
  then show ?case by (simp add: DayFromYear_1970)
next
  case (step i)
  have "DayFromYear (1970 + i) = DayFromYear (1970 + (i - 1)) + DaysInYear (1970 + (i - 1))"
    using DayFromYear_next [of "1970 + (i - 1)"] by simp
  with step DaysInYear_cases [of "1970 + (i - 1)"] show ?case by auto
qed

lemma year_start_le:
  "DayFromYear (1970 + (if 0 \<le> n then n div 366 else n div 365)) \<le> n"
proof (cases "0 \<le> n")
  case True
  define k where "k = n div 366"
  have k: "0 \<le> k" "366 * k \<le> n"
    using True by (simp_all add: k_def)
  with DayFromYear_upper [of k] True show ?thesis by (simp add: k_def)
next
  case False
  define k where "k = n div 365"
  have k: "k \<le> 0" "365 * k \<le> n"
    using False by (simp_all add: k_def)
  with DayFromYear_lower [of k] False show ?thesis by (simp add: k_def)
qed

lemma YearFromDay_spec:
  "DayFromYear (YearFromDay n) \<le> n \<and> n < DayFromYear (YearFromDay n + 1)"
  unfolding YearFromDay_def using year_start_le by (rule year_search_spec)

lemma YearFromDay_unique:
  assumes "DayFromYear y \<le> n" and "n < DayFromYear (y + 1)"
  shows "YearFromDay n = y"
proof (rule ccontr)
  assume ne: "YearFromDay n \<noteq> y"
  note spec = YearFromDay_spec [of n]
  show False
  proof (cases "YearFromDay n < y")
    case True
    then have "DayFromYear (YearFromDay n + 1) \<le> DayFromYear y"
      by (intro DayFromYear_mono) simp
    with spec assms show False by simp
  next
    case False
    with ne have "y + 1 \<le> YearFromDay n" by simp
    then have "DayFromYear (y + 1) \<le> DayFromYear (YearFromDay n)"
      by (rule DayFromYear_mono)
    with spec assms show False by simp
  qed
qed

lemma DayWithinYear_range:
  "0 \<le> DayWithinYear n \<and> DayWithinYear n < 365 + leap_day (YearFromDay n)"
  using YearFromDay_spec [of n] DaysInYear_cases [of "YearFromDay n"]
  by (auto simp add: DayWithinYear_def DayFromYear_next leap_day_def)

lemma leap_day_cases: "leap_day y = 0 \<or> leap_day y = 1"
  by (simp add: leap_day_def)

lemma month_cascade:
  fixes L m w :: int
  assumes L: "L = 0 \<or> L = 1"
    and m: "0 \<le> m" "m \<le> 11"
    and w: "days_before_month L m \<le> w" "w < days_before_month L (m + 1)"
  shows "(if w < 31 then 0 else if w < 59 + L then 1 else if w < 90 + L then 2
         else if w < 120 + L then 3 else if w < 151 + L then 4 else if w < 181 + L then 5
         else if w < 212 + L then 6 else if w < 243 + L then 7 else if w < 273 + L then 8
         else if w < 304 + L then 9 else if w < 334 + L then 10 else 11) = m"
proof -
  from m have mc: "m = 0 \<or> m = 1 \<or> m = 2 \<or> m = 3 \<or> m = 4 \<or> m = 5 \<or> m = 6 \<or> m = 7
      \<or> m = 8 \<or> m = 9 \<or> m = 10 \<or> m = 11" by arith
  from L have Lb: "0 \<le> L" "L \<le> 1" by auto
  from mc show ?thesis
  proof (elim disjE)
    assume "m = 0" with w Lb show ?thesis by (simp add: days_before_month_def)
  next
    assume "m = 1" with w Lb show ?thesis by (simp add: days_before_month_def)
  next
    assume "m = 2" with w Lb show ?thesis by (simp add: days_before_month_def)
  next
    assume "m = 3" with w Lb show ?thesis by (simp add: days_before_month_def)
  next
    assume "m = 4" with w Lb show ?thesis by (simp add: days_before_month_def)
  next
    assume "m = 5" with w Lb show ?thesis by (simp add: days_before_month_def)
  next
    assume "m = 6" with w Lb show ?thesis by (simp add: days_before_month_def)
  next
    assume "m = 7" with w Lb show ?thesis by (simp add: days_before_month_def)
  next
    assume "m = 8" with w Lb show ?thesis by (simp add: days_before_month_def)
  next
    assume "m = 9" with w Lb show ?thesis by (simp add: days_before_month_def)
  next
    assume "m = 10" with w Lb show ?thesis by (simp add: days_before_month_def)
  next
    assume "m = 11" with w Lb show ?thesis by (simp add: days_before_month_def)
  qed
qed

lemma days_before_month_bounds:
  fixes L m :: int
  assumes "L = 0 \<or> L = 1" and "0 \<le> m" and "m \<le> 11"
  shows "0 \<le> days_before_month L m"
    and "days_before_month L m + 28 \<le> days_before_month L (m + 1)"
    and "days_before_month L (m + 1) \<le> days_before_month L m + 31"
    and "days_before_month L (m + 1) \<le> 365 + L"
proof -
  from assms(2,3) have mc: "m = 0 \<or> m = 1 \<or> m = 2 \<or> m = 3 \<or> m = 4 \<or> m = 5 \<or> m = 6 \<or> m = 7
      \<or> m = 8 \<or> m = 9 \<or> m = 10 \<or> m = 11" by arith
  from mc assms(1) show "0 \<le> days_before_month L m"
    by (elim disjE) (simp_all add: days_before_month_def)
  from mc assms(1) show "days_before_month L m + 28 \<le> days_before_month L (m + 1)"
    by (elim disjE) (simp_all add: days_before_month_def)
  from mc assms(1) show "days_before_month L (m + 1) \<le> days_before_month L m + 31"
    by (elim disjE) (simp_all add: days_before_month_def)
  from mc assms(1) show "days_before_month L (m + 1) \<le> 365 + L"
    by (elim disjE) (simp_all add: days_before_month_def)
qed

lemma fields_of_day:
  assumes m: "0 \<le> m" "m \<le> 11"
    and d: "1 \<le> d" "d \<le> days_before_month (leap_day y) (m + 1) - days_before_month (leap_day y) m"
    and n: "n = DayFromYear y + days_before_month (leap_day y) m + d - 1"
  shows "YearFromDay n = y \<and> MonthFromDay n = m \<and> DateFromDay n = d"
proof -
  have L: "leap_day y = 0 \<or> leap_day y = 1" by (rule leap_day_cases)
  note b = days_before_month_bounds [OF L m]
  have dwy: "0 \<le> n - DayFromYear y" "n - DayFromYear y < 365 + leap_day y"
    using b d unfolding n by simp_all
  have "DaysInYear y = 365 + leap_day y"
    using DaysInYear_cases [of y] by (auto simp add: leap_day_def)
  with dwy have "DayFromYear y \<le> n" "n < DayFromYear (y + 1)"
    by (simp_all add: DayFromYear_next)
  then have Y: "YearFromDay n = y" by (rule YearFromDay_unique)
  have W: "DayWithinYear n = days_before_month (leap_day y) m + d - 1"
    unfolding DayWithinYear_def Y by (simp add: n)
  have M: "MonthFromDay n = m"
    unfolding MonthFromDay_def Let_def Y W
    using d by (intro month_cascade [OF L m]) simp_all
  have "DateFromDay n = d"
    unfolding DateFromDay_def Y M W by simp
  with Y M show ?thesis by simp
qed

lemma day_decomposition:
  "0 \<le> MonthFromDay n \<and> MonthFromDay n \<le> 11 \<and> 1 \<le> DateFromDay n
   \<and> DateFromDay n \<le> days_before_month (leap_day (YearFromDay n)) (MonthFromDay n + 1)
        - days_before_month (leap_day (YearFromDay n)) (MonthFromDay n)
   \<and> n = DayFromYear (YearFromDay n)
        + days_before_month (leap_day (YearFromDay n)) (MonthFromDay n) + DateFromDay n - 1"
proof -
  define w L where "w = DayWithinYear n" and "L = leap_day (YearFromDay n)"
  have r: "0 \<le> w" "w < 365 + L"
    using DayWithinYear_range [of n] by (simp_all add: w_def L_def)
  have L: "L = 0 \<or> L = 1"
    unfolding L_def by (rule leap_day_cases)
  define m where "m = (if w < 31 then 0 else if w < 59 + L then 1 else if w < 90 + L then 2
         else if w < 120 + L then 3 else if w < 151 + L then 4 else if w < 181 + L then 5
         else if w < 212 + L then 6 else if w < 243 + L then 7 else if w < 273 + L then 8
         else if w < 304 + L then 9 else if w < 334 + L then 10 else (11 :: int))"
  have Mm: "MonthFromDay n = m"
    by (simp add: MonthFromDay_def Let_def m_def w_def L_def)
  have M: "0 \<le> m \<and> m \<le> 11"
    by (simp add: m_def)
  have D: "days_before_month L m \<le> w \<and> w < days_before_month L (m + 1)"
    using r L unfolding m_def days_before_month_def by (elim disjE) simp_all
  have "DateFromDay n = w - days_before_month L m + 1"
    by (simp add: DateFromDay_def Mm w_def L_def)
  moreover have "n = DayFromYear (YearFromDay n) + w"
    by (simp add: w_def DayWithinYear_def)
  ultimately show ?thesis
    using M D unfolding Mm L_def [symmetric] by simp
qed


lemma MonthFromDay_range: "0 \<le> MonthFromDay n" "MonthFromDay n \<le> 11"
  using day_decomposition [of n] by blast+

lemma DateFromDay_bounds:
  "1 \<le> DateFromDay n"
  "DateFromDay n \<le> days_before_month (leap_day (YearFromDay n)) (MonthFromDay n + 1)
        - days_before_month (leap_day (YearFromDay n)) (MonthFromDay n)"
  using day_decomposition [of n] by blast+

lemma day_of_fields:
  "n = DayFromYear (YearFromDay n)
        + days_before_month (leap_day (YearFromDay n)) (MonthFromDay n) + DateFromDay n - 1"
  using day_decomposition [of n] by blast

section \<open>Properties of the due-date badge\<close>

lemma Day_midnight: "Day (k * msPerDay) = k"
  by (simp add: Day_def msPerDay_def)

lemma TimeClip_day:
  "\<bar>k\<bar> \<le> 100000000 \<Longrightarrow> TimeClip (k * msPerDay) = TimeValue (k * msPerDay)"
  by (simp add: TimeClip_def msPerDay_def abs_le_iff)

lemma new_Date_shape:
  "new_Date y m d = InvalidDate \<or> (\<exists>k. new_Date y m d = TimeValue (k * msPerDay))"
  by (auto simp add: new_Date_def TimeClip_def split: option.splits)

lemma parseLocalYMD_shape:
  "parseLocalYMD rt x = InvalidDate \<or> (\<exists>k. parseLocalYMD rt x = TimeValue (k * msPerDay))"
  using new_Date_shape by (auto simp add: parseLocalYMD_def Let_def split: option.splits)

lemma MakeDay_fields: "MakeDay (YearFromDay n) (MonthFromDay n) (DateFromDay n + j) = n + j"
proof -
  note dd = day_decomposition [of n]
  then have "MonthFromDay n div 12 = 0" "MonthFromDay n mod 12 = MonthFromDay n"
    by simp_all
  then show ?thesis
    using dd by (simp add: MakeDay_def Let_def)
qed

lemma today_tomorrow:
  assumes "\<bar>Day now\<bar> < 100000000"
  shows "setHours0 (TimeValue now) = TimeValue (Day now * msPerDay)"
    and "(case getDate (TimeValue (Day now * msPerDay)) of
            None \<Rightarrow> InvalidDate
          | Some k \<Rightarrow> setDate (TimeValue (Day now * msPerDay)) (k + 1))
         = TimeValue ((Day now + 1) * msPerDay)"
proof -
  show "setHours0 (TimeValue now) = TimeValue (Day now * msPerDay)"
    using assms by (simp add: TimeClip_day)
  have "MakeDay (YearFromDay (Day now)) (MonthFromDay (Day now)) (DateFromDay (Day now) + 1)
        = Day now + 1"
    by (rule MakeDay_fields)
  moreover have "(Day now * msPerDay) mod msPerDay = 0"
    by simp
  moreover have "TimeClip ((Day now + 1) * msPerDay) = TimeValue ((Day now + 1) * msPerDay)"
    using assms by (intro TimeClip_day) simp
  ultimately show "(case getDate (TimeValue (Day now * msPerDay)) of
            None \<Rightarrow> InvalidDate
          | Some k \<Rightarrow> setDate (TimeValue (Day now * msPerDay)) (k + 1))
         = TimeValue ((Day now + 1) * msPerDay)"
    by (simp add: Day_midnight)
qed

lemma digits_value_zeros: "digits_value (replicate j 48 @ s) = digits_value s"
proof -
  have "foldl (\<lambda>a c. 10 * a + (unat c - 48)) 0 (replicate j (48 :: 16 word)) = 0"
    by (induction j) simp_all
  then show ?thesis by (simp add: digits_value_def)
qed

lemma digits_value_padStart: "digits_value (padStart k (digits n)) = n"
  by (simp add: padStart_def digits_value_zeros digits_value_digits)

lemma String_int_nonneg: "0 \<le> i \<Longrightarrow> String_int i = digits (nat i)"
  by (simp add: String_int_def)

lemma padStart_String_int_inj:
  assumes "0 \<le> a" and "0 \<le> b"
    and "padStart k (String_int a) = padStart k (String_int b)"
  shows "a = b"
proof -
  from assms have "digits_value (padStart k (digits (nat a))) = digits_value (padStart k (digits (nat b)))"
    by (simp add: String_int_nonneg)
  then have "nat a = nat b"
    by (simp only: digits_value_padStart)
  with assms show ?thesis by simp
qed

lemma length_digits_small: "n < 100 \<Longrightarrow> length (digits n) \<le> 2"
proof -
  assume n: "n < 100"
  show ?thesis
  proof (cases "n < 10")
    case True
    then show ?thesis by (simp add: digits.simps [of n])
  next
    case False
    with n have "n div 10 < 10" by simp
    then have "digits (n div 10) = [digit (n div 10)]"
      by (simp add: digits.simps [of "n div 10"])
    with False show ?thesis by (simp add: digits.simps [of n])
  qed
qed

lemma length_pad2_date:
  assumes "0 \<le> d" and "d < 100"
  shows "length (padStart 2 (String_int d)) = 2"
proof -
  have "length (digits (nat d)) \<le> 2"
    using assms by (intro length_digits_small) simp
  moreover have "digits (nat d) \<noteq> []" by (rule digits_not_Nil)
  ultimately show ?thesis
    using assms by (auto simp add: padStart_def String_int_nonneg)
qed


lemma padStart_all_digits: "list_all isDigit (padStart k (digits n))"
proof -
  have "isDigit 48" by (simp add: isDigit_def)
  then have "list_all isDigit (replicate (k - length (digits n)) 48)"
    by (simp add: list_all_iff)
  with digits_all_digit [of n] show ?thesis
    by (simp add: padStart_def)
qed

lemma padStart_digits_hd: "hd (padStart k (digits n)) \<noteq> 45"
proof -
  have "padStart k (digits n) \<noteq> []"
    using digits_not_Nil by (simp add: padStart_def)
  with padStart_all_digits [of k n] have "isDigit (hd (padStart k (digits n)))"
    by (cases "padStart k (digits n)") simp_all
  then show ?thesis by (auto simp add: isDigit_def)
qed

lemma year_text_inj:
  assumes "(if y < 0 then lit ''-'' else []) @ padStart 4 (String_int \<bar>y\<bar>)
         = (if z < 0 then lit ''-'' else []) @ padStart 4 (String_int \<bar>z\<bar>)"
  shows "y = z"
proof -
  have minus: "lit ''-'' = [45]" by (simp add: lit_def)
  have abs_eq: "padStart 4 (String_int \<bar>y\<bar>) = padStart 4 (String_int \<bar>z\<bar>) \<Longrightarrow> \<bar>y\<bar> = \<bar>z\<bar>"
    by (rule padStart_String_int_inj) simp_all
  have S: "String_int \<bar>y\<bar> = digits (nat \<bar>y\<bar>)" "String_int \<bar>z\<bar> = digits (nat \<bar>z\<bar>)"
    by (simp_all add: String_int_nonneg)
  note heads = arg_cong [where f = hd, OF assms]
  consider "y < 0" "z < 0" | "y < 0" "\<not> z < 0" | "\<not> y < 0" "z < 0" | "\<not> y < 0" "\<not> z < 0"
    by blast
  then show ?thesis
  proof cases
    case 1
    with assms have "padStart 4 (String_int \<bar>y\<bar>) = padStart 4 (String_int \<bar>z\<bar>)"
      by simp
    then have "\<bar>y\<bar> = \<bar>z\<bar>" by (rule abs_eq)
    with 1 show ?thesis by linarith
  next
    case 2
    with heads have "hd (padStart 4 (digits (nat \<bar>z\<bar>))) = 45"
      by (simp add: minus S String_int_nonneg)
    with padStart_digits_hd show ?thesis by blast
  next
    case 3
    with heads have "hd (padStart 4 (digits (nat \<bar>y\<bar>))) = 45"
      by (simp add: minus S String_int_nonneg)
    with padStart_digits_hd show ?thesis by blast
  next
    case 4
    with assms have "padStart 4 (String_int \<bar>y\<bar>) = padStart 4 (String_int \<bar>z\<bar>)"
      by simp
    then have "\<bar>y\<bar> = \<bar>z\<bar>" by (rule abs_eq)
    with 4 show ?thesis by linarith
  qed
qed

lemma weekday_name_length: "length (weekday_names ! nat (WeekDay n)) = 3"
proof -
  have "\<forall>x \<in> set weekday_names. length x = 3"
    by (simp add: weekday_names_def lit_def)
  moreover have "nat (WeekDay n) < length weekday_names"
    by (simp add: weekday_names_def WeekDay_def)
  ultimately show ?thesis by (metis nth_mem)
qed

lemma length_month_names: "length month_names = 12"
  by (simp add: month_names_def)

lemma month_index: "nat (MonthFromDay n) < length month_names"
  unfolding length_month_names using MonthFromDay_range [of n] by linarith

lemma month_name_length: "length (month_names ! nat (MonthFromDay n)) = 3"
proof -
  have "\<forall>x \<in> set month_names. length x = 3"
    by (simp add: month_names_def lit_def)
  with month_index [of n] show ?thesis by (metis nth_mem)
qed

lemma month_name_inj:
  assumes "month_names ! nat (MonthFromDay a) = month_names ! nat (MonthFromDay b)"
  shows "MonthFromDay a = MonthFromDay b"
proof -
  have "distinct month_names"
    by (simp add: month_names_def lit_def)
  with assms month_index [of a] month_index [of b]
  have "nat (MonthFromDay a) = nat (MonthFromDay b)"
    by (simp add: nth_eq_iff_index_eq)
  with MonthFromDay_range [of a] MonthFromDay_range [of b] show ?thesis by linarith
qed

lemma date_range: "1 \<le> DateFromDay n \<and> DateFromDay n \<le> 31"
proof -
  note b = days_before_month_bounds [OF leap_day_cases [of "YearFromDay n"] MonthFromDay_range [of n]]
  from DateFromDay_bounds [of n] b(3) show ?thesis by linarith
qed

lemma same_fields_same_day:
  assumes "YearFromDay a = YearFromDay b" "MonthFromDay a = MonthFromDay b"
    "DateFromDay a = DateFromDay b"
  shows "a = b"
proof -
  have "a = DayFromYear (YearFromDay a)
        + days_before_month (leap_day (YearFromDay a)) (MonthFromDay a) + DateFromDay a - 1"
    by (rule day_of_fields)
  also have "\<dots> = DayFromYear (YearFromDay b)
        + days_before_month (leap_day (YearFromDay b)) (MonthFromDay b) + DateFromDay b - 1"
    by (simp only: assms)
  also have "\<dots> = b"
    by (rule day_of_fields [symmetric])
  finally show ?thesis .
qed

lemma four_fields:
  assumes "w1 @ s @ m1 @ s @ d1 @ s @ y1 = w2 @ s @ m2 @ s @ d2 @ s @ y2"
    and "length w1 = length w2" and "length m1 = length m2" and "length d1 = length d2"
  shows "m1 = m2 \<and> d1 = d2 \<and> y1 = y2"
proof -
  from assms(1,2) have "m1 @ s @ d1 @ s @ y1 = m2 @ s @ d2 @ s @ y2"
    by (simp add: append_eq_append_conv)
  with assms(3) have m: "m1 = m2" and "d1 @ s @ y1 = d2 @ s @ y2"
    by (simp_all add: append_eq_append_conv)
  with assms(4) have "d1 = d2" and "y1 = y2"
    by (simp_all add: append_eq_append_conv)
  with m show ?thesis by simp
qed

lemma toDateString_eq_iff:
  "toDateString (TimeValue a) = toDateString (TimeValue b) \<longleftrightarrow> Day a = Day b"
proof
  assume "Day a = Day b"
  then show "toDateString (TimeValue a) = toDateString (TimeValue b)" by simp
next
  assume eq: "toDateString (TimeValue a) = toDateString (TimeValue b)"
  have dlen: "length (padStart 2 (String_int (DateFromDay (Day a))))
            = length (padStart 2 (String_int (DateFromDay (Day b))))"
    using date_range [of "Day a"] date_range [of "Day b"] by (simp add: length_pad2_date)
  have wlen: "length (weekday_names ! nat (WeekDay (Day a))) = length (weekday_names ! nat (WeekDay (Day b)))"
    by (simp only: weekday_name_length)
  have mlen: "length (month_names ! nat (MonthFromDay (Day a))) = length (month_names ! nat (MonthFromDay (Day b)))"
    by (simp only: month_name_length)
  from eq have
    "month_names ! nat (MonthFromDay (Day a)) = month_names ! nat (MonthFromDay (Day b))
     \<and> padStart 2 (String_int (DateFromDay (Day a))) = padStart 2 (String_int (DateFromDay (Day b)))
     \<and> (if YearFromDay (Day a) < 0 then lit ''-'' else []) @ padStart 4 (String_int \<bar>YearFromDay (Day a)\<bar>)
          = (if YearFromDay (Day b) < 0 then lit ''-'' else []) @ padStart 4 (String_int \<bar>YearFromDay (Day b)\<bar>)"
    unfolding toDateString.simps Let_def
    by (rule four_fields [OF _ wlen mlen dlen])
  then have M: "month_names ! nat (MonthFromDay (Day a)) = month_names ! nat (MonthFromDay (Day b))"
    and D: "padStart 2 (String_int (DateFromDay (Day a))) = padStart 2 (String_int (DateFromDay (Day b)))"
    and Y: "(if YearFromDay (Day a) < 0 then lit ''-'' else []) @ padStart 4 (String_int \<bar>YearFromDay (Day a)\<bar>)
          = (if YearFromDay (Day b) < 0 then lit ''-'' else []) @ padStart 4 (String_int \<bar>YearFromDay (Day b)\<bar>)"
    by blast+
  have m: "MonthFromDay (Day a) = MonthFromDay (Day b)"
    using M by (rule month_name_inj)
  have "0 \<le> DateFromDay (Day a)" "0 \<le> DateFromDay (Day b)"
    using date_range [of "Day a"] date_range [of "Day b"] by linarith+
  then have d: "DateFromDay (Day a) = DateFromDay (Day b)"
    using D by (rule padStart_String_int_inj)
  have y: "YearFromDay (Day a) = YearFromDay (Day b)"
    using Y by (rule year_text_inj)
  show "Day a = Day b"
    using y m d by (rule same_fields_same_day)
qed

lemma toDateString_valid: "toDateString (TimeValue a) \<noteq> toDateString InvalidDate"
proof -
  have "toDateString (TimeValue a) ! 3 = 32"
    using weekday_name_length [of "Day a"]
    by (simp add: Let_def nth_append lit_def)
  moreover have "toDateString InvalidDate ! 3 = 97"
    by (simp add: lit_def)
  ultimately show ?thesis by auto
qed


lemma taskHtml_cases:
  assumes "\<bar>Day now\<bar> < 100000000"
  shows "taskHtml rt now t =
     (case parseLocalYMD rt (dueDate t) of
        InvalidDate \<Rightarrow> ([], lit ''Invalid Date'')
      | TimeValue d \<Rightarrow>
          if Day d < Day now
          then (lit ''overdue'', lit ''Overdue - '' @ formatLongDate (TimeValue d))
          else if Day d = Day now
          then (lit ''due-soon'', lit ''Due Today - '' @ formatLongDate (TimeValue d))
          else if Day d = Day now + 1
          then (lit ''due-soon'', lit ''Due Tomorrow - '' @ formatLongDate (TimeValue d))
          else ([], formatLongDate (TimeValue d)))"
proof -
  note tt = today_tomorrow [OF assms]
  define today where "today = TimeValue (Day now * msPerDay)"
  define tomorrow where "tomorrow = TimeValue ((Day now + 1) * msPerDay)"
  have html: "taskHtml rt now t =
     (if date_less (parseLocalYMD rt (dueDate t)) today
      then (lit ''overdue'', lit ''Overdue - '' @ formatLongDate (parseLocalYMD rt (dueDate t)))
      else if toDateString (parseLocalYMD rt (dueDate t)) = toDateString today
      then (lit ''due-soon'', lit ''Due Today - '' @ formatLongDate (parseLocalYMD rt (dueDate t)))
      else if toDateString (parseLocalYMD rt (dueDate t)) = toDateString tomorrow
      then (lit ''due-soon'', lit ''Due Tomorrow - '' @ formatLongDate (parseLocalYMD rt (dueDate t)))
      else ([], formatLongDate (parseLocalYMD rt (dueDate t))))"
    unfolding taskHtml_def Let_def tt today_def tomorrow_def ..
  from parseLocalYMD_shape [of rt "dueDate t"] show ?thesis
  proof (elim disjE exE)
    assume inv: "parseLocalYMD rt (dueDate t) = InvalidDate"
    have "toDateString InvalidDate \<noteq> toDateString today"
      "toDateString InvalidDate \<noteq> toDateString tomorrow"
      unfolding today_def tomorrow_def using toDateString_valid by metis+
    then show ?thesis
      unfolding html inv by (simp del: toDateString.simps)
  next
    fix k
    assume val: "parseLocalYMD rt (dueDate t) = TimeValue (k * msPerDay)"
    have less: "date_less (TimeValue (k * msPerDay)) today \<longleftrightarrow> k < Day now"
      by (simp add: today_def msPerDay_def)
    have td: "toDateString (TimeValue (k * msPerDay)) = toDateString today \<longleftrightarrow> k = Day now"
      unfolding today_def by (simp only: toDateString_eq_iff Day_midnight)
    have tm: "toDateString (TimeValue (k * msPerDay)) = toDateString tomorrow \<longleftrightarrow> k = Day now + 1"
      unfolding tomorrow_def by (simp only: toDateString_eq_iff Day_midnight)
    show ?thesis
      unfolding html val less td tm
      by (simp only: date.case Day_midnight)
  qed
qed

subsection \<open>The days of a month\<close>

lemma DayFromYear_range:
  assumes "- 271820 \<le> y" and "y \<le> 275759"
  shows "- 99999744 \<le> DayFromYear y" and "DayFromYear (y + 1) \<le> 99999744"
proof -
  have "DayFromYear (- 271820) = - 99999744" "DayFromYear 275760 = 99999744"
    by (simp_all add: DayFromYear_def)
  with DayFromYear_mono [OF assms(1)] DayFromYear_mono [of "y + 1" 275760] assms(2)
  show "- 99999744 \<le> DayFromYear y" and "DayFromYear (y + 1) \<le> 99999744"
    by simp_all
qed

lemma shown_year_range:
  "- 271820 \<le> year \<Longrightarrow> year \<le> 275759 \<Longrightarrow>
   - 271820 \<le> shown_year year \<and> shown_year year \<le> 275759"
  by (simp add: shown_year_def)

lemma DaysInYear_leap_day: "DaysInYear y = 365 + leap_day y"
  using DaysInYear_cases [of y] by (auto simp add: leap_day_def)

lemma MakeDay_in_month:
  assumes "0 \<le> m" and "m \<le> 11"
  shows "MakeDay y m d = DayFromYear y + days_before_month (leap_day y) m + d - 1"
    and "MakeDay y (m + 1) 0 = DayFromYear y + days_before_month (leap_day y) (m + 1) - 1"
proof -
  from assms have "m div 12 = 0" "m mod 12 = m" by simp_all
  then show "MakeDay y m d = DayFromYear y + days_before_month (leap_day y) m + d - 1"
    by (simp add: MakeDay_def Let_def)
  show "MakeDay y (m + 1) 0 = DayFromYear y + days_before_month (leap_day y) (m + 1) - 1"
  proof (cases "m = 11")
    case True
    then show ?thesis
      by (simp add: MakeDay_def Let_def DayFromYear_next DaysInYear_leap_day days_before_month_def)
  next
    case False
    with assms have "(m + 1) div 12 = 0" "(m + 1) mod 12 = m + 1" by simp_all
    then show ?thesis
      by (simp add: MakeDay_def Let_def)
  qed
qed

lemma month_length_range:
  assumes "0 \<le> m" and "m \<le> 11"
  shows "28 \<le> month_length y m" and "month_length y m \<le> 31"
  using days_before_month_bounds [OF leap_day_cases [of y] assms]
  by (simp_all add: month_length_def)

lemma day_in_range:
  assumes y: "- 271820 \<le> y" "y \<le> 275759"
    and m: "0 \<le> m" "m \<le> 11"
    and d: "1 \<le> d" "d \<le> month_length y m"
  shows "\<bar>DayFromYear y + days_before_month (leap_day y) m + d - 1\<bar> \<le> 100000000"
proof -
  note b = days_before_month_bounds [OF leap_day_cases [of y] m]
  note r = DayFromYear_range [OF y]
  have "DayFromYear (y + 1) = DayFromYear y + 365 + leap_day y"
    by (simp add: DayFromYear_next DaysInYear_leap_day)
  with b r d show ?thesis
    by (simp add: month_length_def abs_le_iff)
qed

lemma new_Date_in_month:
  assumes y: "- 271820 \<le> year" "year \<le> 275759"
    and m: "0 \<le> m" "m \<le> 11"
    and d: "1 \<le> d" "d \<le> month_length (shown_year year) m"
  shows "\<exists>n. new_Date (Some year) (Some m) (Some d) = TimeValue (n * msPerDay)
           \<and> YearFromDay n = shown_year year \<and> MonthFromDay n = m \<and> DateFromDay n = d"
proof -
  let ?Y = "shown_year year"
  let ?n = "DayFromYear ?Y + days_before_month (leap_day ?Y) m + d - 1"
  note yr = shown_year_range [OF y]
  have mk: "MakeDay ?Y m d = ?n"
    using m by (rule MakeDay_in_month)
  have "\<bar>?n\<bar> \<le> 100000000"
    using yr m d by (intro day_in_range) simp_all
  then have "TimeClip (?n * msPerDay) = TimeValue (?n * msPerDay)"
    by (rule TimeClip_day)
  then have "new_Date (Some year) (Some m) (Some d) = TimeValue (?n * msPerDay)"
    using mk by (simp add: new_Date_def shown_year_def)
  moreover have "YearFromDay ?n = ?Y \<and> MonthFromDay ?n = m \<and> DateFromDay ?n = d"
    using m d by (intro fields_of_day) (simp_all add: month_length_def)
  ultimately show ?thesis by blast
qed

lemma formatLocalISO_in_month:
  assumes "- 271820 \<le> year" "year \<le> 275759" "0 \<le> m" "m \<le> 11"
    "1 \<le> d" "d \<le> month_length (shown_year year) m"
  shows "formatLocalISO (new_Date (Some year) (Some m) (Some d)) = iso_text (shown_year year) m d"
proof -
  obtain n where "new_Date (Some year) (Some m) (Some d) = TimeValue (n * msPerDay)"
    "YearFromDay n = shown_year year" "MonthFromDay n = m" "DateFromDay n = d"
    using new_Date_in_month [OF assms] by blast
  then show ?thesis
    by (simp add: Day_midnight iso_text_def Let_def)
qed

lemma getDaysInMonth_in_range:
  assumes y: "- 271820 \<le> year" "year \<le> 275759"
    and m: "0 \<le> m" "m \<le> 11"
  shows "getDaysInMonth year m = Some (month_length (shown_year year) m)"
proof -
  let ?Y = "shown_year year"
  let ?len = "month_length ?Y m"
  let ?n = "DayFromYear ?Y + days_before_month (leap_day ?Y) m + ?len - 1"
  note yr = shown_year_range [OF y]
  note len = month_length_range [OF m, of ?Y]
  have "MakeDay ?Y (m + 1) 0 = DayFromYear ?Y + days_before_month (leap_day ?Y) (m + 1) - 1"
    using m by (rule MakeDay_in_month)
  then have mk: "MakeDay ?Y (m + 1) 0 = ?n"
    by (simp add: month_length_def)
  have "\<bar>?n\<bar> \<le> 100000000"
    using yr m len by (intro day_in_range) simp_all
  then have "TimeClip (?n * msPerDay) = TimeValue (?n * msPerDay)"
    by (rule TimeClip_day)
  then have nd: "new_Date (Some year) (Some (m + 1)) (Some 0) = TimeValue (?n * msPerDay)"
    using mk by (simp add: new_Date_def shown_year_def)
  have "YearFromDay ?n = ?Y \<and> MonthFromDay ?n = m \<and> DateFromDay ?n = ?len"
    using m len by (intro fields_of_day) (simp_all add: month_length_def)
  then show ?thesis
    unfolding getDaysInMonth_def nd by (simp add: Day_midnight)
qed

lemma iso_text_inj:
  assumes "0 \<le> d" and "0 \<le> e" and "iso_text y m d = iso_text y m e"
  shows "d = e"
proof -
  from assms(3) have "padStart 2 (String_int d) = padStart 2 (String_int e)"
    by (simp add: iso_text_def)
  with assms(1,2) show ?thesis
    by (rule padStart_String_int_inj)
qed

subsection \<open>Reading a date text\<close>

lemma split_on_none: "c \<notin> set a \<Longrightarrow> split_on c a = [a]"
  by (induction a) auto

lemma split_on_first: "c \<notin> set a \<Longrightarrow> split_on c (a @ c # rest) = a # split_on c rest"
  by (induction a) auto

lemma digits_no_hyphen: "list_all isDigit s \<Longrightarrow> 45 \<notin> set s"
  by (induction s) (auto simp add: isDigit_def)

lemma split_ymd_text:
  assumes "0 \<le> y" "0 \<le> m" "0 \<le> d"
  shows "split_on 45 (ymd_text y m d) =
     [padStart 4 (String_int y), padStart 2 (String_int m), padStart 2 (String_int d)]"
proof -
  have hy: "45 \<notin> set (padStart 4 (String_int y))"
    and hm: "45 \<notin> set (padStart 2 (String_int m))"
    and hd: "45 \<notin> set (padStart 2 (String_int d))"
    using assms by (simp_all add: String_int_nonneg digits_no_hyphen padStart_all_digits)
  have "ymd_text y m d =
      padStart 4 (String_int y) @ 45 # (padStart 2 (String_int m) @ 45 # padStart 2 (String_int d))"
    by (simp add: ymd_text_def lit_def)
  then show ?thesis
    by (simp only: split_on_first [OF hy] split_on_first [OF hm] split_on_none [OF hd])
qed

lemma length_digits_bound: "0 < k \<Longrightarrow> n < 10 ^ k \<Longrightarrow> length (digits n) \<le> k"
proof (induction k arbitrary: n)
  case 0
  then show ?case by simp
next
  case (Suc k)
  show ?case
  proof (cases "n < 10")
    case True
    then show ?thesis by (simp add: digits.simps [of n])
  next
    case False
    with Suc.prems have k: "0 < k"
      by (cases k) simp_all
    from Suc.prems have "n div 10 < 10 ^ k"
      by (simp add: less_mult_imp_div_less mult.commute)
    with k have "length (digits (n div 10)) \<le> k"
      by (rule Suc.IH)
    with False show ?thesis
      by (simp add: digits.simps [of n])
  qed
qed

lemma reads_decimal_padStart:
  assumes rd: "reads_decimal rt"
    and i: "0 \<le> i" "i < 1000000"
    and k: "k \<le> 6"
  shows "StringToNumber rt (padStart k (String_int i)) = Finite (of_int i)"
proof -
  let ?s = "padStart k (digits (nat i))"
  have "length (digits (nat i)) \<le> 6"
    using i by (intro length_digits_bound) simp_all
  with k have len: "length ?s \<le> 15"
    by (simp add: padStart_def)
  have ne: "?s \<noteq> []"
    using digits_not_Nil by (simp add: padStart_def)
  from rd ne len have "StringToNumber rt ?s = Finite (of_nat (digits_value ?s))"
    unfolding reads_decimal_def using padStart_all_digits [of k "nat i"] by blast
  then show ?thesis
    using i by (simp add: String_int_nonneg digits_value_padStart)
qed

lemma parseLocalYMD_ymd_text:
  assumes rd: "reads_decimal rt"
    and y: "0 \<le> y" "y < 1000000"
    and m: "1 \<le> m" "m \<le> 12"
    and d: "1 \<le> d" "d \<le> 31"
  shows "parseLocalYMD rt (Some (ymd_text y m d)) = new_Date (Some y) (Some (m - 1)) (Some d)"
proof -
  have sp: "split_on 45 (ymd_text y m d) =
     [padStart 4 (String_int y), padStart 2 (String_int m), padStart 2 (String_int d)]"
    using y m d by (intro split_ymd_text) simp_all
  have ne: "ymd_text y m d \<noteq> []"
    by (simp add: ymd_text_def lit_def)
  have ny: "StringToNumber rt (padStart 4 (String_int y)) = Finite (of_int y)"
    using rd y by (intro reads_decimal_padStart) simp_all
  have nm: "StringToNumber rt (padStart 2 (String_int m)) = Finite (of_int m)"
    using rd m by (intro reads_decimal_padStart) simp_all
  have nd: "StringToNumber rt (padStart 2 (String_int d)) = Finite (of_int d)"
    using rd d by (intro reads_decimal_padStart) simp_all
  have sub: "double_minus_one rt (of_int m) = of_int (m - 1)"
    using rd m unfolding reads_decimal_def by blast
  have ay: "date_arg (Finite (of_int y)) = Some y"
    using y by (simp add: date_arg_def)
  have am: "date_arg (minus_1 rt (or_1 (Finite (of_int m)))) = Some (m - 1)"
    using m by (simp add: date_arg_def minus_1_def or_1_def sub)
  have ad: "date_arg (or_1 (Finite (of_int d))) = Some d"
    using d by (simp add: date_arg_def or_1_def)
  show ?thesis
    unfolding parseLocalYMD_def option.case Let_def sp
    by (simp add: ne Number_at_def ny nm nd ay am ad)
qed

lemma new_Date_MakeDay:
  assumes y: "100 \<le> y" "y \<le> 275759"
    and m: "0 \<le> m" "m \<le> 11"
    and d: "1 \<le> d" "d \<le> month_length y m"
  shows "new_Date (Some y) (Some m) (Some d) = TimeValue (MakeDay y m d * msPerDay)"
    and "YearFromDay (MakeDay y m d) = y"
    and "MonthFromDay (MakeDay y m d) = m"
    and "DateFromDay (MakeDay y m d) = d"
proof -
  let ?n = "DayFromYear y + days_before_month (leap_day y) m + d - 1"
  have mk: "MakeDay y m d = ?n"
    using m by (rule MakeDay_in_month)
  have "\<bar>?n\<bar> \<le> 100000000"
    using y m d by (intro day_in_range) simp_all
  then have "TimeClip (?n * msPerDay) = TimeValue (?n * msPerDay)"
    by (rule TimeClip_day)
  then show "new_Date (Some y) (Some m) (Some d) = TimeValue (MakeDay y m d * msPerDay)"
    using mk y by (simp add: new_Date_def)
  have f: "YearFromDay ?n = y \<and> MonthFromDay ?n = m \<and> DateFromDay ?n = d"
    using m d by (intro fields_of_day) (simp_all add: month_length_def)
  then show "YearFromDay (MakeDay y m d) = y" "MonthFromDay (MakeDay y m d) = m"
    "DateFromDay (MakeDay y m d) = d"
    unfolding mk by simp_all
qed

subsection \<open>The order of days is the order of calendar dates\<close>

lemma days_before_month_mono:
  fixes L a b :: int
  assumes L: "L = 0 \<or> L = 1" and a: "0 \<le> a" and ab: "a \<le> b" and b: "b \<le> 12"
  shows "days_before_month L a \<le> days_before_month L b"
  using ab b
proof (induction b rule: int_ge_induct)
  case base
  then show ?case by simp
next
  case (step i)
  then have "0 \<le> i" "i \<le> 11" using a by simp_all
  note s = days_before_month_bounds(2) [OF L this]
  from step have "days_before_month L a \<le> days_before_month L i" by simp
  with s show ?case by simp
qed

lemma earlier_date_earlier_day:
  assumes "date_before (calendar_date a) (calendar_date b)"
  shows "a < b"
proof -
  let ?Y = "YearFromDay a" and ?M = "MonthFromDay a" and ?D = "DateFromDay a"
  let ?Y' = "YearFromDay b" and ?M' = "MonthFromDay b" and ?D' = "DateFromDay b"
  from assms consider "?Y < ?Y'" | "?Y = ?Y'" "?M < ?M'" | "?Y = ?Y'" "?M = ?M'" "?D < ?D'"
    by (auto simp add: calendar_date_def)
  then show ?thesis
  proof cases
    case 1
    then have "DayFromYear (?Y + 1) \<le> DayFromYear ?Y'"
      by (intro DayFromYear_mono) simp
    with YearFromDay_spec [of a] YearFromDay_spec [of b] show ?thesis
      by linarith
  next
    case 2
    let ?L = "leap_day ?Y"
    note L = leap_day_cases [of ?Y]
    have ea: "a = DayFromYear ?Y + days_before_month ?L ?M + ?D - 1"
      by (rule day_of_fields)
    have eb: "b = DayFromYear ?Y + days_before_month ?L ?M' + ?D' - 1"
      unfolding 2(1) by (rule day_of_fields)
    have da: "?D \<le> days_before_month ?L (?M + 1) - days_before_month ?L ?M"
      by (rule DateFromDay_bounds)
    have db: "1 \<le> ?D'"
      by (rule DateFromDay_bounds)
    have "days_before_month ?L (?M + 1) \<le> days_before_month ?L ?M'"
      using L MonthFromDay_range [of a] MonthFromDay_range [of b] 2(2)
      by (intro days_before_month_mono) simp_all
    with ea eb da db show ?thesis
      by linarith
  next
    case 3
    have ea: "a = DayFromYear ?Y + days_before_month (leap_day ?Y) ?M + ?D - 1"
      by (rule day_of_fields)
    have eb: "b = DayFromYear ?Y + days_before_month (leap_day ?Y) ?M + ?D' - 1"
      unfolding 3(1) 3(2) by (rule day_of_fields)
    from ea eb 3(3) show ?thesis
      by linarith
  qed
qed

lemma same_date_same_day:
  assumes "calendar_date a = calendar_date b"
  shows "a = b"
proof (rule same_fields_same_day)
  from assms show "YearFromDay a = YearFromDay b" "MonthFromDay a = MonthFromDay b"
    "DateFromDay a = DateFromDay b"
    by (simp_all add: calendar_date_def)
qed

lemma day_order: "a < b \<longleftrightarrow> date_before (calendar_date a) (calendar_date b)"
proof
  assume "date_before (calendar_date a) (calendar_date b)"
  then show "a < b" by (rule earlier_date_earlier_day)
next
  assume ab: "a < b"
  show "date_before (calendar_date a) (calendar_date b)"
  proof (rule ccontr)
    assume "\<not> date_before (calendar_date a) (calendar_date b)"
    then have "calendar_date a = calendar_date b \<or> date_before (calendar_date b) (calendar_date a)"
      by (auto simp add: calendar_date_def)
    then have "a = b \<or> b < a"
      using same_date_same_day earlier_date_earlier_day by blast
    with ab show False by simp
  qed
qed

lemma taskHtml_ymd_text:
  assumes now: "\<bar>Day now\<bar> < 100000000"
    and rd: "reads_decimal rt"
    and y: "100 \<le> y" "y \<le> 275759"
    and m: "1 \<le> m" "m \<le> 12"
    and d: "1 \<le> d" "d \<le> month_length y (m - 1)"
    and due: "dueDate t = Some (ymd_text y m d)"
  shows "parseLocalYMD rt (dueDate t) = TimeValue (MakeDay y (m - 1) d * msPerDay)"
    and "calendar_date (MakeDay y (m - 1) d) = (y, m, d)"
    and "formatLongDate (parseLocalYMD rt (dueDate t)) = long_date y m d"
    and "taskHtml rt now t =
      (if date_before (y, m, d) (calendar_date (Day now))
       then (lit ''overdue'', lit ''Overdue - '' @ long_date y m d)
       else if (y, m, d) = calendar_date (Day now)
       then (lit ''due-soon'', lit ''Due Today - '' @ long_date y m d)
       else if (y, m, d) = calendar_date (Day now + 1)
       then (lit ''due-soon'', lit ''Due Tomorrow - '' @ long_date y m d)
       else ([], long_date y m d))"
proof -
  let ?n = "MakeDay y (m - 1) d"
  have m0: "0 \<le> m - 1" "m - 1 \<le> 11"
    using m by simp_all
  have d31: "d \<le> 31"
    using d(2) month_length_range(2) [OF m0, of y] by linarith
  note nd = new_Date_MakeDay [OF y m0 d]
  have "parseLocalYMD rt (Some (ymd_text y m d)) = new_Date (Some y) (Some (m - 1)) (Some d)"
    using rd y m d(1) d31 by (intro parseLocalYMD_ymd_text) simp_all
  then show p: "parseLocalYMD rt (dueDate t) = TimeValue (?n * msPerDay)"
    by (simp add: due nd(1))
  show c: "calendar_date ?n = (y, m, d)"
    by (simp add: calendar_date_def nd)
  have f: "formatLongDate (TimeValue (?n * msPerDay)) = long_date y m d"
    by (simp add: Day_midnight nd long_date_def Let_def)
  then show "formatLongDate (parseLocalYMD rt (dueDate t)) = long_date y m d"
    by (simp only: p)
  have lt: "?n < Day now \<longleftrightarrow> date_before (y, m, d) (calendar_date (Day now))"
    using day_order [of ?n "Day now"] by (simp only: c)
  have td: "?n = Day now \<longleftrightarrow> (y, m, d) = calendar_date (Day now)"
    using same_date_same_day [of ?n "Day now"] c by auto
  have tm: "?n = Day now + 1 \<longleftrightarrow> (y, m, d) = calendar_date (Day now + 1)"
    using same_date_same_day [of ?n "Day now + 1"] c by auto
  show "taskHtml rt now t =
      (if date_before (y, m, d) (calendar_date (Day now))
       then (lit ''overdue'', lit ''Overdue - '' @ long_date y m d)
       else if (y, m, d) = calendar_date (Day now)
       then (lit ''due-soon'', lit ''Due Today - '' @ long_date y m d)
       else if (y, m, d) = calendar_date (Day now + 1)
       then (lit ''due-soon'', lit ''Due Tomorrow - '' @ long_date y m d)
       else ([], long_date y m d))"
    unfolding taskHtml_cases [OF now] p date.case Day_midnight f lt td tm ..
qed

lemma reads_decimal_example: "reads_decimal example_runtime"
  by (simp add: reads_decimal_def example_runtime_def example_number_def)

lemma january_2024_dates:
  "calendar_date 19724 = (2024, 1, 2)" "calendar_date 19725 = (2024, 1, 3)"
  "month_length 2024 0 = 31"
  "long_date 2024 1 1 = lit ''Mon, Jan 1, 2024''" "long_date 2024 1 2 = lit ''Tue, Jan 2, 2024''"
  "long_date 2024 1 3 = lit ''Wed, Jan 3, 2024''" "long_date 2024 1 4 = lit ''Thu, Jan 4, 2024''"
  "ymd_text 2024 1 1 = lit ''2024-01-01''" "ymd_text 2024 1 2 = lit ''2024-01-02''"
  "ymd_text 2024 1 3 = lit ''2024-01-03''" "ymd_text 2024 1 4 = lit ''2024-01-04''"
  by code_simp+

text \<open>
  Claim C8. Let today and tomorrow be within the range of Date. The badge of a task
  depends on the calendar days of the due date and of now only, never on the time of day:
  a due day before today gives class \<open>overdue\<close> and the text \<open>Overdue - \<close>
  followed by the formatted date; today gives \<open>Due Today - \<close>, tomorrow
  \<open>Due Tomorrow - \<close> (both with class \<open>due-soon\<close>); every other day, and a due
  date that does not parse, gives no class and the plain formatted date.

  Let the due date be the text \<open>YYYY-MM-DD\<close> of the day \<open>d\<close> of the month \<open>m\<close> of the
  year \<open>y\<close>, from the year 100 on, and let the runtime read decimal numbers. Then the due
  date parses to the local midnight of that day, the formatted date is the text of that
  date with the names of its weekday and month, and the badge is decided by the calendar
  dates: overdue when the date \<open>(y, m, d)\<close> is before the date of today, due today when
  it is the date of today, due tomorrow when it is the date of the day after today, and
  the plain date otherwise.

  A task due \<open>2024-01-01\<close>, rendered at any time of 2 January 2024, has class
  \<open>overdue\<close> and the text \<open>Overdue - Mon, Jan 1, 2024\<close>.
\<close>

theorem due_date_badge:
  assumes "\<bar>Day now\<bar> < 100000000"
  shows "taskHtml rt now t =
     (case parseLocalYMD rt (dueDate t) of
        InvalidDate \<Rightarrow> ([], lit ''Invalid Date'')
      | TimeValue d \<Rightarrow>
          if Day d < Day now
          then (lit ''overdue'', lit ''Overdue - '' @ formatLongDate (TimeValue d))
          else if Day d = Day now
          then (lit ''due-soon'', lit ''Due Today - '' @ formatLongDate (TimeValue d))
          else if Day d = Day now + 1
          then (lit ''due-soon'', lit ''Due Tomorrow - '' @ formatLongDate (TimeValue d))
          else ([], formatLongDate (TimeValue d)))
   \<and> (reads_decimal rt \<and> 100 \<le> y \<and> y \<le> 275759 \<and> 1 \<le> m \<and> m \<le> 12
        \<and> 1 \<le> d \<and> d \<le> month_length y (m - 1) \<and> dueDate t = Some (ymd_text y m d) \<longrightarrow>
      parseLocalYMD rt (dueDate t) = TimeValue (MakeDay y (m - 1) d * msPerDay)
      \<and> calendar_date (MakeDay y (m - 1) d) = (y, m, d)
      \<and> formatLongDate (parseLocalYMD rt (dueDate t)) = long_date y m d
      \<and> taskHtml rt now t =
          (if date_before (y, m, d) (calendar_date (Day now))
           then (lit ''overdue'', lit ''Overdue - '' @ long_date y m d)
           else if (y, m, d) = calendar_date (Day now)
           then (lit ''due-soon'', lit ''Due Today - '' @ long_date y m d)
           else if (y, m, d) = calendar_date (Day now + 1)
           then (lit ''due-soon'', lit ''Due Tomorrow - '' @ long_date y m d)
           else ([], long_date y m d)))
   \<and> (reads_decimal rt \<and> getFullYear (TimeValue now) = Some 2024 \<and> getMonth (TimeValue now) = Some 0
        \<and> getDate (TimeValue now) = Some 2 \<longrightarrow>
      taskHtml rt now essay_task = (lit ''overdue'', lit ''Overdue - Mon, Jan 1, 2024''))"
proof (intro conjI impI)
  show "taskHtml rt now t =
     (case parseLocalYMD rt (dueDate t) of
        InvalidDate \<Rightarrow> ([], lit ''Invalid Date'')
      | TimeValue d \<Rightarrow>
          if Day d < Day now
          then (lit ''overdue'', lit ''Overdue - '' @ formatLongDate (TimeValue d))
          else if Day d = Day now
          then (lit ''due-soon'', lit ''Due Today - '' @ formatLongDate (TimeValue d))
          else if Day d = Day now + 1
          then (lit ''due-soon'', lit ''Due Tomorrow - '' @ formatLongDate (TimeValue d))
          else ([], formatLongDate (TimeValue d)))"
    using assms by (rule taskHtml_cases)
next
  assume h: "reads_decimal rt \<and> 100 \<le> y \<and> y \<le> 275759 \<and> 1 \<le> m \<and> m \<le> 12
        \<and> 1 \<le> d \<and> d \<le> month_length y (m - 1) \<and> dueDate t = Some (ymd_text y m d)"
  then have rd: "reads_decimal rt" and y: "100 \<le> y" "y \<le> 275759" and m: "1 \<le> m" "m \<le> 12"
    and d: "1 \<le> d" "d \<le> month_length y (m - 1)" and due: "dueDate t = Some (ymd_text y m d)"
    by simp_all
  note r = taskHtml_ymd_text [OF assms rd y m d due]
  show "parseLocalYMD rt (dueDate t) = TimeValue (MakeDay y (m - 1) d * msPerDay)"
    by (rule r(1))
  show "calendar_date (MakeDay y (m - 1) d) = (y, m, d)"
    by (rule r(2))
  show "formatLongDate (parseLocalYMD rt (dueDate t)) = long_date y m d"
    by (rule r(3))
  show "taskHtml rt now t =
          (if date_before (y, m, d) (calendar_date (Day now))
           then (lit ''overdue'', lit ''Overdue - '' @ long_date y m d)
           else if (y, m, d) = calendar_date (Day now)
           then (lit ''due-soon'', lit ''Due Today - '' @ long_date y m d)
           else if (y, m, d) = calendar_date (Day now + 1)
           then (lit ''due-soon'', lit ''Due Tomorrow - '' @ long_date y m d)
           else ([], long_date y m d))"
    by (rule r(4))
next
  assume h: "reads_decimal rt \<and> getFullYear (TimeValue now) = Some 2024 \<and> getMonth (TimeValue now) = Some 0
        \<and> getDate (TimeValue now) = Some 2"
  then have rd: "reads_decimal rt" by simp
  from h have "calendar_date (Day now) = calendar_date 19724"
    by (simp add: january_2024_dates) (simp add: calendar_date_def)
  then have today: "Day now = 19724"
    by (rule same_date_same_day)
  have due: "dueDate essay_task = Some (ymd_text 2024 1 1)"
    by (simp add: essay_task_def january_2024_dates)
  have "taskHtml rt now essay_task =
          (if date_before (2024, 1, 1) (calendar_date (Day now))
           then (lit ''overdue'', lit ''Overdue - '' @ long_date 2024 1 1)
           else if (2024, 1, 1) = calendar_date (Day now)
           then (lit ''due-soon'', lit ''Due Today - '' @ long_date 2024 1 1)
           else if (2024, 1, 1) = calendar_date (Day now + 1)
           then (lit ''due-soon'', lit ''Due Tomorrow - '' @ long_date 2024 1 1)
           else ([], long_date 2024 1 1))"
    using assms rd _ _ _ _ _ _ due by (rule taskHtml_ymd_text(4)) (simp_all add: january_2024_dates)
  then show "taskHtml rt now essay_task = (lit ''overdue'', lit ''Overdue - Mon, Jan 1, 2024'')"
    by (simp add: today january_2024_dates) (simp add: lit_def)
qed

theorem due_date_badge_witness:
  "\<bar>Day 1704189600000\<bar> < 100000000
   \<and> reads_decimal example_runtime
   \<and> dueDate essay_task = Some (ymd_text 2024 1 1)
   \<and> (1 :: int) \<le> month_length 2024 (1 - 1)
   \<and> getFullYear (TimeValue 1704189600000) = Some 2024
   \<and> getMonth (TimeValue 1704189600000) = Some 0
   \<and> getDate (TimeValue 1704189600000) = Some 2
   \<and> parseLocalYMD example_runtime (dueDate essay_task) = TimeValue (19723 * msPerDay)
   \<and> taskHtml example_runtime 1704189600000 essay_task
       = (lit ''overdue'', lit ''Overdue - Mon, Jan 1, 2024'')
   \<and> taskHtml example_runtime 1704189600000 (essay_task\<lparr>dueDate := Some (lit ''2024-01-02'')\<rparr>)
       = (lit ''due-soon'', lit ''Due Today - Tue, Jan 2, 2024'')
   \<and> taskHtml example_runtime 1704189600000 (essay_task\<lparr>dueDate := Some (lit ''2024-01-03'')\<rparr>)
       = (lit ''due-soon'', lit ''Due Tomorrow - Wed, Jan 3, 2024'')
   \<and> taskHtml example_runtime 1704189600000 (essay_task\<lparr>dueDate := Some (lit ''2024-01-04'')\<rparr>)
       = ([], lit ''Thu, Jan 4, 2024'')"
proof -
  have day: "Day 1704189600000 = 19724"
    by (simp add: Day_def msPerDay_def)
  have r: "\<bar>Day 1704189600000\<bar> < 100000000"
    by (simp add: day)
  have f: "getFullYear (TimeValue 1704189600000) = Some 2024" "getMonth (TimeValue 1704189600000) = Some 0"
    "getDate (TimeValue 1704189600000) = Some 2"
    using january_2024_dates(1) by (simp_all add: day calendar_date_def)
  have mk: "MakeDay 2024 0 1 = 19723"
    by (simp add: MakeDay_def DayFromYear_def days_before_month_def)
  have due: "dueDate essay_task = Some (ymd_text 2024 1 1)"
    by (simp add: essay_task_def january_2024_dates)
  have ml: "(1 :: int) \<le> month_length 2024 (1 - 1)"
    by (simp add: january_2024_dates)
  note rd = reads_decimal_example
  note b = due_date_badge [OF r, of example_runtime essay_task 2024 1 1]
  note b1 = conjunct1 [OF conjunct2 [OF b]]
  note s1 = conjunct2 [OF conjunct2 [OF b]]
  note b2 = conjunct1 [OF conjunct2 [OF due_date_badge [OF r, of example_runtime
      "essay_task\<lparr>dueDate := Some (lit ''2024-01-02'')\<rparr>" 2024 1 2]]]
  note b3 = conjunct1 [OF conjunct2 [OF due_date_badge [OF r, of example_runtime
      "essay_task\<lparr>dueDate := Some (lit ''2024-01-03'')\<rparr>" 2024 1 3]]]
  note b4 = conjunct1 [OF conjunct2 [OF due_date_badge [OF r, of example_runtime
      "essay_task\<lparr>dueDate := Some (lit ''2024-01-04'')\<rparr>" 2024 1 4]]]
  have p: "parseLocalYMD example_runtime (dueDate essay_task) = TimeValue (19723 * msPerDay)"
    using b1 rd due ml by (simp add: january_2024_dates mk)
  have t1: "taskHtml example_runtime 1704189600000 essay_task
       = (lit ''overdue'', lit ''Overdue - Mon, Jan 1, 2024'')"
    using s1 rd f by simp
  have t2: "taskHtml example_runtime 1704189600000 (essay_task\<lparr>dueDate := Some (lit ''2024-01-02'')\<rparr>)
       = (lit ''due-soon'', lit ''Due Today - Tue, Jan 2, 2024'')"
    using b2 rd by (simp add: january_2024_dates day) (simp add: lit_def)
  have t3: "taskHtml example_runtime 1704189600000 (essay_task\<lparr>dueDate := Some (lit ''2024-01-03'')\<rparr>)
       = (lit ''due-soon'', lit ''Due Tomorrow - Wed, Jan 3, 2024'')"
    using b3 rd by (simp add: january_2024_dates day) (simp add: lit_def)
  have t4: "taskHtml example_runtime 1704189600000 (essay_task\<lparr>dueDate := Some (lit ''2024-01-04'')\<rparr>)
       = ([], lit ''Thu, Jan 4, 2024'')"
    using b4 rd by (simp add: january_2024_dates day)
  from r rd due ml f p t1 t2 t3 t4 show ?thesis
    by simp
qed

section \<open>Properties of the calendar grid\<close>

lemma grid_days_in_range:
  assumes "- 271820 \<le> year" "year \<le> 275759" "0 \<le> m" "m \<le> 11"
  shows "grid_days (renderMonth todayStr year m ts) =
     map (render_day todayStr year m (groupTasksByDate ts)) [1..month_length (shown_year year) m]"
  by (simp add: renderMonth_def Let_def getDaysInMonth_in_range [OF assms])

lemma render_day_fields:
  "cell_day (render_day todayStr year m tb d) = d"
  "cell_iso (render_day todayStr year m tb d) = formatLocalISO (new_Date (Some year) (Some m) (Some d))"
  by (simp_all add: render_day_def Let_def)

lemma chips_set:
  "set (cell_chips (render_day todayStr year m (groupTasksByDate ts) d)) =
     {t \<in> set ts. dueDate t = Some (cell_iso (render_day todayStr year m (groupTasksByDate ts) d))}"
  by (simp only: render_day_chips set_Array_sort set_filter)

lemma exactly_one:
  "distinct (map f xs) \<Longrightarrow> k \<in> f ` set xs \<Longrightarrow> length (filter (\<lambda>x. f x = k) xs) = 1"
proof (induction xs)
  case Nil
  then show ?case by simp
next
  case (Cons x xs)
  show ?case
  proof (cases "f x = k")
    case True
    with Cons.prems have "k \<notin> f ` set xs" by auto
    then have "filter (\<lambda>x. f x = k) xs = []"
      by (auto simp add: filter_empty_conv)
    with True show ?thesis by simp
  next
    case False
    with Cons show ?thesis by auto
  qed
qed

lemma month_cells:
  assumes r: "- 271820 \<le> year" "year \<le> 275759" "0 \<le> m" "m \<le> 11"
  shows "map cell_day (grid_days (renderMonth todayStr year m ts)) = [1..month_length (shown_year year) m]"
    and "\<forall>c \<in> set (grid_days (renderMonth todayStr year m ts)).
           cell_iso c = iso_text (shown_year year) m (cell_day c)"
    and "distinct (map cell_iso (grid_days (renderMonth todayStr year m ts)))"
    and "\<forall>c \<in> set (grid_days (renderMonth todayStr year m ts)).
           set (cell_chips c) = {t \<in> set ts. dueDate t = Some (cell_iso c)}"
proof -
  let ?len = "month_length (shown_year year) m"
  let ?cell = "render_day todayStr year m (groupTasksByDate ts)"
  note grid = grid_days_in_range [OF r, of todayStr ts]
  have iso: "cell_iso (?cell d) = iso_text (shown_year year) m d" if "d \<in> set [1..?len]" for d
    using that formatLocalISO_in_month [OF r, of d] by (simp add: render_day_fields)
  show "map cell_day (grid_days (renderMonth todayStr year m ts)) = [1..?len]"
    unfolding grid by (simp add: comp_def render_day_fields)
  show "\<forall>c \<in> set (grid_days (renderMonth todayStr year m ts)).
           cell_iso c = iso_text (shown_year year) m (cell_day c)"
    unfolding grid using iso by (auto simp add: render_day_fields(1))
  have "inj_on (\<lambda>d. cell_iso (?cell d)) (set [1..?len])"
  proof (rule inj_onI)
    fix d e
    assume d: "d \<in> set [1..?len]" and e: "e \<in> set [1..?len]"
      and "cell_iso (?cell d) = cell_iso (?cell e)"
    then have "iso_text (shown_year year) m d = iso_text (shown_year year) m e"
      by (simp only: iso)
    moreover from d e have "0 \<le> d" "0 \<le> e" by simp_all
    ultimately show "d = e" by (intro iso_text_inj)
  qed
  then show "distinct (map cell_iso (grid_days (renderMonth todayStr year m ts)))"
    unfolding grid by (simp add: distinct_map comp_def)
  show "\<forall>c \<in> set (grid_days (renderMonth todayStr year m ts)).
           set (cell_chips c) = {t \<in> set ts. dueDate t = Some (cell_iso c)}"
    unfolding grid using chips_set by auto
qed

text \<open>
  What the grid shows. Let the displayed month be a month (index 0 to 11) of a year
  within the range of Date. The grid has one day cell for every day of the month, each
  with the text \<open>formatLocalISO\<close> writes for its day. Every chip of a day cell is a
  stored task that is not completed and whose due date is the text of the cell. Every
  stored task that is not completed and whose due date is the text of a day cell of the
  grid is shown in exactly one day cell. Completed tasks and tasks with no due date are in
  no cell.
\<close>

lemma grid_buckets_by_text:
  assumes "- 271820 \<le> year" "year \<le> 275759" "0 \<le> monthIndex" "monthIndex \<le> 11"
  shows "map cell_day (grid_days (refresh now year monthIndex stored))
           = [1..month_length (shown_year year) monthIndex]
       \<and> (\<forall>c \<in> set (grid_days (refresh now year monthIndex stored)).
             cell_iso c = iso_text (shown_year year) monthIndex (cell_day c))
       \<and> (\<forall>c \<in> set (grid_days (refresh now year monthIndex stored)).
             \<forall>t \<in> set (cell_chips c).
               dueDate t = Some (cell_iso c) \<and> \<not> completed t \<and> t \<in> set stored)
       \<and> (\<forall>t \<in> set stored.
             \<not> completed t \<longrightarrow>
             (\<exists>c \<in> set (grid_days (refresh now year monthIndex stored)). dueDate t = Some (cell_iso c)) \<longrightarrow>
             length (filter (\<lambda>c. t \<in> set (cell_chips c))
                       (grid_days (refresh now year monthIndex stored))) = 1)
       \<and> (\<forall>t \<in> set stored.
             completed t \<or> dueDate t = None \<longrightarrow>
             (\<forall>c \<in> set (grid_days (refresh now year monthIndex stored)). t \<notin> set (cell_chips c)))"
proof -
  let ?ts = "loadTasks_filter stored"
  let ?cells = "grid_days (renderMonth (formatLocalISO (TimeValue now)) year monthIndex ?ts)"
  note mc = month_cells [OF assms, of "formatLocalISO (TimeValue now)" ?ts]
  have cells: "grid_days (refresh now year monthIndex stored) = ?cells"
    by (simp add: refresh_def)
  have loaded: "set ?ts = {t \<in> set stored. \<not> completed t}"
    by (simp add: loadTasks_filter_def)
  have chips: "t \<in> set (cell_chips c) \<longleftrightarrow> t \<in> set stored \<and> \<not> completed t \<and> dueDate t = Some (cell_iso c)"
    if "c \<in> set ?cells" for c t
    using mc(4) that loaded by auto
  have one: "length (filter (\<lambda>c. t \<in> set (cell_chips c)) ?cells) = 1"
    if t: "t \<in> set stored" "\<not> completed t" and c: "c \<in> set ?cells" "dueDate t = Some (cell_iso c)"
    for t c
  proof -
    have "filter (\<lambda>c'. t \<in> set (cell_chips c')) ?cells = filter (\<lambda>c'. cell_iso c' = cell_iso c) ?cells"
      using chips t c(2) by (intro filter_cong) auto
    moreover have "length (filter (\<lambda>c'. cell_iso c' = cell_iso c) ?cells) = 1"
      using mc(3) c(1) by (intro exactly_one) auto
    ultimately show ?thesis by simp
  qed
  show ?thesis
    unfolding cells
  proof (intro conjI ballI impI)
    show "map cell_day ?cells = [1..month_length (shown_year year) monthIndex]"
      by (rule mc(1))
  next
    fix c assume "c \<in> set ?cells"
    then show "cell_iso c = iso_text (shown_year year) monthIndex (cell_day c)"
      using mc(2) by blast
  next
    fix c t assume "c \<in> set ?cells" "t \<in> set (cell_chips c)"
    then show "dueDate t = Some (cell_iso c)" "\<not> completed t" "t \<in> set stored"
      using chips by blast+
  next
    fix t
    assume "t \<in> set stored" "\<not> completed t" "\<exists>c \<in> set ?cells. dueDate t = Some (cell_iso c)"
    then show "length (filter (\<lambda>c. t \<in> set (cell_chips c)) ?cells) = 1"
      using one by blast
  next
    fix t c
    assume "t \<in> set stored" "completed t \<or> dueDate t = None" "c \<in> set ?cells"
    then show "t \<notin> set (cell_chips c)"
      using chips by auto
  qed
qed

lemma no_chips:
  assumes "\<forall>c \<in> set cells. set (cell_chips c) = {}"
  shows "concat (map cell_chips cells) = []"
  using assms by (induction cells) simp_all

lemma year_999_texts:
  "ymd_text 999 1 15 = lit ''0999-01-15''"
  "iso_text 999 0 15 = lit ''999-01-15''"
  "month_length 999 0 = 31"
  "shown_year 999 = 999"
  "String_int 999 = lit ''999''"
  by code_simp+

text \<open>
  Claim C3 fails for a month of a year before 1000. \<open>formatLocalISO\<close> writes the year
  without padding, so the cells of January 999 carry the texts \<open>999-01-01\<close> to
  \<open>999-01-31\<close>, and a task that is not completed and is due \<open>0999-01-15\<close>, the text
  of 15 January 999 with a four-digit year, is a chip of no cell of that month; the
  board's \<open>parseLocalYMD\<close> reads the same due date as 15 January 999, the day of the
  fifteenth cell.
\<close>

theorem task_of_year_999_in_no_cell:
  "dueDate old_task = Some (ymd_text 999 1 15) \<and> \<not> completed old_task
   \<and> map cell_day (grid_days (refresh 1704189600000 999 0 [old_task])) = [1..31]
   \<and> map cell_iso (grid_days (refresh 1704189600000 999 0 [old_task])) = map (iso_text 999 0) [1..31]
   \<and> iso_text 999 0 15 = lit ''999-01-15''
   \<and> concat (map cell_chips (grid_days (refresh 1704189600000 999 0 [old_task]))) = []
   \<and> parseLocalYMD example_runtime (dueDate old_task) = new_Date (Some 999) (Some 0) (Some 15)
   \<and> formatLocalISO (new_Date (Some 999) (Some 0) (Some 15)) = iso_text 999 0 15"
proof -
  let ?ts = "loadTasks_filter [old_task]"
  let ?cells = "grid_days (refresh 1704189600000 999 0 [old_task])"
  have r: "- 271820 \<le> (999 :: int)" "(999 :: int) \<le> 275759" "(0 :: int) \<le> 0" "(0 :: int) \<le> 11"
    by simp_all
  note mc = month_cells [OF r, of "formatLocalISO (TimeValue 1704189600000)" ?ts]
  have cells: "?cells = grid_days (renderMonth (formatLocalISO (TimeValue 1704189600000)) 999 0 ?ts)"
    by (simp add: refresh_def)
  have due: "dueDate old_task = Some (ymd_text 999 1 15)" "\<not> completed old_task"
    by (simp_all add: old_task_def year_999_texts)
  have days: "map cell_day ?cells = [1..31]"
    unfolding cells using mc(1) by (simp add: year_999_texts)
  have "map cell_iso ?cells = map (\<lambda>c. iso_text 999 0 (cell_day c)) ?cells"
    unfolding cells using mc(2) by (simp add: year_999_texts)
  also have "\<dots> = map (iso_text 999 0) (map cell_day ?cells)"
    by (simp add: comp_def)
  finally have isos: "map cell_iso ?cells = map (iso_text 999 0) [1..31]"
    by (simp only: days)
  have "set (cell_chips c) = {}" if c: "c \<in> set ?cells" for c
  proof -
    from c mc(2) have "cell_iso c = iso_text 999 0 (cell_day c)"
      unfolding cells by (simp add: year_999_texts)
    then have "cell_iso c ! 3 = 45"
      by (simp add: iso_text_def year_999_texts) (simp add: lit_def)
    moreover have "lit ''0999-01-15'' ! 3 = 57"
      by (simp add: lit_def)
    ultimately have "dueDate old_task \<noteq> Some (cell_iso c)"
      by (auto simp add: old_task_def)
    moreover from c mc(4) have "set (cell_chips c) = {t \<in> set ?ts. dueDate t = Some (cell_iso c)}"
      unfolding cells by blast
    ultimately show ?thesis
      by (auto simp add: loadTasks_filter_def)
  qed
  then have none: "concat (map cell_chips ?cells) = []"
    by (intro no_chips) blast
  have p: "parseLocalYMD example_runtime (dueDate old_task) = new_Date (Some 999) (Some 0) (Some 15)"
    unfolding due(1) using reads_decimal_example
    by (rule parseLocalYMD_ymd_text [of example_runtime 999 1 15, simplified])
  have "formatLocalISO (new_Date (Some 999) (Some 0) (Some 15)) = iso_text (shown_year 999) 0 15"
    by (rule formatLocalISO_in_month) (simp_all add: year_999_texts)
  then have f: "formatLocalISO (new_Date (Some 999) (Some 0) (Some 15)) = iso_text 999 0 15"
    by (simp only: year_999_texts(4))
  note t = year_999_texts(2)
  from due days isos t none p f show ?thesis
    by (intro conjI)
qed

end
